(* ===== verification/Prelude.thy ===== *)
theory Prelude
  imports Main "HOL-Library.Char_ord" "HOL-Library.List_Lexorder" "HOL-Library.Code_Target_Numeral"
begin

text \<open>
  Shared vocabulary of the cert-proxy development: the byte-string view of Go's
  \<open>string\<close>, Go's error values, the operations of Go's package \<open>strings\<close> the sources
  call, and the list lemmas all components use.  A Go string is a list of bytes, so
  \<^typ>\<open>string\<close> (a list of 8-bit characters) models it exactly, and non-ASCII text is
  its UTF-8 encoding.
\<close>

named_theorems go_simps \<open>unfolding rules of the small Go library functions\<close>
named_theorems go_split \<open>facts about the results of splitting strings\<close>

section \<open>Errors\<close>

text \<open>
  The kernel's error numbers the code distinguishes (through \<open>os.IsNotExist\<close>,
  \<open>os.IsExist\<close> and \<open>errors.Is\<close>) or reports.
\<close>

datatype errno = ENOENT | EEXIST | EACCES | EPERM | ENOTDIR | EISDIR | ENOTEMPTY | ELOOP
  | ENOSPC | EIO | EINVAL

fun errno_text :: "errno \<Rightarrow> string" where
  "errno_text ENOENT = ''no such file or directory''"
| "errno_text EEXIST = ''file exists''"
| "errno_text EACCES = ''permission denied''"
| "errno_text EPERM = ''operation not permitted''"
| "errno_text ENOTDIR = ''not a directory''"
| "errno_text EISDIR = ''is a directory''"
| "errno_text ENOTEMPTY = ''directory not empty''"
| "errno_text ELOOP = ''too many levels of symbolic links''"
| "errno_text ENOSPC = ''no space left on device''"
| "errno_text EIO = ''input/output error''"
| "errno_text EINVAL = ''invalid argument''"

text \<open>
  Go error values.  \<open>ErrInvalidName\<close> and \<open>ErrInvalidCompat\<close> are the sentinels the code
  declares, \<open>ErrNotExist\<close> and \<open>ErrTooLong\<close> those of \<open>io/fs\<close> and \<open>bufio\<close>.
  \<open>Wrapf pre e post\<close> is \<open>fmt.Errorf\<close> with one \<open>%w\<close> verb, \<open>pre\<close> and \<open>post\<close> being the
  text before and after it.
\<close>

datatype go_error =
    Msg string
  | ErrInvalidName
  | ErrInvalidCompat
  | ErrNotExist
  | ErrTooLong
  | PathError string string errno
  | LinkError string string string errno
  | UrlError string string go_error
  | Wrapf string go_error string

fun unwrap :: "go_error \<Rightarrow> go_error option" where
  "unwrap (Wrapf _ e _) = Some e"
| "unwrap (UrlError _ _ e) = Some e"
| "unwrap _ = None"

text \<open>\<open>os.IsNotExist\<close> and \<open>os.IsExist\<close> look through \<open>PathError\<close> and \<open>LinkError\<close> only; they
  do not unwrap \<open>%w\<close> chains, while \<open>errors.Is\<close> does.\<close>

fun os_is_not_exist :: "go_error \<Rightarrow> bool" where
  "os_is_not_exist ErrNotExist = True"
| "os_is_not_exist (PathError _ _ n) = (n = ENOENT)"
| "os_is_not_exist (LinkError _ _ _ n) = (n = ENOENT)"
| "os_is_not_exist _ = False"

fun os_is_exist :: "go_error \<Rightarrow> bool" where
  "os_is_exist (PathError _ _ n) = (n = EEXIST \<or> n = ENOTEMPTY)"
| "os_is_exist (LinkError _ _ _ n) = (n = EEXIST \<or> n = ENOTEMPTY)"
| "os_is_exist _ = False"

fun errors_is_not_exist :: "go_error \<Rightarrow> bool" where
  "errors_is_not_exist ErrNotExist = True"
| "errors_is_not_exist (PathError _ _ n) = (n = ENOENT)"
| "errors_is_not_exist (LinkError _ _ _ n) = (n = ENOENT)"
| "errors_is_not_exist (UrlError _ _ e) = errors_is_not_exist e"
| "errors_is_not_exist (Wrapf _ e _) = errors_is_not_exist e"
| "errors_is_not_exist _ = False"

fun errors_is_invalid_name :: "go_error \<Rightarrow> bool" where
  "errors_is_invalid_name ErrInvalidName = True"
| "errors_is_invalid_name (UrlError _ _ e) = errors_is_invalid_name e"
| "errors_is_invalid_name (Wrapf _ e _) = errors_is_invalid_name e"
| "errors_is_invalid_name _ = False"

fun errors_is_invalid_compat :: "go_error \<Rightarrow> bool" where
  "errors_is_invalid_compat ErrInvalidCompat = True"
| "errors_is_invalid_compat (UrlError _ _ e) = errors_is_invalid_compat e"
| "errors_is_invalid_compat (Wrapf _ e _) = errors_is_invalid_compat e"
| "errors_is_invalid_compat _ = False"

text \<open>The end of a call: it returns, or it panics with a message.\<close>

datatype 'a outcome = Returned 'a | Panicked string

section \<open>Bytes and characters\<close>

abbreviation nl :: char where
  "nl \<equiv> CHR 0x0A"

abbreviation cr :: char where
  "cr \<equiv> CHR 0x0D"

abbreviation tab :: char where
  "tab \<equiv> CHR 0x09"

abbreviation code :: "char \<Rightarrow> nat" where
  "code c \<equiv> of_char c"

definition is_lower :: "char \<Rightarrow> bool" where
  "is_lower c \<longleftrightarrow> 97 \<le> code c \<and> code c \<le> 122"

definition is_upper :: "char \<Rightarrow> bool" where
  "is_upper c \<longleftrightarrow> 65 \<le> code c \<and> code c \<le> 90"

definition is_digit :: "char \<Rightarrow> bool" where
  "is_digit c \<longleftrightarrow> 48 \<le> code c \<and> code c \<le> 57"

definition is_ascii :: "char \<Rightarrow> bool" where
  "is_ascii c \<longleftrightarrow> code c < 128"

definition upper_char :: "char \<Rightarrow> char" where
  "upper_char c = (if is_lower c then char_of (code c - 32) else c)"

definition lower_char :: "char \<Rightarrow> char" where
  "lower_char c = (if is_upper c then char_of (code c + 32) else c)"

text \<open>
  \<open>strings.ToUpper\<close>.  Two code points outside ASCII have an ASCII upper case: the dotless i
  (U+0131, bytes 196 177) and the long s (U+017F, bytes 197 191).  Every other non-ASCII code
  point maps to a non-ASCII one, which no comparison in the sources can match; their bytes
  are kept, which differs from Go at most in the text of an error message.
\<close>

fun to_upper :: "string \<Rightarrow> string" where
  "to_upper [] = []"
| "to_upper [c] = [upper_char c]"
| "to_upper (a # b # s) =
     (if code a = 196 \<and> code b = 177 then CHR ''I'' # to_upper s
      else if code a = 197 \<and> code b = 191 then CHR ''S'' # to_upper s
      else upper_char a # to_upper (b # s))"

definition ascii_lower :: "string \<Rightarrow> string" where
  "ascii_lower s = map lower_char s"

lemma to_upper_ascii: "list_all is_ascii s \<Longrightarrow> to_upper s = map upper_char s"
  by (induction s rule: to_upper.induct) (auto simp: is_ascii_def)

lemma upper_char_upper [simp]: "upper_char (upper_char c) = upper_char c"
  by (cases "is_lower c") (auto simp: upper_char_def is_lower_def)

section \<open>The operations of package strings\<close>

definition has_prefix :: "string \<Rightarrow> string \<Rightarrow> bool" where
  "has_prefix s p \<longleftrightarrow> take (length p) s = p"

definition has_suffix :: "string \<Rightarrow> string \<Rightarrow> bool" where
  "has_suffix s p \<longleftrightarrow> has_prefix (rev s) (rev p)"

fun contains :: "string \<Rightarrow> string \<Rightarrow> bool" where
  "contains [] sub = (sub = [])"
| "contains (c # s) sub = (has_prefix (c # s) sub \<or> contains s sub)"

text \<open>\<open>strings.Cut\<close> with a one-byte separator: the part before the first separator, the part
  after it, and whether there is one.\<close>

definition cut :: "char \<Rightarrow> string \<Rightarrow> string \<times> string \<times> bool" where
  "cut c s = (if c \<in> set s then (takeWhile (\<lambda>x. x \<noteq> c) s, tl (dropWhile (\<lambda>x. x \<noteq> c) s), True)
              else (s, [], False))"

fun split_on :: "char \<Rightarrow> string \<Rightarrow> string list" where
  "split_on c [] = [[]]"
| "split_on c (x # xs) =
     (if x = c then [] # split_on c xs
      else (case split_on c xs of [] \<Rightarrow> [[x]] | y # ys \<Rightarrow> (x # y) # ys))"

fun join :: "string \<Rightarrow> string list \<Rightarrow> string" where
  "join sep [] = []"
| "join sep [x] = x"
| "join sep (x # y # ys) = x @ sep @ join sep (y # ys)"

definition trim_left :: "(char \<Rightarrow> bool) \<Rightarrow> string \<Rightarrow> string" where
  "trim_left P s = dropWhile P s"

definition trim_right :: "(char \<Rightarrow> bool) \<Rightarrow> string \<Rightarrow> string" where
  "trim_right P s = rev (dropWhile P (rev s))"

definition trim :: "(char \<Rightarrow> bool) \<Rightarrow> string \<Rightarrow> string" where
  "trim P s = trim_right P (trim_left P s)"

text \<open>The last index of a byte, as \<open>strings.LastIndex\<close> gives it: \<open>None\<close> for -1.\<close>

definition last_index :: "char \<Rightarrow> string \<Rightarrow> nat option" where
  "last_index c s = (if c \<in> set s then Some (length s - 1 - length (takeWhile (\<lambda>x. x \<noteq> c) (rev s)))
                     else None)"

fun dec_nat :: "nat \<Rightarrow> string" where
  "dec_nat n = (if n < 10 then [char_of (48 + n)] else dec_nat (n div 10) @ [char_of (48 + n mod 10)])"

declare dec_nat.simps [simp del]

definition format_int :: "int \<Rightarrow> string" where
  "format_int i = (if i < 0 then ''-'' @ dec_nat (nat (- i)) else dec_nat (nat i))"

text \<open>\<open>strconv.Quote\<close>, which the \<open>%q\<close> verb prints: exact on ASCII; bytes of non-ASCII text
  are kept, as Quote does for printable runes.\<close>

definition hex_digit :: "nat \<Rightarrow> char" where
  "hex_digit n = (if n < 10 then char_of (48 + n) else char_of (87 + n))"

definition quote_char :: "char \<Rightarrow> string" where
  "quote_char c =
     (let n = code c in
      if n = 34 \<or> n = 92 then [CHR 0x5C, c]
      else if n = 7 then [CHR 0x5C, CHR ''a''] else if n = 8 then [CHR 0x5C, CHR ''b'']
      else if n = 12 then [CHR 0x5C, CHR ''f''] else if n = 10 then [CHR 0x5C, CHR ''n'']
      else if n = 13 then [CHR 0x5C, CHR ''r''] else if n = 9 then [CHR 0x5C, CHR ''t'']
      else if n = 11 then [CHR 0x5C, CHR ''v'']
      else if n < 32 \<or> n = 127 then [CHR 0x5C, CHR ''x'', hex_digit (n div 16), hex_digit (n mod 16)]
      else [c])"

definition quote :: "string \<Rightarrow> string" where
  "quote s = [CHR 0x22] @ concat (map quote_char s) @ [CHR 0x22]"

fun error_text :: "go_error \<Rightarrow> string" where
  "error_text (Msg m) = m"
| "error_text ErrInvalidName = ''invalid name''"
| "error_text ErrInvalidCompat = ''invalid pkcs12-compat''"
| "error_text ErrNotExist = ''file does not exist''"
| "error_text ErrTooLong = ''bufio.Scanner: token too long''"
| "error_text (PathError ope p n) = ope @ '' '' @ p @ '': '' @ errno_text n"
| "error_text (LinkError ope old new n) = ope @ '' '' @ old @ '' '' @ new @ '': '' @ errno_text n"
| "error_text (UrlError ope u e) = ope @ '' '' @ quote u @ '': '' @ error_text e"
| "error_text (Wrapf pre e post) = pre @ error_text e @ post"

section \<open>Lemmas on strings\<close>

lemma has_prefix_append [simp]: "has_prefix (p @ s) p"
  by (simp add: has_prefix_def)

lemma has_prefix_iff: "has_prefix s p \<longleftrightarrow> (\<exists>t. s = p @ t)"
  by (metis append_eq_conv_conj append_take_drop_id has_prefix_def)

lemma contains_iff: "contains s sub \<longleftrightarrow> (\<exists>a b. s = a @ sub @ b)"
proof (induction s)
  case Nil
  show ?case by auto
next
  case (Cons c s)
  show ?case
  proof
    assume "contains (c # s) sub"
    then show "\<exists>a b. c # s = a @ sub @ b"
      using Cons.IH by (metis append_Cons append_Nil contains.simps(2) has_prefix_iff)
  next
    assume "\<exists>a b. c # s = a @ sub @ b"
    then obtain a b where ab: "c # s = a @ sub @ b" by blast
    show "contains (c # s) sub"
    proof (cases a)
      case Nil
      with ab have "has_prefix (c # s) sub" by (auto simp: has_prefix_iff)
      then show ?thesis by simp
    next
      case (Cons x xs)
      with ab have "s = xs @ sub @ b" by simp
      with Cons.IH show ?thesis by auto
    qed
  qed
qed

lemma split_on_not_Nil [simp]: "split_on c s \<noteq> []"
  by (induction s) (auto split: list.splits)

lemma split_on_no_sep [go_split]: "p \<in> set (split_on c s) \<Longrightarrow> c \<notin> set p"
  by (induction s arbitrary: p) (auto split: list.splits if_splits)

lemma split_on_chars: "p \<in> set (split_on c s) \<Longrightarrow> set p \<subseteq> set s"
proof (induction s arbitrary: p)
  case Nil
  then show ?case by simp
next
  case (Cons x xs)
  show ?case
  proof (cases "split_on c xs")
    case Nil
    then show ?thesis by simp
  next
    case (Cons y ys)
    then have "set y \<subseteq> set xs" and "\<And>q. q \<in> set ys \<Longrightarrow> set q \<subseteq> set xs"
      using Cons.IH by auto
    with Cons Cons.prems show ?thesis by (auto split: if_splits)
  qed
qed

lemma split_on_id: "c \<notin> set s \<Longrightarrow> split_on c s = [s]"
  by (induction s) auto

lemma split_on_append: "split_on c (a @ c # b) = split_on c a @ split_on c b"
  by (induction a) (auto split: list.splits)

lemma join_Cons: "join sep (x # xs) = (if xs = [] then x else x @ sep @ join sep xs)"
  by (cases xs) auto

lemma join_append: "xs \<noteq> [] \<Longrightarrow> ys \<noteq> [] \<Longrightarrow> join sep (xs @ ys) = join sep xs @ sep @ join sep ys"
  by (induction xs) (auto simp: join_Cons)

lemma join_split_on: "join [c] (split_on c s) = s"
proof (induction s)
  case Nil
  show ?case by simp
next
  case (Cons x xs)
  then show ?case by (cases "split_on c xs") (auto simp: join_Cons)
qed

lemma split_on_join:
  "xs \<noteq> [] \<Longrightarrow> \<forall>x\<in>set xs. c \<notin> set x \<Longrightarrow> split_on c (join [c] xs) = xs"
proof (induction xs)
  case Nil
  then show ?case by simp
next
  case (Cons x xs)
  then show ?case
    by (cases "xs = []") (auto simp: join_Cons split_on_id split_on_append)
qed

lemma set_join: "set (join sep xs) \<subseteq> set sep \<union> (\<Union>x\<in>set xs. set x)"
  by (induction xs) (auto simp: join_Cons)

lemma trim_left_hd: "trim_left P s \<noteq> [] \<Longrightarrow> \<not> P (hd (trim_left P s))"
  by (simp add: trim_left_def hd_dropWhile)

lemma trim_right_last: "trim_right P s \<noteq> [] \<Longrightarrow> \<not> P (last (trim_right P s))"
  by (metis hd_dropWhile hd_rev rev_is_Nil_conv rev_rev_ident trim_right_def)

lemma trim_right_prefix: "\<exists>t. s = trim_right P s @ t \<and> list_all P t"
proof -
  have "rev s = takeWhile P (rev s) @ dropWhile P (rev s)" by simp
  then have "s = rev (dropWhile P (rev s)) @ rev (takeWhile P (rev s))"
    by (metis rev_append rev_rev_ident)
  moreover have "list_all P (rev (takeWhile P (rev s)))"
    by (auto simp: list_all_iff dest: set_takeWhileD)
  ultimately show ?thesis unfolding trim_right_def by blast
qed

lemma trim_right_set: "set (trim_right P s) \<subseteq> set s"
  unfolding trim_right_def by (metis set_dropWhileD set_rev subsetI)

lemma trim_set: "set (trim P s) \<subseteq> set s"
  unfolding trim_def trim_left_def by (metis set_dropWhileD subsetI subset_trans trim_right_set)

lemma trim_right_id: "s = [] \<or> \<not> P (last s) \<Longrightarrow> trim_right P s = s"
  unfolding trim_right_def
  by (metis dropWhile_eq_self_iff hd_rev rev_is_Nil_conv rev_rev_ident)

lemma trim_left_id: "s = [] \<or> \<not> P (hd s) \<Longrightarrow> trim_left P s = s"
  unfolding trim_left_def by (simp add: dropWhile_eq_self_iff)

lemma trim_id: "list_all (\<lambda>c. \<not> P c) s \<Longrightarrow> trim P s = s"
  unfolding trim_def
  by (cases s) (auto simp: trim_left_id trim_right_id list_all_iff)

lemma trim_ends:
  assumes "trim P s \<noteq> []"
  shows "\<not> P (hd (trim P s))" and "\<not> P (last (trim P s))"
proof -
  let ?l = "trim_left P s"
  obtain t where t: "?l = trim P s @ t" using trim_right_prefix [of ?l P] unfolding trim_def by auto
  then have "?l \<noteq> []" and "hd (trim P s) = hd ?l" using assms by (auto simp: hd_append)
  then show "\<not> P (hd (trim P s))" using trim_left_hd [of P s] by simp
  show "\<not> P (last (trim P s))" using assms unfolding trim_def by (rule trim_right_last)
qed

lemma dropWhile_sep: "c \<in> set s \<Longrightarrow> dropWhile (\<lambda>x. x \<noteq> c) s = c # tl (dropWhile (\<lambda>x. x \<noteq> c) s)"
  by (induction s) auto

lemma cut_parts:
  assumes "cut c s = (a, b, True)"
  shows "s = a @ c # b \<and> c \<notin> set a"
proof -
  from assms have c: "c \<in> set s" and a: "a = takeWhile (\<lambda>x. x \<noteq> c) s"
    and b: "b = tl (dropWhile (\<lambda>x. x \<noteq> c) s)"
    by (auto simp: cut_def split: if_splits)
  have "s = a @ dropWhile (\<lambda>x. x \<noteq> c) s" by (simp add: a)
  moreover have "c \<notin> set a" unfolding a by (auto dest: set_takeWhileD)
  ultimately show ?thesis using dropWhile_sep [OF c] b by simp
qed

lemma cut_none: "cut c s = (a, b, False) \<longleftrightarrow> c \<notin> set s \<and> a = s \<and> b = []"
  by (auto simp: cut_def)

lemma cut_append: "c \<notin> set a \<Longrightarrow> cut c (a @ c # b) = (a, b, True)"
  by (auto simp: cut_def takeWhile_append dropWhile_append)

end
