(* ===== verification/GoPath.thy ===== *)
theory GoPath
  imports Prelude
begin

text \<open>
  Slash-separated paths as Go's \<open>path\<close> and (on Unix) \<open>path/filepath\<close> treat them:
  \<open>Clean\<close>, \<open>Join\<close>, \<open>Dir\<close> and \<open>Base\<close>, with the lemmas on which the confinement
  properties of the server and the client rest.
\<close>

section \<open>Clean\<close>

text \<open>
  \<open>path.Clean\<close> writes the elements of the path one after the other into a buffer; an element
  \<open>..\<close> removes the last element written, unless there is none (then it is dropped in a rooted
  path and kept in a relative one).  The buffer is a stack here, last element first.
\<close>

definition clean_step :: "bool \<Rightarrow> string \<Rightarrow> string list \<Rightarrow> string list" where
  "clean_step rooted e st =
     (if e = [] \<or> e = ''.'' then st
      else if e = ''..'' then
        (case st of [] \<Rightarrow> (if rooted then [] else [''..''])
         | x # xs \<Rightarrow> (if x = ''..'' then ''..'' # st else xs))
      else e # st)"

definition rooted :: "string \<Rightarrow> bool" where
  "rooted p \<longleftrightarrow> has_prefix p ''/''"

definition clean_stack :: "bool \<Rightarrow> string list \<Rightarrow> string list \<Rightarrow> string list" where
  "clean_stack r es st = fold (clean_step r) es st"

definition path_elems :: "string \<Rightarrow> string list" where
  "path_elems p = rev (clean_stack (rooted p) (split_on CHR ''/'' p) [])"

definition path_clean :: "string \<Rightarrow> string" where
  "path_clean p =
     (if rooted p then CHR ''/'' # join ''/'' (path_elems p)
      else if path_elems p = [] then ''.'' else join ''/'' (path_elems p))"

text \<open>\<open>filepath.Join\<close>: leading empty elements are skipped, later ones vanish in \<open>Clean\<close>.\<close>

definition path_join :: "string list \<Rightarrow> string" where
  "path_join es =
     (case dropWhile (\<lambda>e. e = []) es of [] \<Rightarrow> [] | es' \<Rightarrow> path_clean (join ''/'' es'))"

text \<open>\<open>filepath.Dir\<close>: everything up to the last slash, cleaned.\<close>

definition path_dir :: "string \<Rightarrow> string" where
  "path_dir p = path_clean (rev (dropWhile (\<lambda>c. c \<noteq> CHR ''/'') (rev p)))"

text \<open>\<open>filepath.Base\<close>.\<close>

definition path_base :: "string \<Rightarrow> string" where
  "path_base p =
     (if p = [] then ''.'' else
      let q = trim_right (\<lambda>c. c = CHR ''/'') p;
          b = rev (takeWhile (\<lambda>c. c \<noteq> CHR ''/'') (rev q))
      in if b = [] then ''/'' else b)"

section \<open>Plain elements\<close>

text \<open>An element \<open>Clean\<close> keeps as it is.\<close>

definition plain :: "string \<Rightarrow> bool" where
  "plain e \<longleftrightarrow> e \<noteq> [] \<and> e \<noteq> ''.'' \<and> e \<noteq> ''..'' \<and> CHR ''/'' \<notin> set e"

lemma plain_step [simp]: "plain e \<Longrightarrow> clean_step r e st = e # st"
  by (simp add: plain_def clean_step_def)

lemma plain_stack: "list_all plain es \<Longrightarrow> clean_stack r es st = rev es @ st"
  by (induction es arbitrary: st) (auto simp: clean_stack_def)

lemma clean_stack_append: "clean_stack r (es @ fs) st = clean_stack r fs (clean_stack r es st)"
  by (simp add: clean_stack_def)

lemma clean_stack_Nil [simp]: "clean_stack r [] st = st"
  by (simp add: clean_stack_def)

lemma clean_stack_Cons: "clean_stack r (e # es) st = clean_stack r es (clean_step r e st)"
  by (simp add: clean_stack_def)

text \<open>A rooted path has plain elements only: \<open>..\<close> never survives.\<close>

lemma clean_step_rooted:
  "CHR ''/'' \<notin> set e \<Longrightarrow> list_all plain st \<Longrightarrow> list_all plain (clean_step True e st)"
  by (auto simp: clean_step_def plain_def split: list.splits)

lemma clean_stack_rooted:
  "\<forall>e\<in>set es. CHR ''/'' \<notin> set e \<Longrightarrow> list_all plain st \<Longrightarrow> list_all plain (clean_stack True es st)"
  by (induction es arbitrary: st) (auto simp: clean_stack_Cons clean_step_rooted)

lemma rooted_elems_plain: "rooted p \<Longrightarrow> list_all plain (path_elems p)"
  unfolding path_elems_def by (simp add: clean_stack_rooted split_on_no_sep)

text \<open>In a relative path every \<open>..\<close> is at the front.\<close>

definition updots :: "string list \<Rightarrow> bool" where
  "updots st \<longleftrightarrow> (\<exists>a n. st = a @ replicate n ''..'' \<and> list_all plain a)"

lemma clean_step_updots:
  assumes "CHR ''/'' \<notin> set e" and "updots st"
  shows "updots (clean_step r e st)"
proof -
  obtain a n where st: "st = a @ replicate n ''..''" and a: "list_all plain a"
    using assms(2) by (auto simp: updots_def)
  consider "e = [] \<or> e = ''.''" | "e = ''..''" | "plain e" using assms(1) by (auto simp: plain_def)
  then show ?thesis
  proof cases
    case 1
    then show ?thesis using assms(2) by (auto simp: clean_step_def)
  next
    case 3
    then have "clean_step r e st = (e # a) @ replicate n ''..''" by (simp add: st)
    moreover have "list_all plain (e # a)" using a 3 by simp
    ultimately show ?thesis unfolding updots_def by blast
  next
    case 2
    show ?thesis
    proof (cases a)
      case (Cons x xs)
      then have "clean_step r e st = xs @ replicate n ''..''"
        using 2 a by (auto simp: clean_step_def st plain_def)
      then show ?thesis using a Cons unfolding updots_def by auto
    next
      case Nil
      then have "clean_step r e st = replicate n ''..'' \<or> clean_step r e st = replicate (Suc n) ''..''"
        using 2 by (cases n) (auto simp: clean_step_def st)
      then show ?thesis unfolding updots_def by (metis append_Nil list.pred_inject(1))
    qed
  qed
qed

lemma clean_stack_updots:
  "\<forall>e\<in>set es. CHR ''/'' \<notin> set e \<Longrightarrow> updots st \<Longrightarrow> updots (clean_stack r es st)"
  by (induction es arbitrary: st) (auto simp: clean_stack_Cons clean_step_updots)

lemma updots_Nil [simp]: "updots []"
  unfolding updots_def by (rule exI [of _ "[]"], rule exI [of _ 0]) simp

lemma path_elems_updots: "updots (rev (path_elems p))"
  unfolding path_elems_def by (simp add: clean_stack_updots split_on_no_sep)

section \<open>Joining below a base directory\<close>

text \<open>
  \<open>path_below base es\<close> is the path that has the elements \<open>es\<close> below the cleaned \<open>base\<close>.
\<close>

definition path_below :: "string \<Rightarrow> string list \<Rightarrow> string" where
  "path_below base es =
     (if rooted base then CHR ''/'' # join ''/'' (path_elems base @ es)
      else if path_elems base @ es = [] then ''.'' else join ''/'' (path_elems base @ es))"

lemma path_below_Nil: "path_below base [] = path_clean base"
  by (simp add: path_below_def path_clean_def)

lemma rooted_append: "b \<noteq> [] \<Longrightarrow> rooted (b @ s) = rooted b"
  by (cases b) (auto simp: rooted_def has_prefix_def)

lemma elems_below:
  assumes "base \<noteq> []" and "list_all plain es" and "es \<noteq> []"
  shows "path_elems (base @ ''/'' @ join ''/'' es) = path_elems base @ es"
proof -
  have "split_on CHR ''/'' (join ''/'' es) = es"
    using assms(2,3) by (intro split_on_join) (auto simp: plain_def list_all_iff)
  then have "split_on CHR ''/'' (base @ CHR ''/'' # join ''/'' es) = split_on CHR ''/'' base @ es"
    by (simp only: split_on_append)
  then show ?thesis
    using assms by (simp add: path_elems_def rooted_append clean_stack_append plain_stack)
qed

lemma clean_below:
  assumes "base \<noteq> []" and "list_all plain es" and "es \<noteq> []"
  shows "path_clean (base @ ''/'' @ join ''/'' es) = path_below base es"
proof -
  have e: "path_elems (base @ CHR ''/'' # join ''/'' es) = path_elems base @ es"
    using elems_below [OF assms] by simp
  have r: "rooted (base @ CHR ''/'' # join ''/'' es) = rooted base"
    using assms(1) by (rule rooted_append)
  show ?thesis by (simp add: path_clean_def path_below_def e r)
qed

text \<open>Joining plain elements to a non-empty base directory extends it by exactly these.\<close>

lemma path_join_plain:
  assumes "base \<noteq> []" and "list_all plain es"
  shows "path_join (base # es) = path_below base es"
proof (cases "es = []")
  case True
  then show ?thesis using assms(1) by (simp add: path_join_def path_below_Nil)
next
  case False
  then have "join ''/'' (base # es) = base @ ''/'' @ join ''/'' es" by (simp add: join_Cons)
  then show ?thesis using assms False clean_below [of base es]
    by (simp add: path_join_def)
qed

lemma rooted_slash [simp]: "rooted (CHR ''/'' # s)"
  by (simp add: rooted_def has_prefix_def)

lemma path_elems_slash_join:
  assumes "list_all plain es"
  shows "path_elems (CHR ''/'' # join ''/'' es) = es"
proof (cases "es = []")
  case True
  then show ?thesis by (simp add: path_elems_def clean_stack_Cons clean_step_def)
next
  case False
  then have "split_on CHR ''/'' (join ''/'' es) = es"
    using assms by (intro split_on_join) (auto simp: plain_def list_all_iff)
  then show ?thesis
    by (simp add: path_elems_def clean_stack_Cons clean_step_def plain_stack assms)
qed

lemma path_clean_slash_join:
  "list_all plain es \<Longrightarrow> path_clean (CHR ''/'' # join ''/'' es) = CHR ''/'' # join ''/'' es"
  by (simp add: path_clean_def path_elems_slash_join)

lemma path_clean_rooted_form:
  "path_clean (CHR ''/'' # s) = CHR ''/'' # join ''/'' (path_elems (CHR ''/'' # s))"
  by (simp add: path_clean_def)

text \<open>Cleaning is idempotent on rooted paths.\<close>

lemma path_clean_idem: "rooted p \<Longrightarrow> path_clean (path_clean p) = path_clean p"
  using path_clean_slash_join [OF rooted_elems_plain [of p]] by (simp add: path_clean_def)

lemma join_snoc: "join sep (xs @ [x]) = (if xs = [] then x else join sep xs @ sep @ x)"
  by (cases "xs = []") (simp_all add: join_append)

lemma path_below_snoc: "path_below base (es @ [e]) =
    (if es = [] \<and> path_elems base = [] then (if rooted base then CHR ''/'' # e else e)
     else path_below base es @ ''/'' @ e)"
  using join_snoc [of "''/''" "path_elems base @ es" e] by (auto simp: path_below_def)

text \<open>The extension is injective in the plain elements.\<close>

lemma plain_no_slash: "list_all plain es \<Longrightarrow> \<forall>x\<in>set es. CHR ''/'' \<notin> set x"
  by (auto simp: list_all_iff plain_def)

lemma updots_no_slash: "updots st \<Longrightarrow> x \<in> set st \<Longrightarrow> CHR ''/'' \<notin> set x"
proof -
  assume "updots st" and x: "x \<in> set st"
  then obtain a n where st: "st = a @ replicate n ''..''" and a: "list_all plain a"
    unfolding updots_def by blast
  from x st have "x \<in> set a \<or> x = ''..''" by (metis UnE in_set_replicate set_append)
  then show ?thesis
  proof
    assume "x \<in> set a"
    then have "plain x" using a by (metis list_all_iff)
    then show ?thesis by (simp add: plain_def)
  qed simp
qed

lemma path_elems_no_slash: "\<forall>x\<in>set (path_elems p). CHR ''/'' \<notin> set x"
  using updots_no_slash [OF path_elems_updots [of p]] by simp

lemma join_slash_inj:
  assumes "join ''/'' xs = join ''/'' ys" and "xs \<noteq> []" and "ys \<noteq> []"
    and "\<forall>x\<in>set xs. CHR ''/'' \<notin> set x" and "\<forall>x\<in>set ys. CHR ''/'' \<notin> set x"
  shows "xs = ys"
proof -
  have "xs = split_on CHR ''/'' (join ''/'' xs)" using split_on_join [OF assms(2,4)] by (rule sym)
  also have "\<dots> = split_on CHR ''/'' (join ''/'' ys)" by (rule arg_cong [OF assms(1)])
  also have "\<dots> = ys" by (rule split_on_join [OF assms(3,5)])
  finally show ?thesis .
qed

lemma path_below_join: "es \<noteq> [] \<Longrightarrow> path_below base es =
    (if rooted base then ''/'' else []) @ join ''/'' (path_elems base @ es)"
  by (simp add: path_below_def)

lemma path_below_inj:
  assumes eq: "path_below base es = path_below base fs"
    and p: "list_all plain es" "list_all plain fs" and n: "es \<noteq> []" "fs \<noteq> []"
  shows "es = fs"
proof -
  have j: "join ''/'' (path_elems base @ es) = join ''/'' (path_elems base @ fs)"
    using eq n by (simp add: path_below_join)
  have "\<forall>x\<in>set (path_elems base @ es). CHR ''/'' \<notin> set x"
    and "\<forall>x\<in>set (path_elems base @ fs). CHR ''/'' \<notin> set x"
    using path_elems_no_slash [of base] plain_no_slash [OF p(1)] plain_no_slash [OF p(2)] by auto
  then have "path_elems base @ es = path_elems base @ fs"
    using join_slash_inj [OF j] n by simp
  then show ?thesis by simp
qed

end
