(* ===== verification/GoFs.thy ===== *)
theory GoFs
  imports GoPath "HOL-Library.AList" "HOL-Library.Word"
begin

unbundle bit_operations_syntax

text \<open>
  The file system as the program sees it through package \<open>os\<close>.  A tree is a finite table from
  cleaned path names to inodes.  System calls follow a symbolic link in the last component;
  a directory the program reaches through a link is listed under the name the program uses.
  \<open>fs_deny\<close> is the environment's choice of failing calls (permissions, a full disk, an I/O
  error), so every error branch of the code is a branch of the model.  \<open>fs_past\<close> records every
  tree the file system went through, newest first: a reader running beside the program can see
  exactly these trees, and so can the next run after a crash.
\<close>

named_theorems fs_simps \<open>effects of the file system operations\<close>

type_synonym mode = "32 word"

datatype inode =
    RegFile mode int string
  | Directory mode int
  | Symlink string

type_synonym tree = "(string \<times> inode) list"

datatype syscall = SStat | SLstat | SOpen | SRead | SFstat | SClose | SReaddir
  | SCreate | SChmod | SWrite | SMkdir | SSymlink | SRename | SRemove

record fs =
  fs_tree :: tree
  fs_deny :: "syscall \<Rightarrow> string \<Rightarrow> errno option"
  fs_partial :: nat
  fs_umask :: mode
  fs_clock :: int
  fs_past :: "tree list"

fun is_dir :: "inode \<Rightarrow> bool" where
  "is_dir (Directory _ _) = True"
| "is_dir _ = False"

fun mod_time :: "inode \<Rightarrow> int" where
  "mod_time (RegFile _ t _) = t"
| "mod_time (Directory _ t) = t"
| "mod_time (Symlink _) = 0"

section \<open>Looking names up\<close>

definition link_target :: "string \<Rightarrow> string \<Rightarrow> string" where
  "link_target p t = (if rooted t then path_clean t else path_join [path_dir p, t])"

text \<open>Following links: the kernel gives up (\<open>ELOOP\<close>) after 40.\<close>

fun follow :: "nat \<Rightarrow> tree \<Rightarrow> string \<Rightarrow> string option" where
  "follow n t p =
     (case map_of t p of
        Some (Symlink l) \<Rightarrow> (case n of 0 \<Rightarrow> None | Suc m \<Rightarrow> follow m t (link_target p l))
      | _ \<Rightarrow> Some p)"

declare follow.simps [simp del]

definition max_links :: nat where
  "max_links = 40"

text \<open>A name below a regular file is \<open>ENOTDIR\<close>, any other missing name \<open>ENOENT\<close>.\<close>

definition ancestors :: "string \<Rightarrow> string list" where
  "ancestors p = map (\<lambda>i. take i p) (filter (\<lambda>i. p ! i = CHR ''/'') [1..<length p])"

fun is_reg :: "inode option \<Rightarrow> bool" where
  "is_reg (Some (RegFile _ _ _)) = True"
| "is_reg _ = False"

definition missing :: "tree \<Rightarrow> string \<Rightarrow> errno" where
  "missing t p = (if list_ex (\<lambda>a. is_reg (map_of t a)) (ancestors p) then ENOTDIR else ENOENT)"

definition lookup :: "tree \<Rightarrow> string \<Rightarrow> errno + inode" where
  "lookup t p = (case map_of t p of Some n \<Rightarrow> Inr n | None \<Rightarrow> Inl (missing t p))"

definition lookup_follow :: "tree \<Rightarrow> string \<Rightarrow> errno + inode" where
  "lookup_follow t p = (case follow max_links t p of None \<Rightarrow> Inl ELOOP | Some q \<Rightarrow> lookup t q)"

text \<open>What a reader of the name \<open>p\<close> gets: mode and contents.\<close>

definition read_name :: "tree \<Rightarrow> string \<Rightarrow> (mode \<times> string) option" where
  "read_name t p =
     (case lookup_follow t p of Inr (RegFile m _ d) \<Rightarrow> Some (m, d) | _ \<Rightarrow> None)"

section \<open>Read-only calls\<close>

definition os_stat :: "fs \<Rightarrow> string \<Rightarrow> go_error + inode" where
  "os_stat f p =
     (case fs_deny f SStat p of Some e \<Rightarrow> Inl (PathError ''stat'' p e)
      | None \<Rightarrow> (case lookup_follow (fs_tree f) p of
          Inl e \<Rightarrow> Inl (PathError ''stat'' p e) | Inr n \<Rightarrow> Inr n))"

definition os_lstat :: "fs \<Rightarrow> string \<Rightarrow> go_error + inode" where
  "os_lstat f p =
     (case fs_deny f SLstat p of Some e \<Rightarrow> Inl (PathError ''lstat'' p e)
      | None \<Rightarrow> (case lookup (fs_tree f) p of
          Inl e \<Rightarrow> Inl (PathError ''lstat'' p e) | Inr n \<Rightarrow> Inr n))"

text \<open>An open file: the name it was opened under and the inode found.\<close>

type_synonym handle = "string \<times> inode"

definition os_open :: "fs \<Rightarrow> string \<Rightarrow> go_error + handle" where
  "os_open f p =
     (case fs_deny f SOpen p of Some e \<Rightarrow> Inl (PathError ''open'' p e)
      | None \<Rightarrow> (case lookup_follow (fs_tree f) p of
          Inl e \<Rightarrow> Inl (PathError ''open'' p e) | Inr n \<Rightarrow> Inr (p, n)))"

text \<open>The bytes a reader delivers before it ends, and the error it ends with (\<open>None\<close> at the
  end of the file).\<close>

type_synonym reader = "string \<times> go_error option"

fun file_reader :: "fs \<Rightarrow> handle \<Rightarrow> reader" where
  "file_reader f (p, n) =
     (case fs_deny f SRead p of Some e \<Rightarrow> ([], Some (PathError ''read'' p e))
      | None \<Rightarrow> (case n of RegFile _ _ d \<Rightarrow> (d, None)
          | _ \<Rightarrow> ([], Some (PathError ''read'' p EISDIR))))"

fun file_stat :: "fs \<Rightarrow> handle \<Rightarrow> go_error + inode" where
  "file_stat f (p, n) =
     (case fs_deny f SFstat p of Some e \<Rightarrow> Inl (PathError ''stat'' p e) | None \<Rightarrow> Inr n)"

fun file_close :: "fs \<Rightarrow> handle \<Rightarrow> go_error option" where
  "file_close f (p, n) = map_option (PathError ''close'' p) (fs_deny f SClose p)"

definition os_read_file :: "fs \<Rightarrow> string \<Rightarrow> go_error + string" where
  "os_read_file f p =
     (case os_open f p of Inl e \<Rightarrow> Inl e
      | Inr h \<Rightarrow> (case file_reader f h of (d, Some e) \<Rightarrow> Inl e | (d, None) \<Rightarrow> Inr d))"

section \<open>Calls that change the tree\<close>

text \<open>Every change goes through \<open>commit\<close>, which keeps the history.\<close>

definition commit :: "tree \<Rightarrow> fs \<Rightarrow> fs" where
  "commit t f = f\<lparr>fs_tree := t, fs_past := fs_tree f # fs_past f\<rparr>"

definition parent_error :: "tree \<Rightarrow> string \<Rightarrow> errno option" where
  "parent_error t p =
     (case map_of t (path_dir p) of Some (Directory _ _) \<Rightarrow> None | _ \<Rightarrow> Some (missing t p))"

text \<open>The errno with which creating a new name fails, if it does.\<close>

definition create_error :: "syscall \<Rightarrow> fs \<Rightarrow> string \<Rightarrow> errno option" where
  "create_error call f p =
     (case fs_deny f call p of Some e \<Rightarrow> Some e
      | None \<Rightarrow> (case parent_error (fs_tree f) p of Some e \<Rightarrow> Some e
          | None \<Rightarrow> (if map_of (fs_tree f) p = None then None else Some EEXIST)))"

definition put :: "string \<Rightarrow> inode \<Rightarrow> fs \<Rightarrow> fs" where
  "put p n f = commit (AList.update p n (fs_tree f)) f"

definition os_mkdir :: "string \<Rightarrow> mode \<Rightarrow> fs \<Rightarrow> go_error option \<times> fs" where
  "os_mkdir p m f =
     (case create_error SMkdir f p of Some e \<Rightarrow> (Some (PathError ''mkdir'' p e), f)
      | None \<Rightarrow> (None, put p (Directory (m AND NOT (fs_umask f)) (fs_clock f)) f))"

text \<open>\<open>os.OpenFile\<close> with \<open>O_WRONLY|O_CREATE|O_EXCL\<close>: an existing name, even a dangling
  link, is \<open>EEXIST\<close>.\<close>

definition os_create_excl :: "string \<Rightarrow> mode \<Rightarrow> fs \<Rightarrow> go_error option \<times> fs" where
  "os_create_excl p m f =
     (case create_error SCreate f p of Some e \<Rightarrow> (Some (PathError ''open'' p e), f)
      | None \<Rightarrow> (None, put p (RegFile (m AND NOT (fs_umask f)) (fs_clock f) []) f))"

definition file_chmod :: "string \<Rightarrow> mode \<Rightarrow> fs \<Rightarrow> go_error option \<times> fs" where
  "file_chmod p m f =
     (case fs_deny f SChmod p of Some e \<Rightarrow> (Some (PathError ''chmod'' p e), f)
      | None \<Rightarrow> (case map_of (fs_tree f) p of
          Some (RegFile _ t d) \<Rightarrow> (None, put p (RegFile m t d) f) | _ \<Rightarrow> (None, f)))"

text \<open>A failing write may have written the first \<open>fs_partial\<close> bytes.\<close>

definition append_data :: "string \<Rightarrow> string \<Rightarrow> fs \<Rightarrow> fs" where
  "append_data p d f =
     (case map_of (fs_tree f) p of
        Some (RegFile m _ d0) \<Rightarrow> put p (RegFile m (fs_clock f) (d0 @ d)) f | _ \<Rightarrow> f)"

definition file_write :: "string \<Rightarrow> string \<Rightarrow> fs \<Rightarrow> go_error option \<times> fs" where
  "file_write p d f =
     (case fs_deny f SWrite p of
        Some e \<Rightarrow> (Some (PathError ''write'' p e), append_data p (take (fs_partial f) d) f)
      | None \<Rightarrow> (None, append_data p d f))"

definition os_symlink :: "string \<Rightarrow> string \<Rightarrow> fs \<Rightarrow> go_error option \<times> fs" where
  "os_symlink target p f =
     (case create_error SSymlink f p of
        Some e \<Rightarrow> (Some (LinkError ''symlink'' target p e), f)
      | None \<Rightarrow> (None, put p (Symlink target) f))"

text \<open>\<open>os.Rename\<close> replaces a file or a link at the new name in one step; a directory there is
  refused.\<close>

definition os_rename :: "string \<Rightarrow> string \<Rightarrow> fs \<Rightarrow> go_error option \<times> fs" where
  "os_rename a b f =
     (case fs_deny f SRename b of Some e \<Rightarrow> (Some (LinkError ''rename'' a b e), f)
      | None \<Rightarrow>
        (case map_of (fs_tree f) a of
           None \<Rightarrow> (Some (LinkError ''rename'' a b (missing (fs_tree f) a)), f)
         | Some n \<Rightarrow>
           (case parent_error (fs_tree f) b of Some e \<Rightarrow> (Some (LinkError ''rename'' a b e), f)
            | None \<Rightarrow>
              (if a = b then (None, f)
               else (case map_of (fs_tree f) b of
                   Some (Directory _ _) \<Rightarrow> (Some (LinkError ''rename'' a b EEXIST), f)
                 | _ \<Rightarrow> (None, commit (AList.update b n (AList.delete a (fs_tree f))) f))))))"

definition has_children :: "tree \<Rightarrow> string \<Rightarrow> bool" where
  "has_children t p = list_ex (\<lambda>(q, _). q \<noteq> p \<and> path_dir q = p) t"

definition os_remove :: "string \<Rightarrow> fs \<Rightarrow> go_error option \<times> fs" where
  "os_remove p f =
     (case fs_deny f SRemove p of Some e \<Rightarrow> (Some (PathError ''remove'' p e), f)
      | None \<Rightarrow>
        (case map_of (fs_tree f) p of
           None \<Rightarrow> (Some (PathError ''remove'' p (missing (fs_tree f) p)), f)
         | Some n \<Rightarrow>
             (if is_dir n \<and> has_children (fs_tree f) p
              then (Some (PathError ''remove'' p ENOTEMPTY), f)
              else (None, commit (AList.delete p (fs_tree f)) f))))"

section \<open>Facts about the calls\<close>

text \<open>A call keeps the environment: only the tree and its history change.\<close>

definition same_env :: "fs \<Rightarrow> fs \<Rightarrow> bool" where
  "same_env f g \<longleftrightarrow> fs_deny g = fs_deny f \<and> fs_partial g = fs_partial f \<and>
     fs_umask g = fs_umask f \<and> fs_clock g = fs_clock f"

lemma same_env_refl [simp]: "same_env f f"
  by (simp add: same_env_def)

lemma same_env_trans: "same_env f g \<Longrightarrow> same_env g h \<Longrightarrow> same_env f h"
  by (simp add: same_env_def)

lemma commit_simps [simp]:
  "fs_tree (commit t f) = t" "fs_deny (commit t f) = fs_deny f"
  "fs_partial (commit t f) = fs_partial f" "fs_umask (commit t f) = fs_umask f"
  "fs_clock (commit t f) = fs_clock f" "fs_past (commit t f) = fs_tree f # fs_past f"
  by (simp_all add: commit_def)

lemma put_simps [simp]:
  "map_of (fs_tree (put p n f)) = (map_of (fs_tree f))(p \<mapsto> n)" "fs_deny (put p n f) = fs_deny f"
  "fs_partial (put p n f) = fs_partial f" "fs_umask (put p n f) = fs_umask f"
  "fs_clock (put p n f) = fs_clock f" "fs_past (put p n f) = fs_tree f # fs_past f"
  by (simp_all add: put_def update_conv')

lemma same_env_commit [simp]: "same_env f (commit t f)" "same_env f (put p n f)"
  by (simp_all add: same_env_def)

text \<open>The names a call can change.\<close>

lemma os_mkdir_frame: "os_mkdir p m f = (r, g) \<Longrightarrow> q \<noteq> p \<Longrightarrow>
    map_of (fs_tree g) q = map_of (fs_tree f) q \<and> same_env f g"
  by (auto simp: os_mkdir_def split: option.splits)

lemma os_create_excl_frame: "os_create_excl p m f = (r, g) \<Longrightarrow> q \<noteq> p \<Longrightarrow>
    map_of (fs_tree g) q = map_of (fs_tree f) q \<and> same_env f g"
  by (auto simp: os_create_excl_def split: option.splits)

lemma file_chmod_frame: "file_chmod p m f = (r, g) \<Longrightarrow> q \<noteq> p \<Longrightarrow>
    map_of (fs_tree g) q = map_of (fs_tree f) q \<and> same_env f g"
  by (auto simp: file_chmod_def split: option.splits inode.splits)

lemma append_data_frame: "q \<noteq> p \<Longrightarrow>
    map_of (fs_tree (append_data p d f)) q = map_of (fs_tree f) q \<and> same_env f (append_data p d f)"
  by (auto simp: append_data_def split: option.splits inode.splits)

lemma file_write_frame: "file_write p d f = (r, g) \<Longrightarrow> q \<noteq> p \<Longrightarrow>
    map_of (fs_tree g) q = map_of (fs_tree f) q \<and> same_env f g"
  using append_data_frame [of q p] by (auto simp: file_write_def split: option.splits)

lemma os_symlink_frame: "os_symlink t p f = (r, g) \<Longrightarrow> q \<noteq> p \<Longrightarrow>
    map_of (fs_tree g) q = map_of (fs_tree f) q \<and> same_env f g"
  by (auto simp: os_symlink_def split: option.splits)

lemma os_rename_frame: "os_rename a b f = (r, g) \<Longrightarrow> q \<noteq> a \<Longrightarrow> q \<noteq> b \<Longrightarrow>
    map_of (fs_tree g) q = map_of (fs_tree f) q \<and> same_env f g"
  by (auto simp: os_rename_def update_conv' delete_conv' split: option.splits inode.splits if_splits)

lemma os_remove_frame: "os_remove p f = (r, g) \<Longrightarrow> q \<noteq> p \<Longrightarrow>
    map_of (fs_tree g) q = map_of (fs_tree f) q \<and> same_env f g"
  by (auto simp: os_remove_def delete_conv' split: option.splits if_splits)

lemmas fs_frames = os_mkdir_frame os_create_excl_frame file_chmod_frame file_write_frame
  os_symlink_frame os_rename_frame os_remove_frame

text \<open>What reading a name gives depends on the names on its chain of links only.\<close>

lemma follow_direct: "map_of t p = Some n \<Longrightarrow> (\<forall>l. n \<noteq> Symlink l) \<Longrightarrow> follow k t p = Some p"
  by (subst follow.simps) (auto split: inode.splits)

lemma follow_missing: "map_of t p = None \<Longrightarrow> follow k t p = Some p"
  by (subst follow.simps) simp

lemma follow_link: "map_of t p = Some (Symlink l) \<Longrightarrow> follow (Suc k) t p = follow k t (link_target p l)"
  by (subst follow.simps) simp

lemma read_name_reg: "map_of t p = Some (RegFile m s d) \<Longrightarrow> read_name t p = Some (m, d)"
  by (simp add: read_name_def lookup_follow_def lookup_def follow_direct)

lemma read_name_link:
  assumes "map_of t p = Some (Symlink l)" and "map_of t (link_target p l) = Some (RegFile m s d)"
  shows "read_name t p = Some (m, d)"
proof -
  have "follow max_links t p = Some (link_target p l)"
    using assms by (simp add: max_links_def numeral_eq_Suc follow_link follow_direct)
  then show ?thesis using assms by (simp add: read_name_def lookup_follow_def lookup_def)
qed

lemma map_of_delete: "map_of (AList.delete p t) q = (if q = p then None else map_of t q)"
  by (simp add: delete_conv')

lemma map_of_update: "map_of (AList.update p n t) q = (if q = p then Some n else map_of t q)"
  by (simp add: update_conv')

end
