(* ===== verification/Lists.thy ===== *)
theory Lists
  imports GoFs "HOL-Library.Multiset"
begin

text \<open>
  \<open>internal/list/list.go\<close>: the \<open>List\<close> interface, its two implementations
  \<open>OrderedStrings\<close> and \<open>UniqStrings\<close>, and the reader of item files (authorization files and
  \<open>-cnfile\<close>), together with the line scanner of package \<open>bufio\<close> it uses.  The interface is
  the locale \<open>item_list\<close>; what \<open>AddItemsFromReader\<close> adds is proved once inside it and holds for
  both implementations by interpretation.
\<close>

section \<open>The line scanner\<close>

text \<open>
  \<open>bufio.Scanner\<close> with \<open>ScanLines\<close>: lines end at a newline, one carriage return before it is
  dropped, a last line needs no newline.  The buffer holds 64 KiB: a line that fills it ends the
  scan with \<open>ErrTooLong\<close>.  What was read before a read error is still delivered.
\<close>

definition max_token :: nat where
  "max_token = 65536"

definition raw_lines :: "string \<Rightarrow> string list" where
  "raw_lines d = (let ps = split_on nl d in if last ps = [] then butlast ps else ps)"

definition drop_cr :: "string \<Rightarrow> string" where
  "drop_cr l = (if l \<noteq> [] \<and> last l = cr then butlast l else l)"

fun scan_tokens :: "string list \<Rightarrow> string list \<times> bool" where
  "scan_tokens [] = ([], False)"
| "scan_tokens (l # ls) =
     (if max_token \<le> length l then ([], True)
      else (case scan_tokens ls of (ts, long) \<Rightarrow> (drop_cr l # ts, long)))"

definition scan :: "reader \<Rightarrow> string list \<times> go_error option" where
  "scan r = (case scan_tokens (raw_lines (fst r)) of
     (ts, long) \<Rightarrow> (ts, if long then Some ErrTooLong else snd r))"

section \<open>Reading items\<close>

definition blank :: "char \<Rightarrow> bool" where
  "blank c \<longleftrightarrow> c = CHR '' '' \<or> c = tab \<or> c = cr"

text \<open>The item on a line: the text before the first \<open>#\<close>, trimmed.\<close>

definition item_of :: "string \<Rightarrow> string" where
  "item_of text = trim blank (fst (cut CHR ''#'' text))"

fun add_lines :: "('l \<Rightarrow> string list \<Rightarrow> 'l) \<Rightarrow> 'l \<Rightarrow> string list \<Rightarrow> 'l" where
  "add_lines add items [] = items"
| "add_lines add items (text # ts) =
     (let l = item_of text in
      if l = [] then add_lines add items ts else add_lines add (add items [l]) ts)"

definition AddItemsFromReader ::
    "('l \<Rightarrow> string list \<Rightarrow> 'l) \<Rightarrow> 'l \<Rightarrow> reader \<Rightarrow> 'l \<times> go_error option" where
  "AddItemsFromReader add items r =
     (case scan r of (ts, err) \<Rightarrow> (add_lines add items ts, err))"

definition AddItemsFromFile ::
    "('l \<Rightarrow> string list \<Rightarrow> 'l) \<Rightarrow> fs \<Rightarrow> 'l \<Rightarrow> string \<Rightarrow> 'l \<times> go_error option" where
  "AddItemsFromFile add f items filename =
     (if filename = [] then (items, None)
      else (case os_open f filename of Inl err \<Rightarrow> (items, Some err)
        | Inr h \<Rightarrow>
          (case AddItemsFromReader add items (file_reader f h) of
             (items', Some err) \<Rightarrow> (items', Some err)
           | (items', None) \<Rightarrow> (items', file_close f h))))"

section \<open>OrderedStrings\<close>

type_synonym ordered_strings = "string list"

definition ordered_add :: "ordered_strings \<Rightarrow> string list \<Rightarrow> ordered_strings" where
  "ordered_add l v = l @ v"

definition ordered_items :: "ordered_strings \<Rightarrow> string list" where
  "ordered_items l = sort l"

section \<open>UniqStrings\<close>

text \<open>Go's \<open>map[string]struct{}\<close> is the set of its keys.  The order in which \<open>range\<close> visits
  the keys is not determined: it is any list that enumerates the set.\<close>

type_synonym uniq_strings = "string set"

definition uniq_add :: "uniq_strings \<Rightarrow> string list \<Rightarrow> uniq_strings" where
  "uniq_add l v = fold (\<lambda>x s. insert x s) v l"

definition range_order :: "uniq_strings \<Rightarrow> string list \<Rightarrow> bool" where
  "range_order l xs \<longleftrightarrow> distinct xs \<and> set xs = l"

fun append_keys :: "string list \<Rightarrow> string list \<Rightarrow> string list" where
  "append_keys items [] = items"
| "append_keys items (k # ks) = append_keys (items @ [k]) ks"

text \<open>\<open>Items\<close> for the visiting order \<open>ks\<close>.\<close>

definition uniq_items :: "string list \<Rightarrow> string list" where
  "uniq_items ks = append_keys [] ks"

definition uniq_copy :: "string list \<Rightarrow> uniq_strings" where
  "uniq_copy ks = uniq_add {} (uniq_items ks)"

text \<open>\<open>fmt.Sprint\<close> of a string slice.\<close>

definition uniq_string :: "string list \<Rightarrow> string" where
  "uniq_string ks = ''['' @ join '' '' (uniq_items ks) @ '']''"

section \<open>The List interface\<close>

locale item_list =
  fixes add :: "'l \<Rightarrow> string list \<Rightarrow> 'l"
    and elems :: "'l \<Rightarrow> string set"
    and yields :: "'l \<Rightarrow> string list \<Rightarrow> bool"
    and invar :: "'l \<Rightarrow> bool"
  assumes elems_add: "invar l \<Longrightarrow> elems (add l vs) = elems l \<union> set vs"
    and invar_add: "invar l \<Longrightarrow> invar (add l vs)"
    and yields_elems: "invar l \<Longrightarrow> yields l xs \<Longrightarrow> set xs = elems l"
    and yields_some: "invar l \<Longrightarrow> \<exists>xs. yields l xs"
begin

lemma add_lines_elems:
  "invar l \<Longrightarrow> elems (add_lines add l ts) = elems l \<union> {x. x \<noteq> [] \<and> x \<in> item_of ` set ts}"
  by (induction ts arbitrary: l) (auto simp: Let_def elems_add invar_add)

lemma add_lines_invar: "invar l \<Longrightarrow> invar (add_lines add l ts)"
  by (induction ts arbitrary: l) (auto simp: Let_def invar_add)

lemma reader_elems:
  "invar l \<Longrightarrow> AddItemsFromReader add l r = (l', err) \<Longrightarrow>
     elems l' = elems l \<union> {x. x \<noteq> [] \<and> x \<in> item_of ` set (fst (scan r))} \<and> err = snd (scan r) \<and> invar l'"
  by (auto simp: AddItemsFromReader_def add_lines_elems add_lines_invar split: prod.splits)

lemma add_again: "invar l \<Longrightarrow> elems (add (add l vs) vs) = elems (add l vs)"
  by (simp add: elems_add invar_add)

lemma reader_items:
  assumes "invar l" and "AddItemsFromReader add l r = (l', err)" and "yields l' xs"
  shows "set xs = elems l \<union> {x. x \<noteq> [] \<and> x \<in> item_of ` set (fst (scan r))}"
  using reader_elems [OF assms(1,2)] yields_elems [OF _ assms(3)] by simp

end

lemma uniq_add_union: "uniq_add l v = l \<union> set v"
  by (induction v arbitrary: l) (auto simp: uniq_add_def)

lemma append_keys_app: "append_keys items ks = items @ ks"
  by (induction ks arbitrary: items) auto

lemma uniq_items_eq: "uniq_items ks = ks"
  by (simp add: uniq_items_def append_keys_app)

lemma uniq_copy_eq: "range_order l ks \<Longrightarrow> uniq_copy ks = l"
  by (simp add: uniq_copy_def uniq_add_union uniq_items_eq range_order_def)

interpretation ordered: item_list ordered_add set "\<lambda>l xs. xs = ordered_items l" "\<lambda>_. True"
  by unfold_locales (auto simp: ordered_add_def ordered_items_def)

lemma range_order_exists: "finite l \<Longrightarrow> \<exists>xs. range_order l xs"
  unfolding range_order_def using finite_distinct_list by blast

interpretation uniq: item_list uniq_add "\<lambda>l. l" range_order finite
  by unfold_locales (simp_all add: uniq_add_union range_order_exists, simp_all add: range_order_def)

section \<open>Facts about the file format\<close>

lemma item_of_chars: "set (item_of t) \<subseteq> set t - {CHR ''#''}"
proof -
  have "set (fst (cut CHR ''#'' t)) \<subseteq> set t - {CHR ''#''}"
    by (auto simp: cut_def dest: set_takeWhileD)
  then show ?thesis using trim_set unfolding item_of_def by blast
qed

lemma item_of_ends: "item_of t \<noteq> [] \<Longrightarrow> \<not> blank (hd (item_of t)) \<and> \<not> blank (last (item_of t))"
  unfolding item_of_def using trim_ends by blast

text \<open>An entry is text that a line can carry unchanged.\<close>

definition entry :: "string \<Rightarrow> bool" where
  "entry e \<longleftrightarrow> e \<noteq> [] \<and> \<not> blank (hd e) \<and> \<not> blank (last e) \<and> CHR ''#'' \<notin> set e \<and> nl \<notin> set e
     \<and> length e < max_token - 1"

lemma trim_entry: "\<not> blank (hd e) \<Longrightarrow> \<not> blank (last e) \<Longrightarrow> trim blank e = e"
  by (simp add: trim_def trim_left_id trim_right_id)

lemma item_of_entry: "entry e \<Longrightarrow> item_of e = e"
  by (simp add: entry_def item_of_def cut_def trim_entry)

lemma trim_blank_cr: "trim blank (drop_cr l) = trim blank l"
proof (cases "l \<noteq> [] \<and> last l = cr")
  case True
  then obtain k where k: "l = k @ [cr]" by (metis append_butlast_last_id)
  have "blank cr" by (simp add: blank_def)
  then have "trim_right blank (dropWhile blank (k @ [cr])) = trim_right blank (dropWhile blank k)"
    by (cases "\<forall>x\<in>set k. blank x") (auto simp: trim_right_def dropWhile_append dest: set_dropWhileD)
  then show ?thesis by (simp add: k drop_cr_def trim_def trim_left_def)
next
  case False
  then show ?thesis by (auto simp: drop_cr_def)
qed

lemma item_of_cr: "item_of (t @ [cr]) = item_of t"
proof (cases "CHR ''#'' \<in> set t")
  case True
  then show ?thesis by (auto simp: item_of_def cut_def takeWhile_append)
next
  case False
  then have "item_of (t @ [cr]) = trim blank (t @ [cr])" by (simp add: item_of_def cut_def)
  also have "\<dots> = trim blank t" using trim_blank_cr [of "t @ [cr]"] by (simp add: drop_cr_def)
  finally show ?thesis using False by (simp add: item_of_def cut_def)
qed

text \<open>Lines written one by one, each with its terminator, are the lines that are read.\<close>

definition unlines :: "string \<Rightarrow> string list \<Rightarrow> string" where
  "unlines term ls = concat (map (\<lambda>l. l @ term) ls)"

lemma split_unlines:
  "\<forall>l\<in>set ls. nl \<notin> set l \<Longrightarrow> split_on nl (unlines [nl] ls) = ls @ [[]]"
  by (induction ls) (auto simp: unlines_def split_on_append split_on_id)

lemma raw_lines_unlines: "\<forall>l\<in>set ls. nl \<notin> set l \<Longrightarrow> raw_lines (unlines [nl] ls) = ls"
  by (simp add: raw_lines_def split_unlines)

lemma scan_tokens_short:
  "\<forall>l\<in>set ls. length l < max_token \<Longrightarrow> scan_tokens ls = (map drop_cr ls, False)"
  by (induction ls) auto

lemma scan_unlines:
  assumes "\<forall>l\<in>set ls. nl \<notin> set l \<and> length l < max_token"
  shows "scan (unlines [nl] ls, err) = (map drop_cr ls, err)"
  using assms by (simp add: scan_def raw_lines_unlines scan_tokens_short)

lemma item_of_drop_cr: "item_of (drop_cr l) = item_of l"
proof (cases "l \<noteq> [] \<and> last l = cr")
  case True
  then obtain k where k: "l = k @ [cr]" by (metis append_butlast_last_id)
  then show ?thesis using item_of_cr [of k] by (simp add: drop_cr_def)
next
  case False
  then show ?thesis by (auto simp: drop_cr_def)
qed

lemma unlines_crlf: "unlines [cr, nl] ls = unlines [nl] (map (\<lambda>l. l @ [cr]) ls)"
  by (simp add: unlines_def comp_def)

text \<open>The set read from an empty start, in the form the properties use.\<close>

lemma read_set: "AddItemsFromReader uniq_add {} r =
    ({x. x \<noteq> [] \<and> x \<in> item_of ` set (fst (scan r))}, snd (scan r))"
  using uniq.reader_elems [of "{}" r] by (cases "AddItemsFromReader uniq_add {} r") auto

section \<open>Properties\<close>

text \<open>C35. Reading an authorization file or a \<open>-cnfile\<close> adds exactly the non-empty items of its
  lines to the set and reports the scanner's error: no line is lost before an error, none is
  added after one, and what the set held before stays.\<close>

theorem AddItemsFromReader_exact:
  assumes "finite items"
  shows "AddItemsFromReader uniq_add items r =
    (items \<union> {x. x \<noteq> [] \<and> x \<in> item_of ` set (fst (scan r))}, snd (scan r))"
proof -
  obtain l' err where a: "AddItemsFromReader uniq_add items r = (l', err)" by force
  then show ?thesis using uniq.reader_elems [OF assms a] by simp
qed

theorem AddItemsFromReader_exact_witness:
  "finite ({} :: string set) \<and>
   AddItemsFromReader uniq_add {} (''a.org # x'' @ [nl] @ ''# y'' @ [nl], None) = ({''a.org''}, None)"
proof -
  have s: "scan (''a.org # x'' @ [nl] @ ''# y'' @ [nl], None) = ([''a.org # x'', ''# y''], None)"
    by (simp add: scan_def raw_lines_def max_token_def drop_cr_def)
  have i: "item_of ''a.org # x'' = ''a.org''" "item_of ''# y'' = []"
    by (simp_all add: item_of_def cut_def trim_def trim_left_def trim_right_def blank_def)
  have "{x. x \<noteq> [] \<and> x \<in> item_of ` set [''a.org # x'', ''# y'']} = {''a.org''}" using i by auto
  then show ?thesis using AddItemsFromReader_exact [OF finite.emptyI] s by simp
qed

text \<open>No item read from a file is empty, contains a comment sign, or begins or ends with a
  space, a tab or a carriage return.\<close>

theorem items_are_trimmed:
  assumes "AddItemsFromReader uniq_add {} r = (items, err)" and "x \<in> items"
  shows "x \<noteq> [] \<and> CHR ''#'' \<notin> set x \<and> \<not> blank (hd x) \<and> \<not> blank (last x)"
proof -
  obtain t where "x = item_of t" and "x \<noteq> []"
    using uniq.reader_elems [OF finite.emptyI assms(1)] assms(2) by auto
  then show ?thesis using item_of_ends item_of_chars by blast
qed

theorem items_are_trimmed_witness:
  "AddItemsFromReader uniq_add {} (''  a b '', None) = ({''a b''}, None) \<and>
   (''a b'' \<noteq> [] \<and> CHR ''#'' \<notin> set ''a b'' \<and> \<not> blank (hd ''a b'') \<and> \<not> blank (last ''a b''))"
proof -
  have a: "AddItemsFromReader uniq_add {} (''  a b '', None) = ({''a b''}, None)"
    by (simp add: AddItemsFromReader_def scan_def raw_lines_def max_token_def drop_cr_def
        item_of_def cut_def trim_def trim_left_def trim_right_def blank_def uniq_add_def)
  show ?thesis using a items_are_trimmed [OF a, of "''a b''"] by simp
qed

text \<open>A file written with CRLF line ends is read as the same file written with LF line
  ends.\<close>

theorem crlf_files_read_alike:
  assumes "\<forall>l\<in>set ls. nl \<notin> set l \<and> length l < max_token - 1"
  shows "AddItemsFromReader uniq_add {} (unlines [cr, nl] ls, err) =
         AddItemsFromReader uniq_add {} (unlines [nl] ls, err)"
proof -
  let ?crs = "map (\<lambda>l. l @ [cr]) ls"
  have "scan (unlines [nl] ls, err) = (map drop_cr ls, err)" using assms by (intro scan_unlines) auto
  moreover have "scan (unlines [nl] ?crs, err) = (map drop_cr ?crs, err)"
    using assms by (intro scan_unlines) auto
  moreover have "item_of ` set (map drop_cr ?crs) = item_of ` set (map drop_cr ls)"
    by (simp add: image_image item_of_drop_cr item_of_cr)
  ultimately show ?thesis
    by (simp add: read_set unlines_crlf)
qed

theorem crlf_files_read_alike_witness:
  "AddItemsFromReader uniq_add {} (unlines [cr, nl] [''a.org'', ''b.org # x''], None) =
     AddItemsFromReader uniq_add {} (unlines [nl] [''a.org'', ''b.org # x''], None)"
proof -
  have h: "\<forall>l\<in>set [''a.org'', ''b.org # x'']. nl \<notin> set l \<and> length l < max_token - 1"
    by (simp add: max_token_def)
  show ?thesis by (rule crlf_files_read_alike [OF h])
qed

text \<open>Writing a list of entries, one per line, and reading the file back gives exactly these
  entries: the authorization file format round-trips every domain name.\<close>

theorem items_roundtrip:
  assumes "list_all entry es"
  shows "AddItemsFromReader uniq_add {} (unlines [nl] es, None) = (set es, None)"
proof -
  have e: "entry x" if "x \<in> set es" for x using assms that by (simp add: list_all_iff)
  then have "\<forall>l\<in>set es. nl \<notin> set l \<and> length l < max_token"
    by (force simp: entry_def)
  then have "scan (unlines [nl] es, None) = (map drop_cr es, None)" by (rule scan_unlines)
  moreover have "item_of ` set (map drop_cr es) = set es"
    using e by (force simp: image_image item_of_drop_cr item_of_entry)
  moreover have "[] \<notin> set es" using e by (auto simp: entry_def)
  ultimately show ?thesis by (auto simp: read_set)
qed

theorem items_roundtrip_witness:
  "list_all entry [''a.org'', ''*.b.org''] \<and>
   AddItemsFromReader uniq_add {} (unlines [nl] [''a.org'', ''*.b.org''], None)
     = ({''a.org'', ''*.b.org''}, None)"
proof -
  have h: "list_all entry [''a.org'', ''*.b.org'']" by (simp add: entry_def blank_def max_token_def)
  show ?thesis using h items_roundtrip [OF h] by simp
qed

text \<open>\<open>OrderedStrings.Items\<close> returns the added strings in ascending byte order, each as
  often as it was added, and the set kept by \<open>UniqStrings\<close> does not depend on the order or
  the number of additions.\<close>

theorem list_implementations:
  "sorted (ordered_items (ordered_add l v)) \<and>
   mset (ordered_items (ordered_add l v)) = mset l + mset v \<and>
   uniq_add (uniq_add s v) w = uniq_add (uniq_add s w) v \<and>
   uniq_add (uniq_add s v) v = uniq_add s v"
  by (auto simp: ordered_items_def ordered_add_def uniq_add_union)

text \<open>The file name \<open>-\<close> is opened like any other name: when the working directory has no
  file called \<open>-\<close>, reading the list fails.  The documentation of \<open>-cnfile\<close> promises
  standard input for it.\<close>

theorem cnfile_dash_is_a_file_name:
  assumes "fs_deny f SOpen ''-'' = None" and "map_of (fs_tree f) ''-'' = None"
  shows "AddItemsFromFile uniq_add f items ''-'' = (items, Some (PathError ''open'' ''-'' ENOENT))"
  using assms
  by (simp add: AddItemsFromFile_def os_open_def lookup_follow_def follow_missing lookup_def
      missing_def ancestors_def)

theorem cnfile_dash_is_a_file_name_witness:
  "AddItemsFromFile uniq_add
     \<lparr>fs_tree = [(''.'', Directory 511 0)], fs_deny = (\<lambda>_ _. None), fs_partial = 0, fs_umask = 63,
      fs_clock = 0, fs_past = []\<rparr> {} ''-'' = ({}, Some (PathError ''open'' ''-'' ENOENT))"
  by (rule cnfile_dash_is_a_file_name) simp_all

end
