(* ===== verification/ManPages.thy ===== *)
theory ManPages
  imports Prelude "HOL-Library.AList"
begin

text \<open>
  \<open>man/man.go\<close> and \<open>man/terminal.go\<close>: the registry of manual pages, the resolution of the
  arguments of the \<open>man\<close> subcommand and the display of a page.  The embedded file system and
  gzip are parameters (the record \<open>embed\<close>), as are the seams of
  \<open>Displayer\<close>.  Go indexes \<open>list[0]\<close> for the default page of a section; that the list is never
  empty there is an invariant proved below, not an assumption of the model.
\<close>

section \<open>The subcommand word\<close>

definition Command :: string where
  "Command = ''man''"

definition IsCommand :: "string list \<Rightarrow> bool" where
  "IsCommand argv = (1 < length argv \<and> argv ! 1 = Command)"

section \<open>Pages and registries\<close>

record page =
  pg_name :: string
  pg_section :: string
  pg_description :: string
  pg_file :: string

definition clientPage :: page where
  "clientPage = \<lparr>pg_name = ''cert-proxy-client'', pg_section = ''8'',
     pg_description = ''cert-proxy-client(8) command manual'', pg_file = ''cert-proxy-client.8.gz''\<rparr>"

definition serverPage :: page where
  "serverPage = \<lparr>pg_name = ''cert-proxy-server'', pg_section = ''8'',
     pg_description = ''cert-proxy-server(8) command manual'', pg_file = ''cert-proxy-server.8.gz''\<rparr>"

definition clientsPage :: page where
  "clientsPage = \<lparr>pg_name = ''cert-proxy-clients'', pg_section = ''5'',
     pg_description = ''cert-proxy-clients(5) authorization file format'',
     pg_file = ''cert-proxy-clients.5.gz''\<rparr>"

definition protocolPage :: page where
  "protocolPage = \<lparr>pg_name = ''cert-proxy'', pg_section = ''7'',
     pg_description = ''cert-proxy(7) protocol and layout overview'', pg_file = ''cert-proxy.7.gz''\<rparr>"

record registry =
  rg_default :: string
  rg_sections :: "(string \<times> page list) list"

definition rg_lookup :: "registry \<Rightarrow> string \<Rightarrow> page list" where
  "rg_lookup r s = (case map_of (rg_sections r) s of None \<Rightarrow> [] | Some ps \<Rightarrow> ps)"

definition register :: "page \<Rightarrow> registry \<Rightarrow> registry" where
  "register p r =
     r\<lparr>rg_sections := AList.update (pg_section p) (rg_lookup r (pg_section p) @ [p]) (rg_sections r)\<rparr>"

definition newRegistry :: "string \<Rightarrow> page list \<Rightarrow> registry" where
  "newRegistry defaultSection ps = fold register ps \<lparr>rg_default = defaultSection, rg_sections = []\<rparr>"

definition ClientRegistry :: registry where
  "ClientRegistry = newRegistry ''8'' [clientPage, serverPage, clientsPage, protocolPage]"

definition ServerRegistry :: registry where
  "ServerRegistry = newRegistry ''8'' [serverPage, clientPage, clientsPage, protocolPage]"

definition Sections :: "registry \<Rightarrow> string list" where
  "Sections r = sort (map fst (rg_sections r))"

definition Pages :: "registry \<Rightarrow> string \<Rightarrow> page list" where
  "Pages r s = rg_lookup r s"

section \<open>Resolution\<close>

definition isSection :: "string \<Rightarrow> bool" where
  "isSection s = (length s = 1 \<and> 49 \<le> code (hd s) \<and> code (hd s) \<le> 57)"

definition page_label :: "page \<Rightarrow> string" where
  "page_label p = pg_name p @ ''('' @ pg_section p @ '')''"

definition sectionNames :: "page list \<Rightarrow> string list" where
  "sectionNames ps = map page_label ps"

definition names :: "registry \<Rightarrow> string list" where
  "names r = concat (map (\<lambda>s. sectionNames (rg_lookup r s)) (Sections r))"

fun find_page :: "string \<Rightarrow> page list \<Rightarrow> page option" where
  "find_page name [] = None"
| "find_page name (p # ps) = (if pg_name p = name then Some p else find_page name ps)"

fun byName_loop :: "registry \<Rightarrow> string \<Rightarrow> string list \<Rightarrow> page option" where
  "byName_loop r name [] = None"
| "byName_loop r name (s # ss) =
     (case find_page name (rg_lookup r s) of Some p \<Rightarrow> Some p | None \<Rightarrow> byName_loop r name ss)"

definition byName :: "registry \<Rightarrow> string \<Rightarrow> go_error + page" where
  "byName r name =
     (case byName_loop r name (Sections r) of Some p \<Rightarrow> Inr p
      | None \<Rightarrow> Inl (Msg (''man: unknown section or page '' @ quote name @ ''; available pages: ''
          @ join '', '' (names r))))"

definition page_in :: "registry \<Rightarrow> string \<Rightarrow> string \<Rightarrow> (go_error + page) outcome" where
  "page_in r section name =
     (case map_of (rg_sections r) section of
        None \<Rightarrow> Returned (Inl (Msg (''man: unknown section '' @ quote section @
          ''; available sections: '' @ join '', '' (Sections r))))
      | Some ps \<Rightarrow>
          (if name = [] then
             (case ps of [] \<Rightarrow> Panicked ''index out of range'' | p # _ \<Rightarrow> Returned (Inr p))
           else (case find_page name ps of Some p \<Rightarrow> Returned (Inr p)
             | None \<Rightarrow> Returned (Inl (Msg (''man: unknown page '' @ quote name @ '' in section ''
                 @ section @ ''; available: '' @ join '', '' (sectionNames ps)))))))"

definition Resolve :: "registry \<Rightarrow> string list \<Rightarrow> (go_error + page) outcome" where
  "Resolve r args =
     (case args of
        [] \<Rightarrow> page_in r (rg_default r) []
      | [a] \<Rightarrow> (if isSection a then page_in r a [] else Returned (byName r a))
      | [a, b] \<Rightarrow> page_in r a b
      | _ \<Rightarrow> Returned (Inl (Msg ''man: too many arguments; usage: man [<section>] [<page>]'')))"

section \<open>Display\<close>

text \<open>\<open>Roff\<close>: the embedded file, gunzipped; every failure is wrapped with the page's label.\<close>

record ('b) embed =
  em_read :: "string \<Rightarrow> go_error + string"
  em_gunzip_header :: "string \<Rightarrow> go_error + 'b"
  em_gunzip_read :: "'b \<Rightarrow> go_error + string"
  em_gunzip_close :: "'b \<Rightarrow> go_error option"

definition roff_error :: "page \<Rightarrow> go_error \<Rightarrow> go_error" where
  "roff_error p e = Wrapf (''man: '' @ page_label p @ '': '') e []"

definition Roff :: "'b embed \<Rightarrow> page \<Rightarrow> go_error + string" where
  "Roff em p =
     (case em_read em (pg_file p) of Inl e \<Rightarrow> Inl (roff_error p e)
      | Inr compressed \<Rightarrow>
        (case em_gunzip_header em compressed of Inl e \<Rightarrow> Inl (roff_error p e)
         | Inr zr \<Rightarrow>
           (case em_gunzip_read em zr of Inl e \<Rightarrow> Inl (roff_error p e)
            | Inr plain \<Rightarrow>
              (case em_gunzip_close em zr of Some e \<Rightarrow> Inl (roff_error p e) | None \<Rightarrow> Inr plain))))"

text \<open>The seams; \<open>dp_write\<close> is the error of writing to \<open>Out\<close>.\<close>

record displayer =
  dp_write :: "string \<Rightarrow> go_error option"
  dp_is_terminal :: bool
  dp_look_path :: "string \<Rightarrow> go_error + string"
  dp_run :: "string \<Rightarrow> string \<Rightarrow> go_error option"

text \<open>What a call shows: bytes on \<open>Out\<close>, bytes on \<open>Err\<close>, pages handed to a viewer.\<close>

datatype shown = ToOut string | ToErr string | ToViewer string string

definition Display :: "'b embed \<Rightarrow> displayer \<Rightarrow> page \<Rightarrow> go_error option \<times> shown list" where
  "Display em d p =
     (case Roff em p of Inl err \<Rightarrow> (Some err, [])
      | Inr roff \<Rightarrow>
          (if \<not> dp_is_terminal d then (dp_write d roff, [ToOut roff])
           else (case dp_look_path d ''man'' of
               Inl err \<Rightarrow> (dp_write d roff,
                 [ToErr (''man: man(1) not found, writing raw roff'' @ [nl]), ToOut roff])
             | Inr viewer \<Rightarrow> (dp_run d viewer roff, [ToViewer viewer roff]))))"

definition man_Run :: "'b embed \<Rightarrow> displayer \<Rightarrow> registry \<Rightarrow> string list \<Rightarrow> (go_error option \<times> shown list) outcome" where
  "man_Run em d r args =
     (case Resolve r args of Panicked m \<Rightarrow> Panicked m
      | Returned (Inl err) \<Rightarrow> Returned (Some err, [])
      | Returned (Inr p) \<Rightarrow> Returned (Display em d p))"

text \<open>\<open>stdoutIsTerminal\<close>: the mode bits of standard output, or the error of \<open>Stat\<close>.\<close>

definition stdoutIsTerminal :: "(go_error + bool) \<Rightarrow> bool" where
  "stdoutIsTerminal char_device = (case char_device of Inl _ \<Rightarrow> False | Inr b \<Rightarrow> b)"

section \<open>The registry invariant\<close>

text \<open>A registry holds, per section, the registered pages of that section in order, and no
  section without a page.\<close>

definition holds :: "registry \<Rightarrow> page list \<Rightarrow> bool" where
  "holds r ps \<longleftrightarrow> distinct (map fst (rg_sections r)) \<and>
     (\<forall>s. map_of (rg_sections r) s =
        (let qs = filter (\<lambda>p. pg_section p = s) ps in if qs = [] then None else Some qs))"

lemma holds_lookup: "holds r ps \<Longrightarrow> rg_lookup r s = filter (\<lambda>p. pg_section p = s) ps"
  by (simp add: holds_def rg_lookup_def Let_def)

lemma holds_register: "holds r ps \<Longrightarrow> holds (register p r) (ps @ [p])"
proof -
  assume h: "holds r ps"
  have "distinct (map fst (rg_sections (register p r)))"
    using h unfolding register_def holds_def by (simp add: distinct_update)
  moreover have "map_of (rg_sections (register p r)) s =
      (let qs = filter (\<lambda>q. pg_section q = s) (ps @ [p]) in if qs = [] then None else Some qs)" for s
    using h holds_lookup [OF h] by (auto simp: register_def update_conv' Let_def holds_def)
  ultimately show ?thesis unfolding holds_def by blast
qed

lemma holds_fold: "holds r qs \<Longrightarrow> holds (fold register ps r) (qs @ ps)"
proof (induction ps arbitrary: r qs)
  case Nil
  then show ?case by simp
next
  case (Cons p ps)
  then show ?case using Cons.IH [OF holds_register [OF Cons.prems]] by simp
qed

lemma holds_new: "holds (newRegistry d ps) ps"
  using holds_fold [of "\<lparr>rg_default = d, rg_sections = []\<rparr>" "[]" ps]
  by (simp add: newRegistry_def holds_def)

lemma default_fold: "rg_default (fold register ps r) = rg_default r"
  by (induction ps arbitrary: r) (simp_all add: register_def)

lemma default_new: "rg_default (newRegistry d ps) = d"
  by (simp add: newRegistry_def default_fold)

lemma set_Sections: "set (Sections r) = dom (map_of (rg_sections r))"
  by (simp add: Sections_def dom_map_of_conv_image_fst)

lemma Sections_new: "set (Sections (newRegistry d ps)) = pg_section ` set ps"
  unfolding set_Sections using holds_new [of d ps]
  by (auto simp: holds_def dom_def Let_def filter_empty_conv)

lemma sorted_Sections: "sorted (Sections r)"
  by (simp add: Sections_def)

lemma find_page_None: "find_page name ps = None \<longleftrightarrow> (\<forall>p\<in>set ps. pg_name p \<noteq> name)"
  by (induction ps) auto

lemma find_page_Some: "find_page name ps = Some p \<Longrightarrow> p \<in> set ps \<and> pg_name p = name"
  by (induction ps) (auto split: if_splits)

lemma find_page_find: "find_page name ps = find (\<lambda>p. pg_name p = name) ps"
  by (induction ps) auto

text \<open>The page found by name lies in a registered section, and every section that comes
  earlier holds no page of that name.\<close>

lemma byName_loop_Some:
  "byName_loop r name ss = Some p \<Longrightarrow> sorted ss \<Longrightarrow>
     \<exists>s\<in>set ss. find_page name (rg_lookup r s) = Some p \<and>
       (\<forall>t\<in>set ss. t < s \<longrightarrow> find_page name (rg_lookup r t) = None)"
proof (induction ss)
  case Nil
  then show ?case by simp
next
  case (Cons s ss)
  show ?case
  proof (cases "find_page name (rg_lookup r s)")
    case None
    then obtain t where t: "t \<in> set ss" "find_page name (rg_lookup r t) = Some p"
      "\<forall>u\<in>set ss. u < t \<longrightarrow> find_page name (rg_lookup r u) = None"
      using Cons by auto
    then show ?thesis using None by auto
  next
    case (Some q)
    then show ?thesis using Cons.prems by (auto simp: leD)
  qed
qed

lemma byName_loop_None:
  "byName_loop r name ss = None \<longleftrightarrow> (\<forall>s\<in>set ss. find_page name (rg_lookup r s) = None)"
  by (induction ss) (auto split: option.splits)

text \<open>No section of a registry is empty, so taking its first page is safe.\<close>

lemma page_in_no_panic: "page_in (newRegistry d ps) section name \<noteq> Panicked m"
  using holds_new [of d ps]
  by (auto simp: page_in_def holds_def Let_def split: option.splits list.splits if_splits)

lemma man_Run_no_panic: "man_Run em dp (newRegistry d ps) args \<noteq> Panicked m"
  by (auto simp: man_Run_def Resolve_def page_in_no_panic split: outcome.splits sum.splits list.splits)

section \<open>Properties\<close>


text \<open>A page looked up by its bare name comes from the lowest section that has such a
  page, and the lookup fails exactly when no registered page has the name.\<close>

theorem byName_lowest_section:
  "case byName (newRegistry d ps) name of
     Inr p \<Rightarrow> p \<in> set ps \<and> pg_name p = name \<and>
       (\<forall>q\<in>set ps. pg_name q = name \<longrightarrow> pg_section p \<le> pg_section q)
   | Inl e \<Rightarrow> name \<notin> pg_name ` set ps"
proof -
  let ?r = "newRegistry d ps"
  have look: "rg_lookup ?r s = filter (\<lambda>p. pg_section p = s) ps" for s
    by (rule holds_lookup [OF holds_new])
  show ?thesis
  proof (cases "byName_loop ?r name (Sections ?r)")
    case None
    then have "\<forall>s\<in>pg_section ` set ps. find_page name (rg_lookup ?r s) = None"
      by (simp add: byName_loop_None Sections_new)
    then show ?thesis using None by (auto simp: byName_def look find_page_None)
  next
    case (Some p)
    then obtain s where s: "find_page name (rg_lookup ?r s) = Some p"
      and low: "\<forall>t\<in>pg_section ` set ps. t < s \<longrightarrow> find_page name (rg_lookup ?r t) = None"
      using byName_loop_Some [OF Some sorted_Sections] by (auto simp: Sections_new)
    have p: "p \<in> set ps" "pg_section p = s" "pg_name p = name"
      using find_page_Some [OF s] by (auto simp: look)
    have "s \<le> pg_section q" if "q \<in> set ps" "pg_name q = name" for q
    proof (rule ccontr)
      assume "\<not> s \<le> pg_section q"
      then have "find_page name (rg_lookup ?r (pg_section q)) = None" using low that(1) by auto
      then show False using that by (auto simp: find_page_None look)
    qed
    then show ?thesis using Some p by (simp add: byName_def)
  qed
qed

theorem byName_lowest_section_witness:
  "case byName ClientRegistry ''cert-proxy-clients'' of
     Inr p \<Rightarrow> pg_name p = ''cert-proxy-clients'' \<and> pg_section p \<le> pg_section clientsPage
   | Inl e \<Rightarrow> False"
proof -
  let ?ps = "[clientPage, serverPage, clientsPage, protocolPage]"
  note t = byName_lowest_section [where d = "''8''" and ps = ?ps and name = "''cert-proxy-clients''",
      folded ClientRegistry_def]
  have n: "pg_name clientsPage = ''cert-proxy-clients''" by (simp add: clientsPage_def)
  have c: "clientsPage \<in> set ?ps" by simp
  show ?thesis
  proof (cases "byName ClientRegistry ''cert-proxy-clients''")
    case (Inl e)
    then have "''cert-proxy-clients'' \<notin> pg_name ` set ?ps" using t by (simp only: sum.case simp_thms)
    moreover have "''cert-proxy-clients'' \<in> pg_name ` set ?ps" using n c by (metis image_eqI)
    ultimately show ?thesis by blast
  next
    case (Inr p)
    then have "pg_name p = ''cert-proxy-clients''"
      and "\<forall>q\<in>set ?ps. pg_name q = ''cert-proxy-clients'' \<longrightarrow> pg_section p \<le> pg_section q"
      using t by (simp only: sum.case; blast)+
    then show ?thesis using Inr n c by (simp only: sum.case simp_thms)
  qed
qed

text \<open>Displaying a page either shows its whole text exactly once (on the output, or to
  the viewer when there is a terminal and a viewer) or, when the page cannot be unpacked,
  fails with a wrapped error and shows nothing.\<close>

theorem Display_shows_once:
  "case Display em d p of (err, shows) \<Rightarrow>
    (case Roff em p of
       Inl e \<Rightarrow> err = Some e \<and> shows = []
     | Inr roff \<Rightarrow>
        filter (\<lambda>x. case x of ToErr _ \<Rightarrow> False | _ \<Rightarrow> True) shows =
          (case (dp_is_terminal d, dp_look_path d ''man'') of
             (True, Inr viewer) \<Rightarrow> [ToViewer viewer roff] | _ \<Rightarrow> [ToOut roff]))"
  by (auto simp: Display_def split: sum.splits prod.splits if_splits bool.splits)

end
