(* ===== verification/GoUrl.thy ===== *)
theory GoUrl
  imports Prelude "HOL-Library.AList"
begin

text \<open>
  The part of package \<open>net/url\<close> the sources use: percent-encoding, query values, the \<open>URL\<close>
  structure, \<open>Parse\<close> and \<open>String\<close>.  Whether the text in brackets of a host is an IPv6
  address is decided by package \<open>net/netip\<close>; it is the parameter \<open>ip6\<close> of the parser.  The
  lemmas show that encoding is inverted by decoding and that an encoded query is parsed back
  to the values it was made of.
\<close>

section \<open>Percent-encoding\<close>

datatype encoding = EncodePath | EncodeHost | EncodeZone | EncodeUserPassword
  | EncodeQueryComponent | EncodeFragment

definition alnum :: "char \<Rightarrow> bool" where
  "alnum c \<longleftrightarrow> is_lower c \<or> is_upper c \<or> is_digit c"

definition should_escape :: "encoding \<Rightarrow> char \<Rightarrow> bool" where
  "should_escape mode c =
     (if alnum c then False
      else if (mode = EncodeHost \<or> mode = EncodeZone) \<and>
          (c \<in> set ''!$&()*+,;=:[]<>'' \<or> c = CHR 0x22 \<or> c = CHR 0x27) then False
      else if c \<in> set ''-_.~'' then False
      else if c \<in> set ''$&+,/:;=?@'' \<and> mode = EncodePath then c = CHR ''?''
      else if c \<in> set ''$&+,/:;=?@'' \<and> mode = EncodeUserPassword then c \<in> set ''@/?:''
      else if c \<in> set ''$&+,/:;=?@'' \<and> mode = EncodeQueryComponent then True
      else if c \<in> set ''$&+,/:;=?@'' \<and> mode = EncodeFragment then False
      else if mode = EncodeFragment \<and> c \<in> set ''!()*'' then False
      else True)"

definition upper_hex :: "nat \<Rightarrow> char" where
  "upper_hex n = (if n < 10 then char_of (48 + n) else char_of (55 + n))"

definition escape_char :: "encoding \<Rightarrow> char \<Rightarrow> string" where
  "escape_char mode c =
     (if c = CHR '' '' \<and> mode = EncodeQueryComponent then ''+''
      else if should_escape mode c then [CHR ''%'', upper_hex (code c div 16), upper_hex (code c mod 16)]
      else [c])"

definition escape :: "encoding \<Rightarrow> string \<Rightarrow> string" where
  "escape mode s = concat (map (escape_char mode) s)"

definition unhex :: "char \<Rightarrow> nat option" where
  "unhex c = (let n = code c in
     if 48 \<le> n \<and> n \<le> 57 then Some (n - 48)
     else if 97 \<le> n \<and> n \<le> 102 then Some (n - 87)
     else if 65 \<le> n \<and> n \<le> 70 then Some (n - 55) else None)"

text \<open>The extra conditions on an escape in a host or a zone.\<close>

definition escape_allowed :: "encoding \<Rightarrow> nat \<Rightarrow> nat \<Rightarrow> bool" where
  "escape_allowed mode a b =
     ((mode \<noteq> EncodeHost \<or> 8 \<le> a \<or> a = 2 \<and> b = 5) \<and>
      (mode \<noteq> EncodeZone \<or> a = 2 \<and> b = 5 \<or> 16 * a + b = 32 \<or>
        \<not> should_escape EncodeHost (char_of (16 * a + b))))"

fun unescape :: "encoding \<Rightarrow> string \<Rightarrow> string option" where
  "unescape mode [] = Some []"
| "unescape mode (c # s) =
     (if c = CHR ''%'' then
        (case s of a # b # r \<Rightarrow>
           (case (unhex a, unhex b) of
              (Some x, Some y) \<Rightarrow>
                (if escape_allowed mode x y
                 then map_option (\<lambda>t. char_of (16 * x + y) # t) (unescape mode r) else None)
            | _ \<Rightarrow> None)
         | _ \<Rightarrow> None)
      else if c = CHR ''+'' \<and> mode = EncodeQueryComponent
        then map_option (\<lambda>t. CHR '' '' # t) (unescape mode s)
      else if (mode = EncodeHost \<or> mode = EncodeZone) \<and> is_ascii c \<and> should_escape mode c then None
      else map_option (\<lambda>t. c # t) (unescape mode s))"

section \<open>Query values\<close>

text \<open>\<open>url.Values\<close>, a Go map from keys to lists of values, as an association list; its order
  carries no meaning (\<open>Encode\<close> sorts the keys).\<close>

type_synonym url_values = "(string \<times> string list) list"

definition values_has :: "url_values \<Rightarrow> string \<Rightarrow> bool" where
  "values_has v k \<longleftrightarrow> map_of v k \<noteq> None"

definition values_get :: "url_values \<Rightarrow> string \<Rightarrow> string" where
  "values_get v k = (case map_of v k of Some (x # _) \<Rightarrow> x | _ \<Rightarrow> [])"

definition values_set :: "string \<Rightarrow> string \<Rightarrow> url_values \<Rightarrow> url_values" where
  "values_set k x v = AList.update k [x] v"

definition values_add :: "string \<Rightarrow> string \<Rightarrow> url_values \<Rightarrow> url_values" where
  "values_add k x v = AList.update k ((case map_of v k of None \<Rightarrow> [] | Some xs \<Rightarrow> xs) @ [x]) v"

definition encode_pair :: "string \<times> string \<Rightarrow> string" where
  "encode_pair p = escape EncodeQueryComponent (fst p) @ ''='' @ escape EncodeQueryComponent (snd p)"

text \<open>All pairs of the values, keys ascending.\<close>

definition values_pairs :: "url_values \<Rightarrow> (string \<times> string) list" where
  "values_pairs v =
     concat (map (\<lambda>k. map (Pair k) (case map_of v k of None \<Rightarrow> [] | Some xs \<Rightarrow> xs)) (sort (map fst v)))"

definition values_encode :: "url_values \<Rightarrow> string" where
  "values_encode v = join ''&'' (map encode_pair (values_pairs v))"

definition bad_query :: go_error where
  "bad_query = Msg ''invalid semicolon separator in query''"

definition bad_escape :: go_error where
  "bad_escape = Msg ''invalid URL escape''"

text \<open>One element of a query between ampersands; an element that does not parse is skipped and
  the first error remembered.\<close>

definition parse_pair :: "string \<Rightarrow> url_values \<times> go_error option \<Rightarrow> url_values \<times> go_error option" where
  "parse_pair part acc =
     (case acc of (m, err) \<Rightarrow>
        if CHR '';'' \<in> set part then (m, Some bad_query)
        else if part = [] then (m, err)
        else (case cut CHR ''='' part of (k, x, _) \<Rightarrow>
          (case (unescape EncodeQueryComponent k, unescape EncodeQueryComponent x) of
             (Some k', Some x') \<Rightarrow> (values_add k' x' m, err)
           | _ \<Rightarrow> (m, (case err of None \<Rightarrow> Some bad_escape | Some e \<Rightarrow> Some e)))))"

text \<open>The number of parameters is limited.\<close>

definition max_params :: nat where
  "max_params = 10000"

definition parse_query :: "string \<Rightarrow> url_values \<times> go_error option" where
  "parse_query q =
     (let parts = split_on CHR ''&'' q in
      if max_params < length parts then ([], Some (Msg ''number of URL query parameters exceeded limit''))
      else fold parse_pair parts ([], None))"

section \<open>URLs\<close>

record url =
  u_scheme :: string
  u_opaque :: string
  u_user :: "(string \<times> string option) option"
  u_host :: string
  u_path :: string
  u_raw_path :: string
  u_omit_host :: bool
  u_force_query :: bool
  u_raw_query :: string
  u_fragment :: string
  u_raw_fragment :: string

definition empty_url :: url where
  "empty_url = \<lparr>u_scheme = [], u_opaque = [], u_user = None, u_host = [], u_path = [], u_raw_path = [],
     u_omit_host = False, u_force_query = False, u_raw_query = [], u_fragment = [], u_raw_fragment = []\<rparr>"

definition url_query :: "url \<Rightarrow> url_values" where
  "url_query u = fst (parse_query (u_raw_query u))"

definition valid_encoded :: "encoding \<Rightarrow> string \<Rightarrow> bool" where
  "valid_encoded mode s =
     list_all (\<lambda>c. c \<in> set ''!$&()*+,;=:@[]%'' \<or> c = CHR 0x27 \<or> \<not> should_escape mode c) s"

definition escaped_with_hint :: "encoding \<Rightarrow> string \<Rightarrow> string \<Rightarrow> string" where
  "escaped_with_hint mode hint s =
     (if hint \<noteq> [] \<and> valid_encoded mode hint \<and> unescape mode hint = Some s then hint
      else if mode = EncodePath \<and> s = ''*'' then ''*'' else escape mode s)"

definition escaped_path :: "url \<Rightarrow> string" where
  "escaped_path u = escaped_with_hint EncodePath (u_raw_path u) (u_path u)"

definition escaped_fragment :: "url \<Rightarrow> string" where
  "escaped_fragment u = escaped_with_hint EncodeFragment (u_raw_fragment u) (u_fragment u)"

definition user_string :: "string \<times> string option \<Rightarrow> string" where
  "user_string ui = escape EncodeUserPassword (fst ui) @
     (case snd ui of None \<Rightarrow> [] | Some p \<Rightarrow> '':'' @ escape EncodeUserPassword p)"

definition url_authority :: "url \<Rightarrow> string" where
  "url_authority u =
     (if u_scheme u \<noteq> [] \<or> u_host u \<noteq> [] \<or> u_user u \<noteq> None then
        (if u_omit_host u \<and> u_host u = [] \<and> u_user u = None then []
         else (if u_host u \<noteq> [] \<or> u_path u \<noteq> [] \<or> u_user u \<noteq> None then ''//'' else [])
           @ (case u_user u of None \<Rightarrow> [] | Some ui \<Rightarrow> user_string ui @ ''@'')
           @ escape EncodeHost (u_host u))
      else [])"

text \<open>Everything before the query.\<close>

definition url_front :: "url \<Rightarrow> string" where
  "url_front u =
     (let scheme = (if u_scheme u \<noteq> [] then u_scheme u @ '':'' else []) in
      if u_opaque u \<noteq> [] then scheme @ u_opaque u
      else let buf = scheme @ url_authority u; path = escaped_path u;
               buf2 = buf @ (if path \<noteq> [] \<and> hd path \<noteq> CHR ''/'' \<and> u_host u \<noteq> [] then ''/'' else [])
           in buf2 @ (if buf2 = [] \<and> CHR '':'' \<in> set (fst (cut CHR ''/'' path)) then ''./'' else [])
              @ path)"

definition url_string :: "url \<Rightarrow> string" where
  "url_string u =
     url_front u
     @ (if u_force_query u \<or> u_raw_query u \<noteq> [] then ''?'' @ u_raw_query u else [])
     @ (if u_fragment u \<noteq> [] then ''#'' @ escaped_fragment u else [])"

section \<open>Parsing a URL\<close>

definition is_ctl :: "char \<Rightarrow> bool" where
  "is_ctl c \<longleftrightarrow> code c < 32 \<or> code c = 127"

text \<open>\<open>getScheme\<close>: the scheme and the rest; \<open>None\<close> is the error for a leading colon.\<close>

fun get_scheme_from :: "bool \<Rightarrow> string \<Rightarrow> string \<Rightarrow> (string \<times> string) option" where
  "get_scheme_from start acc [] = Some ([], acc)"
| "get_scheme_from start acc (c # s) =
     (if is_lower c \<or> is_upper c then get_scheme_from False (acc @ [c]) s
      else if is_digit c \<or> c = CHR ''+'' \<or> c = CHR ''-'' \<or> c = CHR ''.'' then
        (if start then Some ([], acc @ c # s) else get_scheme_from False (acc @ [c]) s)
      else if c = CHR '':'' then (if start then None else Some (acc, s))
      else Some ([], acc @ c # s))"

definition get_scheme :: "string \<Rightarrow> (string \<times> string) option" where
  "get_scheme s = get_scheme_from True [] s"

definition valid_optional_port :: "string \<Rightarrow> bool" where
  "valid_optional_port p = (p = [] \<or> hd p = CHR '':'' \<and> list_all is_digit (tl p))"

definition find_sub :: "string \<Rightarrow> string \<Rightarrow> nat option" where
  "find_sub s sub = find (\<lambda>i. has_prefix (drop i s) sub) [0..<Suc (length s)]"

text \<open>An IP literal: the text from the opening bracket on.\<close>

definition parse_bracketed :: "(string \<Rightarrow> bool) \<Rightarrow> string \<Rightarrow> string option" where
  "parse_bracketed ip6 host =
     (case last_index CHR '']'' host of None \<Rightarrow> None
      | Some j \<Rightarrow>
        (let port = drop (Suc j) host; name = drop 1 (take j host) in
         if \<not> valid_optional_port port then None
         else (case find_sub name ''%25'' of
             None \<Rightarrow> (case unescape EncodeHost name of None \<Rightarrow> None
               | Some h \<Rightarrow> (if ip6 h then Some (''['' @ h @ '']'' @ port) else None))
           | Some i \<Rightarrow>
             (case (unescape EncodeHost (take i name), unescape EncodeZone (drop i name)) of
                (Some h, Some z) \<Rightarrow> (if ip6 (h @ z) then Some (''['' @ h @ z @ '']'' @ port) else None)
              | _ \<Rightarrow> None))))"

definition parse_host :: "(string \<Rightarrow> bool) \<Rightarrow> string \<Rightarrow> string option" where
  "parse_host ip6 host =
     (if CHR ''['' \<in> set host then
        (if hd host = CHR ''['' \<and> CHR ''['' \<notin> set (tl host) then parse_bracketed ip6 host else None)
      else if CHR '':'' \<in> set host \<and> \<not> valid_optional_port (dropWhile (\<lambda>c. c \<noteq> CHR '':'') host) then None
      else unescape EncodeHost host)"

definition valid_userinfo :: "string \<Rightarrow> bool" where
  "valid_userinfo s = list_all (\<lambda>c. alnum c \<or> c \<in> set ''-._:~!$&()*+,;=%@'' \<or> c = CHR 0x27) s"

definition parse_user :: "string \<Rightarrow> (string \<times> string option) option" where
  "parse_user s =
     (if \<not> valid_userinfo s then None
      else (case cut CHR '':'' s of (n, p, found) \<Rightarrow>
        (case (unescape EncodeUserPassword n, unescape EncodeUserPassword p) of
           (Some n', Some p') \<Rightarrow> Some (n', if found then Some p' else None) | _ \<Rightarrow> None)))"

text \<open>\<open>parseAuthority\<close>: the user information ends at the last \<open>@\<close>.\<close>

definition parse_authority ::
    "(string \<Rightarrow> bool) \<Rightarrow> string \<Rightarrow> ((string \<times> string option) option \<times> string) option" where
  "parse_authority ip6 a =
     (case last_index CHR ''@'' a of
        None \<Rightarrow> map_option (Pair None) (parse_host ip6 a)
      | Some i \<Rightarrow>
        (case (parse_host ip6 (drop (Suc i) a), parse_user (take i a)) of
           (Some h, Some u) \<Rightarrow> Some (Some u, h) | _ \<Rightarrow> None))"

definition url_error :: "string \<Rightarrow> string \<Rightarrow> go_error" where
  "url_error raw m = UrlError ''parse'' raw (Msg m)"

definition hint_for :: "encoding \<Rightarrow> string \<Rightarrow> string \<Rightarrow> string" where
  "hint_for mode raw s = (if escape mode s = raw then [] else raw)"

definition set_path :: "string \<Rightarrow> string \<Rightarrow> url \<Rightarrow> go_error + url" where
  "set_path raw p u =
     (case unescape EncodePath p of None \<Rightarrow> Inl (url_error raw ''invalid URL escape'')
      | Some q \<Rightarrow> Inr (u\<lparr>u_path := q, u_raw_path := hint_for EncodePath p q\<rparr>))"

text \<open>The part after the scheme and before the query.\<close>

definition parse_hier :: "(string \<Rightarrow> bool) \<Rightarrow> string \<Rightarrow> string \<Rightarrow> url \<Rightarrow> go_error + url" where
  "parse_hier ip6 raw rest u =
     (if \<not> has_prefix rest ''/'' \<and> u_scheme u \<noteq> [] then Inr (u\<lparr>u_opaque := rest\<rparr>)
      else if \<not> has_prefix rest ''/'' \<and> CHR '':'' \<in> set (fst (cut CHR ''/'' rest))
        then Inl (url_error raw ''first path segment in URL cannot contain colon'')
      else if (u_scheme u \<noteq> [] \<or> \<not> has_prefix rest ''///'') \<and> has_prefix rest ''//'' then
        (let authority = takeWhile (\<lambda>c. c \<noteq> CHR ''/'') (drop 2 rest);
             rest' = dropWhile (\<lambda>c. c \<noteq> CHR ''/'') (drop 2 rest) in
         (case parse_authority ip6 authority of
            None \<Rightarrow> Inl (url_error raw ''invalid authority'')
          | Some (user, host) \<Rightarrow> set_path raw rest' (u\<lparr>u_user := user, u_host := host\<rparr>)))
      else if u_scheme u \<noteq> [] \<and> has_prefix rest ''/'' then set_path raw rest (u\<lparr>u_omit_host := True\<rparr>)
      else set_path raw rest u)"

definition parse_no_fragment :: "(string \<Rightarrow> bool) \<Rightarrow> string \<Rightarrow> go_error + url" where
  "parse_no_fragment ip6 raw =
     (if list_ex is_ctl raw then Inl (url_error raw ''net/url: invalid control character in URL'')
      else if raw = ''*'' then Inr (empty_url\<lparr>u_path := ''*''\<rparr>)
      else (case get_scheme raw of
          None \<Rightarrow> Inl (url_error raw ''missing protocol scheme'')
        | Some (scheme, rest) \<Rightarrow>
          (let u = empty_url\<lparr>u_scheme := ascii_lower scheme\<rparr> in
           if rest \<noteq> [] \<and> last rest = CHR ''?'' \<and> CHR ''?'' \<notin> set (butlast rest)
           then parse_hier ip6 raw (butlast rest) (u\<lparr>u_force_query := True\<rparr>)
           else (case cut CHR ''?'' rest of (rest', query, _) \<Rightarrow>
             parse_hier ip6 raw rest' (u\<lparr>u_raw_query := query\<rparr>)))))"

definition url_parse :: "(string \<Rightarrow> bool) \<Rightarrow> string \<Rightarrow> go_error + url" where
  "url_parse ip6 raw =
     (case cut CHR ''#'' raw of (u, frag, _) \<Rightarrow>
        (case parse_no_fragment ip6 u of Inl e \<Rightarrow> Inl e
         | Inr r \<Rightarrow>
           (if frag = [] then Inr r
            else (case unescape EncodeFragment frag of
                None \<Rightarrow> Inl (url_error raw ''invalid URL escape'')
              | Some fr \<Rightarrow> Inr (r\<lparr>u_fragment := fr, u_raw_fragment := hint_for EncodeFragment frag fr\<rparr>)))))"

section \<open>Decoding inverts encoding\<close>

lemma should_escape_query:
  "should_escape EncodeQueryComponent c \<longleftrightarrow> \<not> alnum c \<and> c \<notin> set ''-_.~''"
  by (auto simp: should_escape_def)

lemma not_alnum: "\<not> alnum CHR ''%''" "\<not> alnum CHR ''+''" "\<not> alnum CHR ''&''" "\<not> alnum CHR ''=''"
  "\<not> alnum CHR '';''" "\<not> alnum CHR ''#''" "\<not> alnum CHR ''?''" "\<not> alnum CHR ''/''"
  by (simp_all add: alnum_def is_lower_def is_upper_def is_digit_def)

lemma code_upper_hex: "n < 16 \<Longrightarrow> code (upper_hex n) = (if n < 10 then 48 + n else 55 + n)"
  by (simp add: upper_hex_def)

lemma unhex_upper_hex: "n < 16 \<Longrightarrow> unhex (upper_hex n) = Some n"
  by (auto simp: unhex_def Let_def code_upper_hex)

lemma code_less: "code c < 256"
  by (metis mod_less_divisor of_char_mod_256 zero_less_numeral)

lemma hex_digits: "code c div 16 < 16" "16 * (code c div 16) + code c mod 16 = code c"
  using code_less [of c] by (simp_all add: less_mult_imp_div_less)

lemma unescape_escape_char:
  "unescape EncodeQueryComponent (escape_char EncodeQueryComponent c @ t) =
     map_option (\<lambda>s. c # s) (unescape EncodeQueryComponent t)"
proof -
  consider (space) "c = CHR '' ''" | (esc) "c \<noteq> CHR '' ''" "should_escape EncodeQueryComponent c"
    | (keep) "c \<noteq> CHR '' ''" "\<not> should_escape EncodeQueryComponent c" by blast
  then show ?thesis
  proof cases
    case space
    then show ?thesis by (simp add: escape_char_def)
  next
    case esc
    then show ?thesis
      by (simp add: escape_char_def unhex_upper_hex hex_digits escape_allowed_def)
  next
    case keep
    then have "c \<noteq> CHR ''%''" "c \<noteq> CHR ''+''"
      using not_alnum by (auto simp: should_escape_query)
    then show ?thesis using keep by (simp add: escape_char_def)
  qed
qed

lemma unescape_escape_append:
  "unescape EncodeQueryComponent (escape EncodeQueryComponent s @ t) =
     map_option (\<lambda>r. s @ r) (unescape EncodeQueryComponent t)"
proof (induction s)
  case Nil
  show ?case by (simp add: escape_def option.map_ident)
next
  case (Cons c s)
  have "escape EncodeQueryComponent (c # s) @ t =
      escape_char EncodeQueryComponent c @ (escape EncodeQueryComponent s @ t)"
    by (simp add: escape_def)
  then show ?case by (simp only: unescape_escape_char Cons.IH) (simp add: option.map_comp comp_def)
qed

lemma unescape_escape: "unescape EncodeQueryComponent (escape EncodeQueryComponent s) = Some s"
  using unescape_escape_append [of s "[]"] by simp

text \<open>An encoded component contains no separator.\<close>

definition component_char :: "char \<Rightarrow> bool" where
  "component_char c \<longleftrightarrow> alnum c \<or> c \<in> set ''-_.~%+''"

lemma alnum_upper_hex: "n < 16 \<Longrightarrow> alnum (upper_hex n)"
  by (auto simp: alnum_def is_digit_def is_upper_def code_upper_hex)

lemma escape_chars: "list_all component_char (escape EncodeQueryComponent s)"
proof (induction s)
  case Nil
  show ?case by (simp add: escape_def)
next
  case (Cons c s)
  have "list_all component_char (escape_char EncodeQueryComponent c)"
    by (auto simp: escape_char_def should_escape_query component_char_def alnum_upper_hex hex_digits)
  then show ?case using Cons.IH by (simp add: escape_def)
qed

lemma separators_not_component:
  "\<not> component_char CHR ''&''" "\<not> component_char CHR ''=''" "\<not> component_char CHR '';''"
  "\<not> component_char CHR ''#''" "\<not> component_char CHR ''?''"
  using not_alnum by (simp_all add: component_char_def)

lemma escape_no_sep: "\<not> component_char c \<Longrightarrow> c \<notin> set (escape EncodeQueryComponent s)"
  using escape_chars [of s] by (auto simp: list_all_iff)

lemma encode_pair_no_sep:
  assumes "\<not> component_char c" and "c \<noteq> CHR ''=''"
  shows "c \<notin> set (encode_pair p)"
  using assms by (simp add: encode_pair_def escape_no_sep)

lemma parse_encode_pair:
  "parse_pair (encode_pair (k, x)) (m, err) = (values_add k x m, err)"
proof -
  have "cut CHR ''='' (encode_pair (k, x)) =
      (escape EncodeQueryComponent k, escape EncodeQueryComponent x, True)"
    unfolding encode_pair_def
    using cut_append [OF escape_no_sep [OF separators_not_component(2), of k]] by simp
  moreover have "CHR '';'' \<notin> set (encode_pair (k, x))"
    by (rule encode_pair_no_sep) (simp_all add: separators_not_component)
  moreover have "encode_pair (k, x) \<noteq> []" by (simp add: encode_pair_def)
  ultimately show ?thesis by (simp add: parse_pair_def unescape_escape)
qed

definition add_pairs :: "(string \<times> string) list \<Rightarrow> url_values \<Rightarrow> url_values" where
  "add_pairs ps m = fold (\<lambda>(k, x). values_add k x) ps m"

lemma fold_parse_pairs:
  "fold parse_pair (map encode_pair ps) (m, err) = (add_pairs ps m, err)"
proof (induction ps arbitrary: m)
  case Nil
  show ?case by (simp add: add_pairs_def)
next
  case (Cons p ps)
  obtain k x where "p = (k, x)" by force
  then show ?case using Cons.IH by (simp add: parse_encode_pair add_pairs_def)
qed

lemma parse_query_pairs:
  assumes "length ps \<le> max_params"
  shows "parse_query (join ''&'' (map encode_pair ps)) = (add_pairs ps [], None)"
proof (cases "ps = []")
  case True
  then show ?thesis
    by (simp add: parse_query_def parse_pair_def add_pairs_def max_params_def)
next
  case False
  have "\<forall>x\<in>set (map encode_pair ps). CHR ''&'' \<notin> set x"
    using encode_pair_no_sep [OF separators_not_component(1)] by auto
  then have "split_on CHR ''&'' (join ''&'' (map encode_pair ps)) = map encode_pair ps"
    using False by (intro split_on_join) auto
  then show ?thesis using assms by (simp add: parse_query_def fold_parse_pairs)
qed

section \<open>Values as a map\<close>

text \<open>A map a parser or \<open>Set\<close> can build: no key twice, no key without values.\<close>

definition wf_values :: "url_values \<Rightarrow> bool" where
  "wf_values v \<longleftrightarrow> distinct (map fst v) \<and> (\<forall>k xs. map_of v k = Some xs \<longrightarrow> xs \<noteq> [])"

lemma map_of_values_set: "map_of (values_set k x v) = (map_of v)(k \<mapsto> [x])"
  by (simp add: values_set_def update_conv')

lemma map_of_values_add:
  "map_of (values_add k x v) = (map_of v)(k \<mapsto> (case map_of v k of None \<Rightarrow> [] | Some xs \<Rightarrow> xs) @ [x])"
  by (simp add: values_add_def update_conv')

lemma wf_values_Nil [simp]: "wf_values []"
  by (simp add: wf_values_def)

lemma wf_values_update:
  assumes "wf_values v" and "xs \<noteq> []"
  shows "wf_values (AList.update k xs v)"
proof -
  have "distinct (map fst (AList.update k xs v))"
    using assms(1) by (intro distinct_update) (simp add: wf_values_def)
  moreover have "ys \<noteq> []" if "map_of (AList.update k xs v) k' = Some ys" for k' ys
    using that assms by (cases "k' = k") (auto simp: update_conv' wf_values_def)
  ultimately show ?thesis unfolding wf_values_def by blast
qed

lemma wf_values_set: "wf_values v \<Longrightarrow> wf_values (values_set k x v)"
  by (simp add: values_set_def wf_values_update)

lemma wf_values_add: "wf_values v \<Longrightarrow> wf_values (values_add k x v)"
  by (simp add: values_add_def wf_values_update)

lemma wf_parse_pair: "wf_values (fst acc) \<Longrightarrow> wf_values (fst (parse_pair part acc))"
  by (auto simp: parse_pair_def wf_values_add split: prod.splits option.splits)

lemma wf_fold_parse: "wf_values (fst acc) \<Longrightarrow> wf_values (fst (fold parse_pair parts acc))"
  by (induction parts arbitrary: acc) (simp_all add: wf_parse_pair)

lemma wf_parse_query: "wf_values (fst (parse_query q))"
  by (simp add: parse_query_def Let_def wf_fold_parse)

text \<open>Encoding depends on the map only.\<close>

lemma sort_keys_cong:
  assumes "distinct (map fst v)" and "distinct (map fst w)" and "map_of v = map_of w"
  shows "sort (map fst v) = sort (map fst w)"
proof -
  have "fst ` set v = fst ` set w"
    by (simp only: dom_map_of_conv_image_fst [symmetric] assms(3))
  then have "set (map fst v) = set (map fst w)" by simp
  then show ?thesis using assms(1,2) by (intro sorted_distinct_set_unique) simp_all
qed

lemma wf_distinct: "wf_values v \<Longrightarrow> distinct (map fst v)"
  by (simp add: wf_values_def)

lemma values_pairs_cong:
  assumes "wf_values v" and "wf_values w" and "map_of v = map_of w"
  shows "values_pairs v = values_pairs w"
proof -
  have "sort (map fst v) = sort (map fst w)"
    by (rule sort_keys_cong [OF wf_distinct [OF assms(1)] wf_distinct [OF assms(2)] assms(3)])
  then show ?thesis by (simp only: values_pairs_def assms(3))
qed

lemma values_encode_cong:
  "wf_values v \<Longrightarrow> wf_values w \<Longrightarrow> map_of v = map_of w \<Longrightarrow> values_encode v = values_encode w"
  unfolding values_encode_def by (drule (2) values_pairs_cong) simp

text \<open>Adding the pairs of a map to an empty one rebuilds the map.\<close>

lemma add_pairs_append: "add_pairs (ps @ qs) m = add_pairs qs (add_pairs ps m)"
  by (simp add: add_pairs_def)

lemma add_key_pairs:
  "map_of (add_pairs (map (Pair k) xs) m) k' =
     (if k' = k \<and> xs \<noteq> [] then Some ((case map_of m k of None \<Rightarrow> [] | Some ys \<Rightarrow> ys) @ xs) else map_of m k')"
  by (induction xs arbitrary: m) (auto simp: add_pairs_def map_of_values_add)

lemma add_groups:
  assumes "distinct ks"
  shows "map_of (add_pairs (concat (map (\<lambda>k. map (Pair k) (f k)) ks)) m) k =
    (if k \<in> set ks \<and> f k \<noteq> [] then Some ((case map_of m k of None \<Rightarrow> [] | Some ys \<Rightarrow> ys) @ f k) else map_of m k)"
  using assms
proof (induction ks arbitrary: m)
  case Nil
  then show ?case by (simp add: add_pairs_def)
next
  case (Cons a ks)
  then show ?case by (auto simp: add_pairs_append add_key_pairs)
qed

lemma wf_add_pairs: "wf_values m \<Longrightarrow> wf_values (add_pairs ps m)"
  by (induction ps arbitrary: m) (auto simp: add_pairs_def wf_values_add split: prod.splits)

lemma add_pairs_values:
  assumes "wf_values v"
  shows "map_of (add_pairs (values_pairs v) []) = map_of v"
proof
  fix k
  let ?f = "\<lambda>k. case map_of v k of None \<Rightarrow> [] | Some xs \<Rightarrow> xs"
  have d: "distinct (sort (map fst v))" using assms by (simp add: wf_values_def)
  have "map_of (add_pairs (values_pairs v) []) k =
      (if k \<in> fst ` set v \<and> ?f k \<noteq> [] then Some (?f k) else None)"
    using add_groups [OF d, of ?f "[]" k] by (simp add: values_pairs_def)
  also have "\<dots> = map_of v k"
  proof (cases "map_of v k")
    case None
    then have "k \<notin> fst ` set v" by (simp add: map_of_eq_None_iff)
    then show ?thesis using None by simp
  next
    case (Some xs)
    then have "k \<in> fst ` set v" by (metis domI dom_map_of_conv_image_fst)
    moreover have "xs \<noteq> []" using assms Some by (auto simp: wf_values_def)
    ultimately show ?thesis using Some by simp
  qed
  finally show "map_of (add_pairs (values_pairs v) []) k = map_of v k" .
qed

text \<open>The round trip: an encoded query parses back to the same map.\<close>

lemma parse_encode:
  assumes "wf_values v" and "length (values_pairs v) \<le> max_params"
  shows "snd (parse_query (values_encode v)) = None"
    and "map_of (fst (parse_query (values_encode v))) = map_of v"
  using parse_query_pairs [OF assms(2)] add_pairs_values [OF assms(1)]
  by (simp_all add: values_encode_def)

end
