(* ===== verification/Http.thy ===== *)
theory Http
  imports GoFs GoUrl
begin

text \<open>
  The part of package \<open>net/http\<close> the server uses: requests and response writers,
  \<open>http.Error\<close>, \<open>http.Dir\<close>, \<open>ServeContent\<close> with the \<open>If-Modified-Since\<close> condition, and
  the pattern matching of \<open>ServeMux\<close>.  Content types, range requests and the preconditions
  the client never sends are left out.  Times are whole seconds, the precision of the HTTP
  headers; rendering and parsing them are the parameters \<open>format_time\<close> and \<open>parse_time\<close>.
\<close>

section \<open>Requests and responses\<close>

text \<open>\<open>rq_tls\<close> is the common name of each certificate the peer presented, the leaf first;
  \<open>None\<close> for a connection without TLS.\<close>

record request =
  rq_method :: string
  rq_url :: url
  rq_headers :: "(string \<times> string) list"
  rq_remote_addr :: string
  rq_tls :: "string list option"

definition header_get :: "(string \<times> string) list \<Rightarrow> string \<Rightarrow> string" where
  "header_get hs k = (case map_of hs k of None \<Rightarrow> [] | Some v \<Rightarrow> v)"

record response =
  rs_status :: "nat option"
  rs_headers :: "(string \<times> string) list"
  rs_body :: string

definition new_response :: response where
  "new_response = \<lparr>rs_status = None, rs_headers = [], rs_body = []\<rparr>"

text \<open>Only the first \<open>WriteHeader\<close> counts, and headers changed after it are not sent.\<close>

definition write_header :: "nat \<Rightarrow> response \<Rightarrow> response" where
  "write_header c w = (if rs_status w = None then w\<lparr>rs_status := Some c\<rparr> else w)"

definition write_body :: "string \<Rightarrow> response \<Rightarrow> response" where
  "write_body d w = (let w' = write_header 200 w in w'\<lparr>rs_body := rs_body w' @ d\<rparr>)"

definition header_set :: "string \<Rightarrow> string \<Rightarrow> response \<Rightarrow> response" where
  "header_set k v w =
     (if rs_status w = None then w\<lparr>rs_headers := AList.update k v (rs_headers w)\<rparr> else w)"

definition header_add :: "string \<Rightarrow> string \<Rightarrow> response \<Rightarrow> response" where
  "header_add k v w =
     (if rs_status w = None then w\<lparr>rs_headers := rs_headers w @ [(k, v)]\<rparr> else w)"

definition http_Error :: "string \<Rightarrow> nat \<Rightarrow> response \<Rightarrow> response" where
  "http_Error text c w =
     write_body (text @ [nl]) (write_header c
       (header_set ''X-Content-Type-Options'' ''nosniff''
         (header_set ''Content-Type'' ''text/plain; charset=utf-8'' w)))"

abbreviation StatusOK :: nat where "StatusOK \<equiv> 200"
abbreviation StatusNotModified :: nat where "StatusNotModified \<equiv> 304"
abbreviation StatusBadRequest :: nat where "StatusBadRequest \<equiv> 400"
abbreviation StatusUnauthorized :: nat where "StatusUnauthorized \<equiv> 401"
abbreviation StatusNotFound :: nat where "StatusNotFound \<equiv> 404"
abbreviation StatusInternalServerError :: nat where "StatusInternalServerError \<equiv> 500"

section \<open>http.Dir\<close>

fun utf8_valid :: "nat list \<Rightarrow> bool" where
  "utf8_valid [] = True"
| "utf8_valid (a # s) =
     (let cont = (\<lambda>b. 128 \<le> b \<and> b \<le> (191::nat)) in
      if a < 128 then utf8_valid s
      else (case s of [] \<Rightarrow> False
        | b # r \<Rightarrow>
          (if 194 \<le> a \<and> a \<le> 223 then cont b \<and> utf8_valid r
           else (case r of [] \<Rightarrow> False
             | c # q \<Rightarrow>
               (if 224 \<le> a \<and> a \<le> 239 then
                  cont b \<and> (a = 224 \<longrightarrow> 160 \<le> b) \<and> (a = 237 \<longrightarrow> b \<le> 159) \<and> cont c \<and> utf8_valid q
                else (case q of [] \<Rightarrow> False
                  | d # z \<Rightarrow> 240 \<le> a \<and> a \<le> 244 \<and> cont b \<and> (a = 240 \<longrightarrow> 144 \<le> b) \<and>
                      (a = 244 \<longrightarrow> b \<le> 143) \<and> cont c \<and> cont d \<and> utf8_valid z))))))"

definition errors_is_permission :: "go_error \<Rightarrow> bool" where
  "errors_is_permission e = (case e of PathError _ _ n \<Rightarrow> n = EACCES \<or> n = EPERM | _ \<Rightarrow> False)"

text \<open>\<open>mapOpenError\<close> turns a failure below a regular file into \<open>ErrNotExist\<close>.\<close>

fun open_error_loop :: "fs \<Rightarrow> go_error \<Rightarrow> string list \<Rightarrow> string list \<Rightarrow> go_error" where
  "open_error_loop f orig front [] = orig"
| "open_error_loop f orig front (p # ps) =
     (if p = [] then open_error_loop f orig (front @ [p]) ps
      else (case os_stat f (join ''/'' (front @ [p])) of
          Inl _ \<Rightarrow> orig
        | Inr fi \<Rightarrow> (if is_dir fi then open_error_loop f orig (front @ [p]) ps else ErrNotExist)))"

definition map_open_error :: "fs \<Rightarrow> go_error \<Rightarrow> string \<Rightarrow> go_error" where
  "map_open_error f orig name =
     (if errors_is_not_exist orig \<or> errors_is_permission orig then orig
      else open_error_loop f orig [] (split_on CHR ''/'' name))"

definition unsafe_path :: go_error where
  "unsafe_path = Msg ''http: invalid or unsafe file path''"

definition dir_or_dot :: "string \<Rightarrow> string" where
  "dir_or_dot d = (if d = [] then ''.'' else d)"

definition http_dir_open :: "fs \<Rightarrow> string \<Rightarrow> string \<Rightarrow> go_error + handle" where
  "http_dir_open f dir name =
     (let p = tl (path_clean (CHR ''/'' # name)); path = (if p = [] then ''.'' else p) in
      if \<not> utf8_valid (map code path) \<or> CHR 0x00 \<in> set path then Inl unsafe_path
      else let fullName = path_join [dir_or_dot dir, path] in
        (case os_open f fullName of
           Inl e \<Rightarrow> Inl (map_open_error f e fullName) | Inr h \<Rightarrow> Inr h))"

section \<open>ServeContent\<close>

datatype content = FileContent handle | BytesContent string

text \<open>The bytes a copy of the content sends: all of it, or what was read before an error.\<close>

fun content_bytes :: "fs \<Rightarrow> content \<Rightarrow> string" where
  "content_bytes f (FileContent h) = fst (file_reader f h)"
| "content_bytes f (BytesContent d) = d"

definition not_modified :: "(string \<Rightarrow> int option) \<Rightarrow> request \<Rightarrow> int \<Rightarrow> bool" where
  "not_modified parse_time req mtime =
     (let ims = header_get (rq_headers req) ''If-Modified-Since'' in
      (rq_method req = ''GET'' \<or> rq_method req = ''HEAD'') \<and> ims \<noteq> [] \<and> mtime \<noteq> 0 \<and>
      (case parse_time ims of None \<Rightarrow> False | Some t \<Rightarrow> mtime \<le> t))"

definition ServeContent ::
    "(int \<Rightarrow> string) \<Rightarrow> (string \<Rightarrow> int option) \<Rightarrow> fs \<Rightarrow> request \<Rightarrow> int \<Rightarrow> content \<Rightarrow> response \<Rightarrow> response" where
  "ServeContent format_time parse_time f req mtime c w =
     (let w1 = (if mtime = 0 then w else header_set ''Last-Modified'' (format_time mtime) w) in
      if not_modified parse_time req mtime then write_header StatusNotModified w1
      else let w2 = write_header StatusOK (header_set ''Accept-Ranges'' ''bytes'' w1) in
        if rq_method req = ''HEAD'' then w2 else write_body (content_bytes f c) w2)"

section \<open>ServeMux\<close>

definition mux_clean :: "string \<Rightarrow> string" where
  "mux_clean p =
     (if p = [] then ''/''
      else let q = (if rooted p then p else CHR ''/'' # p); np = path_clean q in
        if last q = CHR ''/'' \<and> np \<noteq> ''/'' then np @ ''/'' else np)"

text \<open>The segments of an escaped path, decoded one by one.\<close>

definition path_unescape :: "string \<Rightarrow> string" where
  "path_unescape s = (case unescape EncodePath s of None \<Rightarrow> s | Some t \<Rightarrow> t)"

definition mux_segments :: "string \<Rightarrow> string list" where
  "mux_segments p = map path_unescape (split_on CHR ''/'' (tl p))"

text \<open>A pattern ending in a slash matches the whole tree below it, any other one only itself.\<close>

definition pattern_subtree :: "string \<Rightarrow> bool" where
  "pattern_subtree pat = (last pat = CHR ''/'')"

definition pattern_segments :: "string \<Rightarrow> string list" where
  "pattern_segments pat =
     (let s = split_on CHR ''/'' (tl pat) in if pattern_subtree pat then butlast s else s)"

definition pattern_match :: "string \<Rightarrow> string list \<Rightarrow> bool" where
  "pattern_match pat segs =
     (let ps = pattern_segments pat in
      if pattern_subtree pat then length ps < length segs \<and> take (length ps) segs = ps
      else segs = ps)"

datatype 'h route = Redirect string | NoHandler | Dispatch 'h

definition mux_lookup :: "(string \<times> 'h) list \<Rightarrow> string \<Rightarrow> 'h option" where
  "mux_lookup table p = map_option snd (find (\<lambda>(pat, _). pattern_match pat (mux_segments p)) table)"

text \<open>A path that only lacks the slash of a subtree pattern is redirected to it.\<close>

definition slash_missing :: "(string \<times> 'h) list \<Rightarrow> string \<Rightarrow> bool" where
  "slash_missing table p =
     (mux_lookup table p = None \<and>
      list_ex (\<lambda>(pat, _). pattern_subtree pat \<and> pattern_segments pat = mux_segments p) table)"

definition mux_route :: "(string \<times> 'h) list \<Rightarrow> request \<Rightarrow> 'h route" where
  "mux_route table req =
     (let ep = escaped_path (rq_url req);
          p = (if rq_method req = ''CONNECT'' then ep else mux_clean ep) in
      if slash_missing table p then Redirect (p @ ''/'')
      else if p \<noteq> ep then Redirect p
      else (case mux_lookup table p of None \<Rightarrow> NoHandler | Some h \<Rightarrow> Dispatch h))"

section \<open>Lemmas on responses\<close>

lemma write_header_status: "rs_status (write_header c w) = (case rs_status w of None \<Rightarrow> Some c | Some s \<Rightarrow> Some s)"
  by (auto simp: write_header_def split: option.splits)

lemma write_header_other [simp]:
  "rs_headers (write_header c w) = rs_headers w" "rs_body (write_header c w) = rs_body w"
  by (auto simp: write_header_def)

lemma header_set_other [simp]:
  "rs_status (header_set k v w) = rs_status w" "rs_body (header_set k v w) = rs_body w"
  by (auto simp: header_set_def)

lemma header_add_other [simp]:
  "rs_status (header_add k v w) = rs_status w" "rs_body (header_add k v w) = rs_body w"
  by (auto simp: header_add_def)

lemma http_Error_fresh:
  "rs_status w = None \<Longrightarrow> rs_status (http_Error t c w) = Some c"
  "rs_status w = None \<Longrightarrow> rs_body w = [] \<Longrightarrow> rs_body (http_Error t c w) = t @ [nl]"
  by (simp_all add: http_Error_def write_body_def write_header_status)

lemma http_Error_headers:
  "k \<noteq> ''Content-Type'' \<Longrightarrow> k \<noteq> ''X-Content-Type-Options'' \<Longrightarrow>
     map_of (rs_headers (http_Error t c w)) k = map_of (rs_headers w) k"
  by (auto simp: http_Error_def write_body_def header_set_def update_conv')

lemma ServeContent_status:
  "rs_status w = None \<Longrightarrow>
     rs_status (ServeContent ft pt f req mtime c w) =
       Some (if not_modified pt req mtime then 304 else 200)"
  by (simp add: ServeContent_def Let_def write_header_status write_body_def)

lemma ServeContent_body:
  "rs_status w = None \<Longrightarrow> rs_body w = [] \<Longrightarrow>
     rs_body (ServeContent ft pt f req mtime c w) =
       (if not_modified pt req mtime \<or> rq_method req = ''HEAD'' then [] else content_bytes f c)"
  by (simp add: ServeContent_def Let_def write_header_status write_body_def)

lemma ServeContent_headers:
  "k \<noteq> ''Last-Modified'' \<Longrightarrow> k \<noteq> ''Accept-Ranges'' \<Longrightarrow>
     map_of (rs_headers (ServeContent ft pt f req mtime c w)) k = map_of (rs_headers w) k"
  by (auto simp: ServeContent_def Let_def write_body_def header_set_def update_conv')

section \<open>Confinement of http.Dir\<close>

text \<open>Whatever the name, the file opened lies below the directory: its path has the elements
  of the directory followed by plain elements.\<close>

lemma dir_open_path:
  "let p = tl (path_clean (CHR ''/'' # name)); path = (if p = [] then ''.'' else p) in
   path_join [dir_or_dot d, path] = path_below (dir_or_dot d) (path_elems (CHR ''/'' # name))"
proof -
  let ?es = "path_elems (CHR ''/'' # name)"
  have pl: "list_all plain ?es" by (rule rooted_elems_plain) simp
  have d: "dir_or_dot d \<noteq> []" by (simp add: dir_or_dot_def)
  have p: "tl (path_clean (CHR ''/'' # name)) = join ''/'' ?es" by (simp add: path_clean_rooted_form)
  show ?thesis
  proof (cases "?es = []")
    case True
    have "path_join [dir_or_dot d, ''.''] = path_clean (dir_or_dot d)"
    proof -
      have "path_elems (dir_or_dot d @ ''/.'') = path_elems (dir_or_dot d)"
        using d by (simp add: path_elems_def rooted_append split_on_append [of _ _ "''.''", simplified]
            clean_stack_append clean_stack_Cons clean_step_def)
      moreover have "rooted (dir_or_dot d @ ''/.'') = rooted (dir_or_dot d)"
        using d by (rule rooted_append)
      ultimately have "path_clean (dir_or_dot d @ ''/.'') = path_clean (dir_or_dot d)"
        by (simp add: path_clean_def)
      then show ?thesis using d by (simp add: path_join_def)
    qed
    then show ?thesis using True p by (simp add: Let_def path_below_Nil)
  next
    case False
    then obtain e es where es: "?es = e # es" by (cases ?es) auto
    then have "join ''/'' ?es \<noteq> []" using pl by (auto simp: join_Cons plain_def)
    moreover have "path_join [dir_or_dot d, join ''/'' ?es] = path_below (dir_or_dot d) ?es"
      using d clean_below [OF d pl False] by (simp add: path_join_def)
    ultimately show ?thesis using p by (simp add: Let_def)
  qed
qed

lemma http_dir_open_Inr:
  assumes "http_dir_open f d name = Inr h"
  shows "os_open f (path_below (dir_or_dot d) (path_elems (CHR ''/'' # name))) = Inr h"
  using assms dir_open_path [of name d]
  by (auto simp: http_dir_open_def Let_def split: sum.splits if_splits)

end
