(* ===== verification/Validate.thy ===== *)
theory Validate
  imports GoPath
begin

text \<open>
  \<open>internal/list/validate.go\<close>: the checks on domain names and client names that make them
  safe as path elements.  \<open>ValidateDomain\<close> and \<open>ValidateClientName\<close> return an
  error or nothing, as in Go; the lemmas characterise the accepted names and show that an
  accepted name is one plain path element.
\<close>

section \<open>The checks\<close>

text \<open>The character class of the regular expression \<open>^[a-zA-Z0-9*._-]+$\<close>.\<close>

definition domain_char :: "char \<Rightarrow> bool" where
  "domain_char c \<longleftrightarrow> is_lower c \<or> is_upper c \<or> is_digit c
     \<or> c = CHR ''*'' \<or> c = CHR ''.'' \<or> c = CHR ''_'' \<or> c = CHR ''-''"

definition validDomain :: "string \<Rightarrow> bool" where
  "validDomain s \<longleftrightarrow> s \<noteq> [] \<and> list_all domain_char s"

definition windowsReserved :: "string list" where
  "windowsReserved =
     [''CON'', ''PRN'', ''AUX'', ''NUL'',
      ''COM0'', ''COM1'', ''COM2'', ''COM3'', ''COM4'',
      ''COM5'', ''COM6'', ''COM7'', ''COM8'', ''COM9'',
      ''LPT0'', ''LPT1'', ''LPT2'', ''LPT3'', ''LPT4'',
      ''LPT5'', ''LPT6'', ''LPT7'', ''LPT8'', ''LPT9'']"

text \<open>The loop over the labels: the first empty one ends it with an error.\<close>

fun check_labels :: "string list \<Rightarrow> go_error option" where
  "check_labels [] = None"
| "check_labels (label # labels) =
     (if label = []
      then Some (Wrapf [] ErrInvalidName
             '': contains empty label (double dot or leading/trailing dot)'')
      else check_labels labels)"

definition ValidateDomain :: "string \<Rightarrow> go_error option" where
  "ValidateDomain domain =
     (if domain = [] then Some (Wrapf [] ErrInvalidName '': empty'')
      else if \<not> validDomain domain
        then Some (Wrapf [] ErrInvalidName '': contains invalid characters'')
      else check_labels (split_on CHR ''.'' domain))"

text \<open>\<open>base\<close> is the name up to its first dot.\<close>

definition ValidateClientName :: "string \<Rightarrow> go_error option" where
  "ValidateClientName name =
     (case ValidateDomain name of Some err \<Rightarrow> Some err
      | None \<Rightarrow>
        (if CHR ''*'' \<in> set name
           then Some (Wrapf [] ErrInvalidName '': contains invalid characters'')
         else let base = (if CHR ''.'' \<in> set name then takeWhile (\<lambda>c. c \<noteq> CHR ''.'') name else name)
           in if to_upper base \<in> set windowsReserved
             then Some (Wrapf [] ErrInvalidName '': reserved name'') else None))"

section \<open>What the checks accept\<close>

text \<open>The contract, without the order of the checks: the names a DNS label sequence over the
  permitted characters can spell.\<close>

definition domain_name :: "string \<Rightarrow> bool" where
  "domain_name s \<longleftrightarrow> s \<noteq> [] \<and> list_all domain_char s \<and> [] \<notin> set (split_on CHR ''.'' s)"

lemma check_labels_None: "check_labels ls = None \<longleftrightarrow> [] \<notin> set ls"
  by (induction ls) auto

lemma check_labels_error: "check_labels ls = Some e \<Longrightarrow> errors_is_invalid_name e"
  by (induction ls) (auto split: if_splits)

lemma ValidateDomain_None: "ValidateDomain s = None \<longleftrightarrow> domain_name s"
  by (auto simp: ValidateDomain_def domain_name_def validDomain_def check_labels_None)

lemma ValidateDomain_error: "ValidateDomain s = Some e \<Longrightarrow> errors_is_invalid_name e"
  by (auto simp: ValidateDomain_def check_labels_error split: if_splits)

lemma ValidateDomain_text:
  "ValidateDomain s = Some e \<Longrightarrow> error_text e \<in> set
     [''invalid name: empty'', ''invalid name: contains invalid characters'',
      ''invalid name: contains empty label (double dot or leading/trailing dot)'']"
proof -
  have "check_labels ls = Some e \<Longrightarrow> error_text e =
    ''invalid name: contains empty label (double dot or leading/trailing dot)''" for ls
    by (induction ls) (auto split: if_splits)
  moreover assume "ValidateDomain s = Some e"
  ultimately show ?thesis by (auto simp: ValidateDomain_def split: if_splits)
qed

lemma ValidateClientName_error: "ValidateClientName s = Some e \<Longrightarrow> errors_is_invalid_name e"
  by (auto simp: ValidateClientName_def Let_def ValidateDomain_error split: option.splits if_splits)

lemma ValidateClientName_domain: "ValidateClientName s = None \<Longrightarrow> domain_name s"
  by (auto simp: ValidateClientName_def ValidateDomain_None split: option.splits)

lemma domain_char_ascii: "domain_char c \<Longrightarrow> is_ascii c"
  by (auto simp: domain_char_def is_ascii_def is_lower_def is_upper_def is_digit_def)

lemma domain_char_not:
  "\<not> domain_char CHR ''/''" "\<not> domain_char CHR '' ''" "\<not> domain_char CHR ''#''"
  "\<not> domain_char tab" "\<not> domain_char nl" "\<not> domain_char cr"
  "\<not> domain_char CHR 0x00" "\<not> domain_char CHR ''?''" "\<not> domain_char CHR ''%''"
  "\<not> domain_char CHR '':''"
  by (simp_all add: domain_char_def is_lower_def is_upper_def is_digit_def)

lemma domain_name_chars: "domain_name s \<Longrightarrow> c \<in> set s \<Longrightarrow> domain_char c"
  by (simp add: domain_name_def list_all_iff)

text \<open>An accepted name is one plain path element: it has no slash and is neither \<open>.\<close> nor
  \<open>..\<close> (both have empty labels).\<close>

lemma domain_name_plain: "domain_name s \<Longrightarrow> plain s"
  unfolding plain_def
  using domain_name_chars [of s "CHR ''/''"] domain_char_not(1)
  by (auto simp: domain_name_def)

lemma domain_name_ascii: "domain_name s \<Longrightarrow> list_all is_ascii s"
  by (auto simp: domain_name_def list_all_iff domain_char_ascii)

text \<open>The reserved-name check compares the first label in upper case.\<close>

lemma split_hd: "hd (split_on c s) = takeWhile (\<lambda>x. x \<noteq> c) s"
proof (induction s)
  case Nil
  show ?case by simp
next
  case (Cons x xs)
  then show ?case by (cases "split_on c xs") auto
qed

lemma takeWhile_no_sep: "c \<notin> set s \<Longrightarrow> takeWhile (\<lambda>x. x \<noteq> c) s = s"
  by (simp add: takeWhile_eq_all_conv) blast

lemma ValidateClientName_None:
  "ValidateClientName s = None \<longleftrightarrow> domain_name s \<and> CHR ''*'' \<notin> set s \<and>
     map upper_char (hd (split_on CHR ''.'' s)) \<notin> set windowsReserved"
proof (cases "domain_name s")
  case True
  let ?b = "takeWhile (\<lambda>c. c \<noteq> CHR ''.'') s"
  have "list_all is_ascii ?b"
    using domain_name_ascii [OF True] by (auto simp: list_all_iff dest: set_takeWhileD)
  then have u: "to_upper ?b = map upper_char ?b" by (rule to_upper_ascii)
  have b: "(if CHR ''.'' \<in> set s then ?b else s) = ?b" by (simp add: takeWhile_no_sep)
  show ?thesis
    using True by (simp add: ValidateClientName_def Let_def b u split_hd ValidateDomain_None [THEN iffD2])
next
  case False
  then show ?thesis using ValidateClientName_domain by blast
qed

section \<open>Properties\<close>

text \<open>C37. \<open>ValidateDomain\<close> accepts exactly the non-empty names over letters, digits, \<open>*\<close>,
  \<open>.\<close>, \<open>_\<close> and \<open>-\<close> without an empty label, and every rejection is an \<open>ErrInvalidName\<close>
  whose text does not repeat the name.\<close>

theorem ValidateDomain_correct:
  "(case ValidateDomain s of
      None \<Rightarrow> s \<noteq> [] \<and> list_all domain_char s \<and> [] \<notin> set (split_on CHR ''.'' s)
    | Some e \<Rightarrow> \<not> (s \<noteq> [] \<and> list_all domain_char s \<and> [] \<notin> set (split_on CHR ''.'' s)) \<and>
        errors_is_invalid_name e \<and>
        error_text e \<in> {''invalid name: empty'', ''invalid name: contains invalid characters'',
          ''invalid name: contains empty label (double dot or leading/trailing dot)''})"
proof (cases "ValidateDomain s")
  case None
  then show ?thesis using ValidateDomain_None [of s] by (simp add: domain_name_def)
next
  case (Some e)
  then have "\<not> domain_name s" using ValidateDomain_None [of s] by auto
  then show ?thesis
    using Some ValidateDomain_error [OF Some] ValidateDomain_text [OF Some]
    by (auto simp: domain_name_def)
qed

text \<open>A validated domain cannot leave the directory it is used in: joining it and a plain
  file name to any base directory gives the path with exactly these two elements below the
  base, and different domains give different paths.\<close>

theorem validated_domain_is_confined:
  assumes "ValidateDomain d = None" and "ValidateDomain d' = None"
    and "base \<noteq> []" and "plain file"
  shows "path_join [base, d, file] = path_below base [d, file] \<and> plain d \<and>
    (path_join [base, d', file] = path_join [base, d, file] \<longleftrightarrow> d' = d)"
proof -
  have p: "plain d" "plain d'" using assms(1,2) by (simp_all add: ValidateDomain_None domain_name_plain)
  have j: "path_join [base, x, file] = path_below base [x, file]" if "plain x" for x
    using path_join_plain [OF assms(3), of "[x, file]"] that assms(4) by simp
  then show ?thesis
    using p path_below_inj [of base "[d', file]" "[d, file]"] assms(4) by auto
qed

theorem validated_domain_is_confined_witness:
  "ValidateDomain ''*.example.com'' = None \<and>
   path_join [''/srv/certs/'', ''*.example.com'', ''cert.pem'']
     = path_below ''/srv/certs/'' [''*.example.com'', ''cert.pem'']"
proof -
  have v: "ValidateDomain ''*.example.com'' = None"
    by (simp add: ValidateDomain_def validDomain_def domain_char_def is_lower_def is_upper_def
        is_digit_def)
  have "plain ''cert.pem''" by (simp add: plain_def)
  then show ?thesis
    using v validated_domain_is_confined [OF v v, of "''/srv/certs/''" "''cert.pem''"] by simp
qed

text \<open>\<open>ValidateClientName\<close> accepts exactly the valid domain names without a wildcard whose
  first label is not, in any letter case, a reserved device name; every rejection is an
  \<open>ErrInvalidName\<close>.\<close>

theorem ValidateClientName_correct:
  "(case ValidateClientName s of
      None \<Rightarrow> ValidateDomain s = None \<and> CHR ''*'' \<notin> set s \<and>
        map upper_char (hd (split_on CHR ''.'' s)) \<notin> set windowsReserved
    | Some e \<Rightarrow> errors_is_invalid_name e \<and>
        \<not> (ValidateDomain s = None \<and> CHR ''*'' \<notin> set s \<and>
          map upper_char (hd (split_on CHR ''.'' s)) \<notin> set windowsReserved))"
proof (cases "ValidateClientName s")
  case None
  then show ?thesis using ValidateClientName_None [of s] by (simp add: ValidateDomain_None)
next
  case (Some e)
  then have "\<not> (domain_name s \<and> CHR ''*'' \<notin> set s \<and>
      map upper_char (hd (split_on CHR ''.'' s)) \<notin> set windowsReserved)"
    using ValidateClientName_None [of s] by simp
  then show ?thesis
    using Some ValidateClientName_error [OF Some] ValidateDomain_None [of s] by auto
qed

end
