(* ===== verification/Redact.thy ===== *)
theory Redact
  imports GoUrl
begin

text \<open>
  \<open>internal/shared/redact.go\<close> and the server's wrapper \<open>redact.go\<close>: the rendering of a URL
  for the log in which the named query parameters are replaced.
\<close>

section \<open>RedactedURL\<close>

text \<open>The loop over the secret names, with the flag \<open>found\<close>.\<close>

fun redact_names :: "string list \<Rightarrow> url_values \<times> bool \<Rightarrow> url_values \<times> bool" where
  "redact_names [] acc = acc"
| "redact_names (name # names) (q, found) =
     (if values_has q name then redact_names names (values_set name ''REDACTED'' q, True)
      else redact_names names (q, found))"

definition RedactedURL :: "url option \<Rightarrow> string list \<Rightarrow> string" where
  "RedactedURL u secretNames =
     (case u of None \<Rightarrow> []
      | Some u \<Rightarrow>
        (if u_raw_query u = [] then url_string u
         else (case parse_query (u_raw_query u) of
             (_, Some err) \<Rightarrow> url_string (u\<lparr>u_raw_query := ''REDACTED'', u_force_query := True\<rparr>)
           | (q, None) \<Rightarrow>
             (case redact_names secretNames (q, False) of (q', found) \<Rightarrow>
                (if \<not> found then url_string u
                 else url_string (u\<lparr>u_raw_query := values_encode q'\<rparr>))))))"

definition redactedURL :: "url \<Rightarrow> string" where
  "redactedURL u = RedactedURL (Some u) [''pass'']"

section \<open>Lemmas\<close>

lemma redact_pass: "redact_names [''pass''] (q, False) =
    (if values_has q ''pass'' then (values_set ''pass'' ''REDACTED'' q, True) else (q, False))"
  by simp

text \<open>Overwriting a parameter forgets its value.\<close>

lemma values_set_set: "map_of (values_set k x (values_set k y v)) = map_of (values_set k x v)"
  by (simp add: map_of_values_set)

lemma has_set [simp]: "values_has (values_set k x v) k"
  by (simp add: values_has_def map_of_values_set)

lemma in_concat_map: "k \<in> set ks \<Longrightarrow> p \<in> set (f k) \<Longrightarrow> p \<in> set (concat (map f ks))"
  by auto

lemma encode_set_nonempty: "values_encode (values_set k x v) \<noteq> []"
proof -
  let ?w = "values_set k x v"
  have m: "map_of ?w k = Some [x]" by (simp add: map_of_values_set)
  then have "(k, [x]) \<in> set ?w" by (rule map_of_SomeD)
  then have "k \<in> set (sort (map fst ?w))" by (force simp: image_iff)
  moreover have "(k, x) \<in> set (map (Pair k) (case map_of ?w k of None \<Rightarrow> [] | Some xs \<Rightarrow> xs))"
    by (simp add: m)
  ultimately have "(k, x) \<in> set (values_pairs ?w)"
    unfolding values_pairs_def by (rule in_concat_map)
  then show ?thesis
    by (cases "values_pairs ?w") (simp_all add: values_encode_def join_Cons encode_pair_def)
qed

lemma length_pairs: "length (values_pairs v) =
    sum_list (map (\<lambda>k. length (case map_of v k of None \<Rightarrow> [] | Some xs \<Rightarrow> xs)) (sort (map fst v)))"
  by (simp add: values_pairs_def length_concat comp_def)

lemma keys_set: "map fst (values_set k x v) = map fst (values_set k y v)"
  unfolding values_set_def by (induction v) auto

lemma length_pairs_set:
  "length (values_pairs (values_set k x v)) = length (values_pairs (values_set k y v))"
proof -
  have "length (case map_of (values_set k x v) k' of None \<Rightarrow> [] | Some xs \<Rightarrow> xs) =
        length (case map_of (values_set k y v) k' of None \<Rightarrow> [] | Some xs \<Rightarrow> xs)" for k'
    by (simp add: map_of_values_set)
  then show ?thesis unfolding length_pairs keys_set [of k x v y] by simp
qed

lemma parse_query_too_many:
  assumes "max_params < length (values_pairs v)"
  shows "snd (parse_query (values_encode v)) \<noteq> None"
proof -
  have n: "map encode_pair (values_pairs v) \<noteq> []" using assms by (auto simp: max_params_def)
  have "\<forall>x\<in>set (map encode_pair (values_pairs v)). CHR ''&'' \<notin> set x"
    using encode_pair_no_sep [OF separators_not_component(1)] by auto
  then have "split_on CHR ''&'' (values_encode v) = map encode_pair (values_pairs v)"
    unfolding values_encode_def using n by (intro split_on_join)
  then show ?thesis using assms by (simp add: parse_query_def)
qed

text \<open>What is logged for a URL that carries a password: the values with the password
  overwritten, or the word alone when there are too many of them.\<close>

lemma RedactedURL_set:
  assumes "wf_values v"
  shows "RedactedURL (Some (u\<lparr>u_raw_query := values_encode (values_set ''pass'' p v)\<rparr>)) [''pass''] =
    (if max_params < length (values_pairs (values_set ''pass'' p v))
     then url_string (u\<lparr>u_raw_query := ''REDACTED'', u_force_query := True\<rparr>)
     else url_string (u\<lparr>u_raw_query := values_encode (values_set ''pass'' ''REDACTED'' v)\<rparr>))"
proof -
  let ?w = "values_set ''pass'' p v"
  have w: "wf_values ?w" by (rule wf_values_set [OF assms])
  have n: "values_encode ?w \<noteq> []" by (rule encode_set_nonempty)
  show ?thesis
  proof (cases "max_params < length (values_pairs ?w)")
    case True
    then obtain e q where "parse_query (values_encode ?w) = (q, Some e)"
      using parse_query_too_many [OF True] by (cases "parse_query (values_encode ?w)") auto
    then show ?thesis using True n by (simp add: RedactedURL_def)
  next
    case False
    then obtain q where q: "parse_query (values_encode ?w) = (q, None)" and m: "map_of q = map_of ?w"
      using parse_encode [OF w] by (cases "parse_query (values_encode ?w)") auto
    have wq: "wf_values q" using wf_parse_query [of "values_encode ?w"] by (simp add: q)
    have "values_has q ''pass''" using has_set [of "''pass''" p v] by (simp add: values_has_def m)
    moreover have "values_encode (values_set ''pass'' ''REDACTED'' q) =
        values_encode (values_set ''pass'' ''REDACTED'' v)"
      by (rule values_encode_cong [OF wf_values_set [OF wq] wf_values_set [OF assms]])
        (simp add: map_of_values_set m)
    ultimately show ?thesis using False n q by (simp add: RedactedURL_def)
  qed
qed

section \<open>Properties\<close>

text \<open>C38. The logged form of a URL does not depend on the password in its query: for any two
  passwords, and whatever other parameters the request carries, the same text is logged.\<close>

theorem password_never_logged:
  assumes "wf_values v"
  shows "RedactedURL (Some (u\<lparr>u_raw_query := values_encode (values_set ''pass'' p v)\<rparr>)) [''pass'']
       = RedactedURL (Some (u\<lparr>u_raw_query := values_encode (values_set ''pass'' p' v)\<rparr>)) [''pass'']"
  by (simp only: RedactedURL_set [OF assms] length_pairs_set [of "''pass''" p v p'])

theorem password_never_logged_witness:
  "RedactedURL (Some (empty_url\<lparr>u_raw_query := values_encode (values_set ''pass'' ''hunter2'' [(''format'', [''PKCS12''])])\<rparr>)) [''pass'']
   = RedactedURL (Some (empty_url\<lparr>u_raw_query := values_encode (values_set ''pass'' ''a&b=c'' [(''format'', [''PKCS12''])])\<rparr>)) [''pass'']"
  by (rule password_never_logged) (simp add: wf_values_def)

text \<open>Redaction for an arbitrary query, however it is spelled: if the query holds a
  password or does not parse, the logged URL is the given one with another query, which is
  the word \<open>REDACTED\<close> or parses to the same parameters with the password replaced.\<close>

theorem redaction_of_any_query:
  assumes "u_raw_query u \<noteq> []"
    and "values_has (url_query u) ''pass'' \<or> snd (parse_query (u_raw_query u)) \<noteq> None"
    and "length (values_pairs (values_set ''pass'' ''REDACTED'' (url_query u))) \<le> max_params"
  shows "\<exists>q force. RedactedURL (Some u) [''pass''] = url_string (u\<lparr>u_raw_query := q, u_force_query := force\<rparr>) \<and>
    (q = ''REDACTED'' \<or>
     map_of (fst (parse_query q)) = (map_of (url_query u))(''pass'' \<mapsto> [''REDACTED'']))"
proof (cases "parse_query (u_raw_query u)")
  case (Pair v err)
  then have v: "url_query u = v" by (simp add: url_query_def)
  show ?thesis
  proof (cases err)
    case (Some e)
    then show ?thesis using Pair assms(1) by (auto simp: RedactedURL_def)
  next
    case None
    let ?w = "values_set ''pass'' ''REDACTED'' v"
    have "values_has v ''pass''" using assms(2) Pair None v by simp
    then have r: "RedactedURL (Some u) [''pass''] =
        url_string (u\<lparr>u_raw_query := values_encode ?w, u_force_query := u_force_query u\<rparr>)"
      using Pair None assms(1) by (simp add: RedactedURL_def)
    have "wf_values ?w" using wf_parse_query [of "u_raw_query u"] Pair by (simp add: wf_values_set)
    then have "map_of (fst (parse_query (values_encode ?w))) = map_of ?w"
      using assms(3) v by (intro parse_encode(2)) simp_all
    then show ?thesis using r v by (metis map_of_values_set)
  qed
qed

theorem redaction_of_any_query_witness:
  "\<exists>q force. RedactedURL (Some (empty_url\<lparr>u_path := ''/v1/x'', u_raw_query := ''pass=a;b''\<rparr>)) [''pass'']
     = url_string ((empty_url\<lparr>u_path := ''/v1/x'', u_raw_query := ''pass=a;b''\<rparr>)\<lparr>u_raw_query := q, u_force_query := force\<rparr>)
   \<and> (q = ''REDACTED'' \<or> map_of (fst (parse_query q)) =
        (map_of (url_query (empty_url\<lparr>u_path := ''/v1/x'', u_raw_query := ''pass=a;b''\<rparr>)))(''pass'' \<mapsto> [''REDACTED'']))"
proof -
  have p: "parse_query ''pass=a;b'' = ([], Some bad_query)"
    by (simp add: parse_query_def max_params_def parse_pair_def)
  show ?thesis
    by (rule redaction_of_any_query)
      (simp_all add: empty_url_def p url_query_def values_set_def values_pairs_def max_params_def)
qed

text \<open>A URL without a password, and one without a query, is logged as it is.\<close>

theorem harmless_urls_logged_verbatim:
  assumes "u_raw_query u = [] \<or> snd (parse_query (u_raw_query u)) = None \<and> \<not> values_has (url_query u) ''pass''"
  shows "redactedURL u = url_string u"
  using assms by (auto simp: redactedURL_def RedactedURL_def url_query_def split: prod.splits option.splits)

theorem harmless_urls_logged_verbatim_witness:
  "redactedURL (empty_url\<lparr>u_path := ''/v1/x'', u_raw_query := ''format=PEM''\<rparr>)
     = url_string (empty_url\<lparr>u_path := ''/v1/x'', u_raw_query := ''format=PEM''\<rparr>)"
  by (rule harmless_urls_logged_verbatim)
    (simp add: empty_url_def url_query_def parse_query_def max_params_def parse_pair_def cut_def
      values_add_def values_has_def)

end
