(* ===== verification/Server.thy ===== *)
theory Server
  imports Http Validate Lists Redact
begin

text \<open>
  \<open>cmd/cert-proxy-server\<close>: the request handlers (\<open>auth.go\<close>, \<open>cnlist.go\<close>, \<open>version.go\<close>,
  \<open>pkcs12.go\<close>, \<open>serve.go\<close>) and the router (\<open>main.go\<close>).  The server only reads the file
  system, so it is part of the environment of a request.  The handlers of one request share a
  state: the context map of Go's \<open>use\<close>, the response being written and the log.

  Parameters, from packages the sources only call: \<open>encoding/pem\<close> and \<open>crypto/x509\<close> parsing,
  and the PKCS12 encoder of \<open>go-pkcs12\<close>, over abstract types of keys and certificates.
  \<open>sv_range\<close> is the order in which a \<open>range\<close> visits a map.
\<close>

section \<open>Environment and state\<close>

datatype pkcs12_encoder = Modern2023 | LegacyDES

record ('k, 'c) crypto =
  pem_decode :: "string \<Rightarrow> (string \<times> string) option"
  parse_pkcs8 :: "string \<Rightarrow> go_error + 'k"
  parse_pkcs1 :: "string \<Rightarrow> go_error + 'k"
  parse_ec :: "string \<Rightarrow> go_error + 'k"
  parse_x509 :: "string \<Rightarrow> go_error + 'c"
  pkcs12_encode :: "pkcs12_encoder \<Rightarrow> 'k \<Rightarrow> 'c \<Rightarrow> 'c list \<Rightarrow> string \<Rightarrow> go_error + string"

record ('k, 'c) server =
  sv_certbase :: string
  sv_ccd :: string
  sv_verbose :: bool
  sv_version :: string
  sv_fs :: fs
  sv_crypto :: "('k, 'c) crypto"
  sv_range :: "uniq_strings \<Rightarrow> string list"
  sv_format_time :: "int \<Rightarrow> string"
  sv_parse_time :: "string \<Rightarrow> int option"

datatype context_key = REMOTE | DOMAIN

type_synonym ctx_map = "context_key \<rightharpoonup> string"

text \<open>Reading a missing key of a Go map gives the zero value.\<close>

definition ctx_get :: "ctx_map \<Rightarrow> context_key \<Rightarrow> string" where
  "ctx_get ctx k = (case ctx k of None \<Rightarrow> [] | Some v \<Rightarrow> v)"

record hstate =
  h_ctx :: ctx_map
  h_resp :: response
  h_log :: "string list"

definition init_hstate :: hstate where
  "init_hstate = \<lparr>h_ctx = Map.empty, h_resp = new_response, h_log = []\<rparr>"

text \<open>How a handler ends: no error, an error, a panic, or never.\<close>

datatype hres = HOk | HErr go_error | HPanic string | HNoReturn

definition respond_error :: "string \<Rightarrow> nat \<Rightarrow> hstate \<Rightarrow> hstate" where
  "respond_error text c s = s\<lparr>h_resp := http_Error text c (h_resp s)\<rparr>"

definition log_printf :: "string \<Rightarrow> hstate \<Rightarrow> hstate" where
  "log_printf t s = s\<lparr>h_log := h_log s @ [t]\<rparr>"

section \<open>cnlist.go\<close>

definition cnList :: "('k, 'c) server \<Rightarrow> string \<Rightarrow> go_error + uniq_strings" where
  "cnList env cn =
     (case ValidateClientName cn of Some err \<Rightarrow> Inl err
      | None \<Rightarrow>
        (case http_dir_open (sv_fs env) (sv_ccd env) cn of Inl err \<Rightarrow> Inl err
         | Inr cc \<Rightarrow>
           (case AddItemsFromReader uniq_add {} (file_reader (sv_fs env) cc) of
              (_, Some err) \<Rightarrow> Inl err
            | (cns, None) \<Rightarrow>
                (case file_close (sv_fs env) cc of Some err \<Rightarrow> Inl err | None \<Rightarrow> Inr cns))))"

section \<open>auth.go\<close>

definition no_client_cert :: go_error where
  "no_client_cert = Msg ''no (valid) client certificate''"

definition required_syntax :: go_error where
  "required_syntax = Msg ''required syntax: /v1/<req>[/<domain>]''"

definition authn :: "request \<Rightarrow> hstate \<Rightarrow> hstate \<times> hres" where
  "authn req s =
     (case rq_tls req of
        None \<Rightarrow> (s, HPanic ''invalid memory address or nil pointer dereference'')
      | Some [] \<Rightarrow>
          (respond_error (error_text no_client_cert) StatusUnauthorized s, HErr no_client_cert)
      | Some (c # _) \<Rightarrow> (s\<lparr>h_ctx := (h_ctx s)(REMOTE \<mapsto> c)\<rparr>, HOk))"

text \<open>The answer to a failing \<open>cnList\<close>, written twice in the sources (\<open>auth.go\<close>, \<open>serve.go\<close>).\<close>

definition cnList_failed :: "go_error \<Rightarrow> hstate \<Rightarrow> hstate" where
  "cnList_failed err s =
     (if os_is_not_exist err \<or> errors_is_invalid_name err
      then respond_error ''unauthorized'' StatusUnauthorized s
      else respond_error (error_text err) StatusInternalServerError s)"

definition not_authorized :: "string \<Rightarrow> string \<Rightarrow> go_error" where
  "not_authorized cn domain = Msg (''client '' @ cn @ '' not authorized for '' @ domain)"

definition authz :: "('k, 'c) server \<Rightarrow> request \<Rightarrow> hstate \<Rightarrow> hstate \<times> hres" where
  "authz env req s =
     (case authn req s of
        (s1, HOk) \<Rightarrow>
          (let parts = split_on CHR ''/'' (u_path (rq_url req)) in
           if length parts < 4 then
             (respond_error (error_text required_syntax) StatusBadRequest s1, HErr required_syntax)
           else
             (let s2 = s1\<lparr>h_ctx := (h_ctx s1)(DOMAIN \<mapsto> parts ! 3)\<rparr> in
              (case cnList env (ctx_get (h_ctx s2) REMOTE) of
                 Inl err \<Rightarrow> (cnList_failed err s2, HErr err)
               | Inr allowedDomains \<Rightarrow>
                   (if ctx_get (h_ctx s2) DOMAIN \<in> allowedDomains then (s2, HOk)
                    else let err = not_authorized (ctx_get (h_ctx s2) REMOTE) (ctx_get (h_ctx s2) DOMAIN)
                      in (respond_error (error_text err) StatusUnauthorized s2, HErr err)))))
      | (s1, r) \<Rightarrow> (s1, r))"

section \<open>version.go\<close>

definition versionCheck :: "('k, 'c) server \<Rightarrow> request \<Rightarrow> hstate \<Rightarrow> hstate" where
  "versionCheck env req s =
     (if ctx_get (h_ctx s) REMOTE = [] \<and> (rq_tls req = None \<or> rq_tls req = Some []) then s
      else s\<lparr>h_resp := header_add ''X-Version'' (sv_version env) (h_resp s)\<rparr>)"

section \<open>pkcs12.go\<close>

definition pkcs12Encoder :: "string \<Rightarrow> go_error + pkcs12_encoder" where
  "pkcs12Encoder compt =
     (if compt = ''modern'' \<or> compt = [] then Inr Modern2023
      else if compt = ''legacy'' then Inr LegacyDES
      else Inl (Wrapf [] ErrInvalidCompat ('' '' @ quote compt)))"

definition no_pem_block :: go_error where
  "no_pem_block = Msg ''no PEM block found''"

definition parsePrivateKey :: "('k, 'c) crypto \<Rightarrow> string \<Rightarrow> go_error + 'k" where
  "parsePrivateKey cry pemData =
     (case pem_decode cry pemData of None \<Rightarrow> Inl no_pem_block
      | Some (block, _) \<Rightarrow>
        (case parse_pkcs8 cry block of Inr key \<Rightarrow> Inr key
         | Inl _ \<Rightarrow>
           (case parse_pkcs1 cry block of Inr key \<Rightarrow> Inr key
            | Inl _ \<Rightarrow>
              (case parse_ec cry block of Inr key \<Rightarrow> Inr key
               | Inl _ \<Rightarrow> Inl (Msg ''unsupported private key type'')))))"

definition parseCertificate :: "('k, 'c) crypto \<Rightarrow> string \<Rightarrow> go_error + 'c" where
  "parseCertificate cry pemData =
     (case pem_decode cry pemData of None \<Rightarrow> Inl no_pem_block
      | Some (block, _) \<Rightarrow> parse_x509 cry block)"

text \<open>The loop over the blocks ends because every block uses up data; that is a fact about
  \<open>pem.Decode\<close>, so the loop is a partial function: \<open>None\<close> if it never returns.\<close>

partial_function (option) parseCertificates_loop ::
    "('k, 'c) crypto \<Rightarrow> string \<Rightarrow> 'c list \<Rightarrow> (go_error + 'c list) option" where
  "parseCertificates_loop cry pemData certs =
     (case pem_decode cry pemData of None \<Rightarrow> Some (Inr certs)
      | Some (block, rest) \<Rightarrow>
        (case parse_x509 cry block of Inl err \<Rightarrow> Some (Inl err)
         | Inr cert \<Rightarrow> parseCertificates_loop cry rest (certs @ [cert])))"

definition parseCertificates :: "('k, 'c) crypto \<Rightarrow> string \<Rightarrow> (go_error + 'c list) option" where
  "parseCertificates cry pemData = parseCertificates_loop cry pemData []"

definition wrap :: "string \<Rightarrow> go_error \<Rightarrow> go_error" where
  "wrap what e = Wrapf (what @ '': '') e []"

text \<open>\<open>createPKCS12\<close> returns the bundle and the modification time of the certificate.\<close>

definition createPKCS12 ::
    "('k, 'c) server \<Rightarrow> string \<Rightarrow> string \<Rightarrow> string \<Rightarrow> (go_error + string \<times> int) option" where
  "createPKCS12 env domain pass compt =
     (let cry = sv_crypto env; f = sv_fs env;
          certPath = path_join [sv_certbase env, domain, ''cert.pem''];
          keyPath = path_join [sv_certbase env, domain, ''privkey.pem''];
          chainPath = path_join [sv_certbase env, domain, ''chain.pem'']
      in case pkcs12Encoder compt of Inl err \<Rightarrow> Some (Inl err)
       | Inr encoder \<Rightarrow>
      (case os_stat f certPath of Inl err \<Rightarrow> Some (Inl err)
       | Inr fi \<Rightarrow>
      (case os_read_file f keyPath of Inl err \<Rightarrow> Some (Inl err)
       | Inr keyPEM \<Rightarrow>
      (case os_read_file f certPath of Inl err \<Rightarrow> Some (Inl err)
       | Inr certPEM \<Rightarrow>
      (case os_read_file f chainPath of Inl err \<Rightarrow> Some (Inl err)
       | Inr chainPEM \<Rightarrow>
      (case parsePrivateKey cry keyPEM of Inl err \<Rightarrow> Some (Inl (wrap ''parsing private key'' err))
       | Inr privateKey \<Rightarrow>
      (case parseCertificate cry certPEM of Inl err \<Rightarrow> Some (Inl (wrap ''parsing certificate'' err))
       | Inr cert \<Rightarrow>
      (case parseCertificates cry chainPEM of None \<Rightarrow> None
       | Some (Inl err) \<Rightarrow> Some (Inl (wrap ''parsing chain'' err))
       | Some (Inr chainCerts) \<Rightarrow>
      (case pkcs12_encode cry encoder privateKey cert chainCerts pass of
         Inl err \<Rightarrow> Some (Inl (wrap ''encoding PKCS12'' err))
       | Inr pfxData \<Rightarrow> Some (Inr (pfxData, mod_time fi)))))))))))"

section \<open>serve.go\<close>

definition fileError :: "go_error \<Rightarrow> hstate \<Rightarrow> hstate \<times> hres" where
  "fileError err s =
     ((if errors_is_not_exist err then respond_error ''not found'' StatusNotFound s
       else respond_error ''internal error'' StatusInternalServerError s), HErr err)"

definition serve_log :: "('k, 'c) server \<Rightarrow> request \<Rightarrow> hstate \<Rightarrow> hstate" where
  "serve_log env req s =
     (if \<not> sv_verbose env then s
      else log_printf
        (''Serving url='' @ redactedURL (rq_url req)
         @ (let i = header_get (rq_headers req) ''If-Modified-Since'' in if i \<noteq> [] then '' ims='' @ i else [])
         @ (let r = ctx_get (h_ctx s) REMOTE in if r \<noteq> [] then '' cn='' @ r else [])
         @ [nl]) s)"

text \<open>The extension the \<open>format\<close> parameter selects.\<close>

definition format_ext :: "string \<Rightarrow> go_error + string" where
  "format_ext format =
     (if format = ''PEM'' \<or> format = [] then Inr ''.pem''
      else if format = ''PKCS12'' \<or> format = ''PFX'' \<or> format = ''P12'' then Inr ''.p12''
      else Inl (Msg (''invalid format `'' @ format @ ''`'')))"

text \<open>Role and domain of the path: \<open>[0]/[1]v1/[2]role/[3]domain\<close>.\<close>

definition role_domain :: "string \<Rightarrow> (string \<times> string) option" where
  "role_domain p =
     (let parts = split_on CHR ''/'' p in
      if length parts = 4 then Some (parts ! 2, parts ! 3)
      else if length parts = 3 then Some (parts ! 2, []) else None)"

definition serve_file :: "('k, 'c) server \<Rightarrow> request \<Rightarrow> content \<Rightarrow> int \<Rightarrow> hstate \<Rightarrow> hstate \<times> hres" where
  "serve_file env req c mtime s =
     (s\<lparr>h_resp := ServeContent (sv_format_time env) (sv_parse_time env) (sv_fs env) req mtime c (h_resp s)\<rparr>, HOk)"

text \<open>Serving an opened file: \<open>Stat\<close> gives the modification time.\<close>

definition serve_handle :: "('k, 'c) server \<Rightarrow> request \<Rightarrow> handle \<Rightarrow> hstate \<Rightarrow> hstate \<times> hres" where
  "serve_handle env req file s =
     (case file_stat (sv_fs env) file of Inl err \<Rightarrow> fileError err s
      | Inr fi \<Rightarrow> serve_file env req (FileContent file) (mod_time fi) s)"

definition serve_list :: "('k, 'c) server \<Rightarrow> hstate \<Rightarrow> hstate \<times> hres" where
  "serve_list env s =
     (case cnList env (ctx_get (h_ctx s) REMOTE) of
        Inl err \<Rightarrow> (cnList_failed err s, HErr err)
      | Inr domains \<Rightarrow>
          (s\<lparr>h_resp := write_body (join [nl] (uniq_items (sv_range env domains)) @ [nl]) (h_resp s)\<rparr>, HOk))"

definition pass_missing_warning :: "request \<Rightarrow> hstate \<Rightarrow> string" where
  "pass_missing_warning req s =
     ''Remote '' @ rq_remote_addr req @ '' cn='' @ ctx_get (h_ctx s) REMOTE
     @ '': bundle request without pass=; treating as empty password (deprecated, will be rejected in a future major release)''"

definition serve_bundle ::
    "('k, 'c) server \<Rightarrow> request \<Rightarrow> string \<Rightarrow> string \<Rightarrow> string \<Rightarrow> hstate \<Rightarrow> hstate \<times> hres" where
  "serve_bundle env req role domain ext s =
     (case http_dir_open (sv_fs env) (sv_certbase env) (path_join [domain, role @ ext]) of
        Inr file \<Rightarrow> serve_handle env req file s
      | Inl err \<Rightarrow>
          (if os_is_not_exist err then
             (let q = url_query (rq_url req);
                  s1 = (if values_has q ''pass'' then s else log_printf (pass_missing_warning req s) s)
              in case createPKCS12 env domain (values_get q ''pass'') (values_get q ''pkcs12-compat'') of
                   None \<Rightarrow> (s1, HNoReturn)
                 | Some (Inl err2) \<Rightarrow>
                     (if errors_is_invalid_compat err2
                      then (respond_error (error_text ErrInvalidCompat) StatusBadRequest s1, HErr err2)
                      else fileError err2 s1)
                 | Some (Inr (pfx, mtime)) \<Rightarrow> serve_file env req (BytesContent pfx) mtime s1)
           else fileError err s))"

definition serve_role ::
    "('k, 'c) server \<Rightarrow> request \<Rightarrow> string \<Rightarrow> string \<Rightarrow> string \<Rightarrow> hstate \<Rightarrow> hstate \<times> hres" where
  "serve_role env req role domain ext s =
     (if role = ''list'' then serve_list env s
      else if role = ''bundle'' then serve_bundle env req role domain ext s
      else if role = ''cert'' \<or> role = ''chain'' \<or> role = ''fullchain'' \<or> role = ''privkey'' then
        (case http_dir_open (sv_fs env) (sv_certbase env) (path_join [domain, role @ ext]) of
           Inl err \<Rightarrow> fileError err s
         | Inr file \<Rightarrow> serve_handle env req file s)
      else let err = Msg (''invalid request `'' @ role @ ''`'')
        in (respond_error (error_text err) StatusBadRequest s, HErr err))"

definition serve :: "('k, 'c) server \<Rightarrow> request \<Rightarrow> hstate \<Rightarrow> hstate \<times> hres" where
  "serve env req s0 =
     (let s = versionCheck env req (serve_log env req s0) in
      case format_ext (to_upper (values_get (url_query (rq_url req)) ''format'')) of
        Inl err \<Rightarrow> (respond_error (error_text err) StatusBadRequest s, HErr err)
      | Inr ext \<Rightarrow>
        (case role_domain (u_path (rq_url req)) of
           None \<Rightarrow> (respond_error (error_text required_syntax) StatusBadRequest s, HErr required_syntax)
         | Some (role, domain) \<Rightarrow> serve_role env req role domain ext s))"

section \<open>main.go: the handler chain and the router\<close>

datatype handler = Authn | Authz | Serve

definition run_handler :: "('k, 'c) server \<Rightarrow> request \<Rightarrow> handler \<Rightarrow> hstate \<Rightarrow> hstate \<times> hres" where
  "run_handler env req h s =
     (case h of Authn \<Rightarrow> authn req s | Authz \<Rightarrow> authz env req s | Serve \<Rightarrow> serve env req s)"

text \<open>\<open>use\<close>: the handlers in order, the first error ends the request and is logged.\<close>

fun use_loop :: "('k, 'c) server \<Rightarrow> request \<Rightarrow> handler list \<Rightarrow> hstate \<Rightarrow> hstate \<times> hres" where
  "use_loop env req [] s = (s, HOk)"
| "use_loop env req (h # hs) s =
     (case run_handler env req h s of
        (s', HOk) \<Rightarrow> use_loop env req hs s'
      | (s', HErr err) \<Rightarrow>
          (log_printf (''Remote '' @ rq_remote_addr req @ '': '' @ error_text err) s', HErr err)
      | (s', r) \<Rightarrow> (s', r))"

definition use_chain :: "('k, 'c) server \<Rightarrow> handler list \<Rightarrow> request \<Rightarrow> hstate \<times> hres" where
  "use_chain env hs req = use_loop env req hs init_hstate"

definition newMux :: "(string \<times> handler list) list" where
  "newMux =
     [(''/v1/list'', [Authn, Serve]),
      (''/v1/cert/'', [Serve]),
      (''/v1/chain/'', [Serve]),
      (''/v1/fullchain/'', [Serve]),
      (''/v1/privkey/'', [Authz, Serve]),
      (''/v1/bundle/'', [Authz, Serve])]"

definition handle_request :: "('k, 'c) server \<Rightarrow> request \<Rightarrow> (hstate \<times> hres) route" where
  "handle_request env req =
     (case mux_route newMux req of
        Redirect p \<Rightarrow> Redirect p | NoHandler \<Rightarrow> NoHandler
      | Dispatch hs \<Rightarrow> Dispatch (use_chain env hs req))"

end
