(* ===== verification/Routing.thy ===== *)
theory Routing
  imports Server
begin

text \<open>
  What the router passes on.  \<open>ServeMux\<close> matches the percent-encoded path segment by segment,
  the handlers split the decoded path.  The lemmas relate the two: a handler chain only runs on
  a decoded path whose second element is the one of its pattern.
\<close>

section \<open>Decoding and splitting\<close>

lemma unescape_escape_path_char:
  "unescape EncodePath (escape_char EncodePath c @ t) =
     map_option (\<lambda>s. c # s) (unescape EncodePath t)"
proof (cases "should_escape EncodePath c")
  case True
  then show ?thesis
    by (simp add: escape_char_def unhex_upper_hex hex_digits escape_allowed_def)
next
  case False
  moreover have "should_escape EncodePath CHR ''%''"
    using not_alnum by (simp add: should_escape_def)
  ultimately show ?thesis by (auto simp: escape_char_def)
qed

lemma unescape_escape_path: "unescape EncodePath (escape EncodePath s) = Some s"
proof (induction s)
  case Nil
  show ?case by (simp add: escape_def)
next
  case (Cons c s)
  have "escape EncodePath (c # s) = escape_char EncodePath c @ escape EncodePath s"
    by (simp add: escape_def)
  then show ?case by (simp only: unescape_escape_path_char Cons.IH) simp
qed

lemma unescape_escaped_path: "unescape EncodePath (escaped_path u) = Some (u_path u)"
  by (auto simp: escaped_path_def escaped_with_hint_def unescape_escape_path)

lemma unhex_not_slash: "unhex a = Some n \<Longrightarrow> a \<noteq> CHR ''/''"
  by (auto simp: unhex_def)

lemma join_head: "ys \<noteq> [] \<Longrightarrow> join sep ((c # y) # ys) = c # join sep (y # ys)"
  by (cases ys) auto

lemma join_map_head:
  "join sep (map g ((c # y) # ys)) = d @ join sep (map g (y # ys))"
  if "g (c # y) = d @ g y"
  using that by (cases ys) auto

lemma split_on_Cons_other: "c \<noteq> x \<Longrightarrow>
    split_on c (x # s) = (x # hd (split_on c s)) # tl (split_on c s)"
  by (cases "split_on c s") auto

text \<open>Decoding goes segment by segment: every segment decodes, and the decoded segments make up
  the decoded path.\<close>

definition decoded_segments :: "string \<Rightarrow> string list option" where
  "decoded_segments s = those (map (unescape EncodePath) (split_on CHR ''/'' s))"

lemma those_Cons: "those (x # xs) = (case x of None \<Rightarrow> None | Some y \<Rightarrow> map_option ((#) y) (those xs))"
  by simp

lemma join_prepend: "xs \<noteq> [] \<Longrightarrow> join sep ((y @ hd xs) # tl xs) = y @ join sep xs"
  by (cases xs; cases "tl xs") auto

lemma append_single: "(@) [x] = (#) x"
  by (simp add: fun_eq_iff)

lemma decoded_segments_head:
  assumes "split_on CHR ''/'' s' = (p @ hd (split_on CHR ''/'' s)) # tl (split_on CHR ''/'' s)"
    and "\<And>q. unescape EncodePath (p @ q) = map_option ((@) d) (unescape EncodePath q)"
    and "decoded_segments s = Some segs"
  shows "\<exists>segs'. decoded_segments s' = Some segs' \<and> join ''/'' segs' = d @ join ''/'' segs"
proof -
  obtain x xs where sp: "split_on CHR ''/'' s = x # xs" by (cases "split_on CHR ''/'' s") auto
  then obtain y ys where "unescape EncodePath x = Some y"
      "those (map (unescape EncodePath) xs) = Some ys" "segs = y # ys"
    using assms(3) by (auto simp: decoded_segments_def split: option.splits)
  then have "decoded_segments s' = Some ((d @ y) # ys)"
    using assms(1,2) sp by (simp add: decoded_segments_def)
  then show ?thesis using join_prepend [of segs "''/''" d] \<open>segs = y # ys\<close> by simp
qed

lemma decoded_segments_join:
  "unescape EncodePath s = Some t \<Longrightarrow>
     \<exists>segs. decoded_segments s = Some segs \<and> join ''/'' segs = t"
proof (induction EncodePath s arbitrary: t rule: unescape.induct)
  case 1
  then show ?case by (simp add: decoded_segments_def)
next
  case (2 c s)
  show ?case
  proof (cases "c = CHR ''%''")
    case True
    then obtain a b r x y t' where s: "s = a # b # r" and h: "unhex a = Some x" "unhex b = Some y"
      and e: "escape_allowed EncodePath x y" and t': "unescape EncodePath r = Some t'"
      and t: "t = char_of (16 * x + y) # t'"
      using "2.prems" by (auto split: list.splits option.splits if_splits)
    have "\<exists>segs. decoded_segments r = Some segs \<and> join ''/'' segs = t'"
      using True s h e t' by (intro "2.hyps"(1)) auto
    then obtain segs where segs: "decoded_segments r = Some segs" "join ''/'' segs = t'" by blast
    have "split_on CHR ''/'' (c # s) =
        ([c, a, b] @ hd (split_on CHR ''/'' r)) # tl (split_on CHR ''/'' r)"
      using True s unhex_not_slash [OF h(1)] unhex_not_slash [OF h(2)]
      by (simp add: split_on_Cons_other del: split_on.simps)
    moreover have "unescape EncodePath ([c, a, b] @ q) =
        map_option ((@) [char_of (16 * x + y)]) (unescape EncodePath q)" for q
      using True h e by (simp add: append_single)
    ultimately show ?thesis using decoded_segments_head [OF _ _ segs(1)] segs(2) t by fastforce
  next
    case False
    then obtain t' where t': "unescape EncodePath s = Some t'" and t: "t = c # t'"
      using "2.prems" by auto
    obtain segs where segs: "decoded_segments s = Some segs" "join ''/'' segs = t'"
      using "2.hyps" False t' by auto
    show ?thesis
    proof (cases "c = CHR ''/''")
      case True
      have "decoded_segments (c # s) = Some ([] # segs)"
        using segs(1) True by (simp add: decoded_segments_def)
      moreover have "segs \<noteq> []"
        using segs(1) by (cases "split_on CHR ''/'' s") (auto simp: decoded_segments_def split: option.splits)
      ultimately show ?thesis using segs(2) t True by (auto simp: join_Cons)
    next
      case c: False
      have "split_on CHR ''/'' (c # s) = ([c] @ hd (split_on CHR ''/'' s)) # tl (split_on CHR ''/'' s)"
        using c by (simp add: split_on_Cons_other del: split_on.simps)
      moreover have "unescape EncodePath ([c] @ q) = map_option ((@) [c]) (unescape EncodePath q)" for q
        using False by (simp add: append_single)
      ultimately show ?thesis using decoded_segments_head [OF _ _ segs(1)] segs(2) t by fastforce
    qed
  qed
qed

lemma decoded_segments_mux: "decoded_segments (tl p) = Some segs \<Longrightarrow> mux_segments p = segs"
proof -
  have "those (map (unescape EncodePath) xs) = Some segs \<Longrightarrow> map path_unescape xs = segs" for xs
    by (induction xs arbitrary: segs) (auto simp: path_unescape_def split: option.splits)
  then show "decoded_segments (tl p) = Some segs \<Longrightarrow> mux_segments p = segs"
    by (simp add: decoded_segments_def mux_segments_def)
qed

text \<open>The decoded path of a rooted request is a slash and its decoded segments.\<close>

lemma u_path_segments:
  assumes "rooted (escaped_path u)"
  shows "u_path u = CHR ''/'' # join ''/'' (mux_segments (escaped_path u))"
proof -
  obtain s where s: "escaped_path u = CHR ''/'' # s"
    using assms by (auto simp: rooted_def has_prefix_iff)
  then obtain t where t: "unescape EncodePath s = Some t" "u_path u = CHR ''/'' # t"
    using unescape_escaped_path [of u] by auto
  obtain segs where "decoded_segments s = Some segs" "join ''/'' segs = t"
    using decoded_segments_join [OF t(1)] by blast
  then show ?thesis using decoded_segments_mux [of "escaped_path u" segs] s t by simp
qed

section \<open>The routes\<close>

definition public_role :: "string \<Rightarrow> bool" where
  "public_role role \<longleftrightarrow> role = ''cert'' \<or> role = ''chain'' \<or> role = ''fullchain''"

definition key_role :: "string \<Rightarrow> bool" where
  "key_role role \<longleftrightarrow> role = ''privkey'' \<or> role = ''bundle''"

lemma pattern_match_list: "pattern_match ''/v1/list'' segs \<longleftrightarrow> segs = [''v1'', ''list'']"
  by (simp add: pattern_match_def pattern_segments_def pattern_subtree_def)

lemma pattern_match_tree:
  "pattern_match ''/v1/cert/'' segs \<longleftrightarrow> (\<exists>rest. segs = ''v1'' # ''cert'' # rest \<and> rest \<noteq> [])"
  "pattern_match ''/v1/chain/'' segs \<longleftrightarrow> (\<exists>rest. segs = ''v1'' # ''chain'' # rest \<and> rest \<noteq> [])"
  "pattern_match ''/v1/fullchain/'' segs \<longleftrightarrow> (\<exists>rest. segs = ''v1'' # ''fullchain'' # rest \<and> rest \<noteq> [])"
  "pattern_match ''/v1/privkey/'' segs \<longleftrightarrow> (\<exists>rest. segs = ''v1'' # ''privkey'' # rest \<and> rest \<noteq> [])"
  "pattern_match ''/v1/bundle/'' segs \<longleftrightarrow> (\<exists>rest. segs = ''v1'' # ''bundle'' # rest \<and> rest \<noteq> [])"
proof -
  have tree: "2 < length segs \<and> take 2 segs = [a, b] \<longleftrightarrow> (\<exists>rest. segs = a # b # rest \<and> rest \<noteq> [])"
    for a b :: string
    by (cases segs; cases "tl segs") auto
  show "pattern_match ''/v1/cert/'' segs \<longleftrightarrow> (\<exists>rest. segs = ''v1'' # ''cert'' # rest \<and> rest \<noteq> [])"
    "pattern_match ''/v1/chain/'' segs \<longleftrightarrow> (\<exists>rest. segs = ''v1'' # ''chain'' # rest \<and> rest \<noteq> [])"
    "pattern_match ''/v1/fullchain/'' segs \<longleftrightarrow> (\<exists>rest. segs = ''v1'' # ''fullchain'' # rest \<and> rest \<noteq> [])"
    "pattern_match ''/v1/privkey/'' segs \<longleftrightarrow> (\<exists>rest. segs = ''v1'' # ''privkey'' # rest \<and> rest \<noteq> [])"
    "pattern_match ''/v1/bundle/'' segs \<longleftrightarrow> (\<exists>rest. segs = ''v1'' # ''bundle'' # rest \<and> rest \<noteq> [])"
    by (simp_all add: pattern_match_def pattern_segments_def pattern_subtree_def
        tree [simplified numeral_2_eq_2])
qed

lemma mux_lookup_newMux:
  assumes "mux_lookup newMux p = Some hs"
  shows "mux_segments p = [''v1'', ''list''] \<and> hs = [Authn, Serve] \<or>
    (\<exists>role rest. mux_segments p = ''v1'' # role # rest \<and> rest \<noteq> [] \<and>
       (public_role role \<and> hs = [Serve] \<or> key_role role \<and> hs = [Authz, Serve]))"
  using assms
  by (simp add: mux_lookup_def newMux_def pattern_match_list pattern_match_tree public_role_def
      key_role_def split: if_splits)

text \<open>What a dispatched request looks like to the handlers.\<close>

lemma dispatched_path:
  assumes "mux_route newMux req = Dispatch hs" and r: "rooted (escaped_path (rq_url req))"
  shows "split_on CHR ''/'' (u_path (rq_url req)) = [[], ''v1'', ''list''] \<and> hs = [Authn, Serve] \<or>
    (\<exists>role rest. split_on CHR ''/'' (u_path (rq_url req)) = [] # ''v1'' # role # rest \<and> rest \<noteq> [] \<and>
       (public_role role \<and> hs = [Serve] \<or> key_role role \<and> hs = [Authz, Serve]))"
proof -
  let ?ep = "escaped_path (rq_url req)" and ?p = "u_path (rq_url req)"
  have "mux_lookup newMux ?ep = Some hs"
    using assms(1) by (auto simp: mux_route_def Let_def split: if_splits option.splits)
  then consider "mux_segments ?ep = [''v1'', ''list'']" "hs = [Authn, Serve]"
    | (tree) role rest where "mux_segments ?ep = ''v1'' # role # rest" "rest \<noteq> []"
        "public_role role \<and> hs = [Serve] \<or> key_role role \<and> hs = [Authz, Serve]"
    using mux_lookup_newMux [of ?ep hs] by blast
  then show ?thesis
  proof cases
    case 1
    then have "?p = ''/v1/list''" using u_path_segments [OF r] by simp
    then show ?thesis using 1 by simp
  next
    case tree
    have noslash: "CHR ''/'' \<notin> set role" using tree(3) by (auto simp: public_role_def key_role_def)
    have "?p = ''/v1/'' @ role @ CHR ''/'' # join ''/'' rest"
      using u_path_segments [OF r] tree(1,2) by (simp add: join_Cons)
    then have "split_on CHR ''/'' ?p = [] # ''v1'' # role # split_on CHR ''/'' (join ''/'' rest)"
      using noslash by (simp add: split_on_append split_on_id)
    then show ?thesis using tree(3) by simp
  qed
qed

text \<open>A request path made of plain characters reaches the handlers as it is.\<close>

lemma mux_clean_plain: "list_all plain es \<Longrightarrow> es \<noteq> [] \<Longrightarrow>
    mux_clean (CHR ''/'' # join ''/'' es) = CHR ''/'' # join ''/'' es"
proof -
  assume es: "list_all plain es" "es \<noteq> []"
  have "last (join ''/'' es) \<noteq> CHR ''/'' \<and> join ''/'' es \<noteq> []"
  proof -
    obtain fs e where "es = fs @ [e]" using es(2) by (metis rev_exhaust)
    then have "last (join ''/'' es) = last e \<and> plain e \<and> join ''/'' es \<noteq> []"
      using es(1) by (auto simp: join_snoc plain_def)
    then show ?thesis by (metis last_in_set plain_def)
  qed
  then show ?thesis using path_clean_slash_join [OF es(1)] by (simp add: mux_clean_def Let_def)
qed

end
