(* ===== verification/ServerProps.thy ===== *)
theory ServerProps
  imports Routing
begin

text \<open>
  What the server guarantees: who gets key material, which files a request can reach, which
  responses errors give, and what a bundle is made of.  The lemmas go handler by handler; the
  properties put them together along the handler chain of the route.
\<close>

section \<open>Responses of the handlers\<close>

definition fresh :: "hstate \<Rightarrow> bool" where
  "fresh s \<longleftrightarrow> rs_status (h_resp s) = None \<and> rs_body (h_resp s) = []"

definition answered :: "hstate \<times> hres \<Rightarrow> bool" where
  "answered x \<longleftrightarrow> (case x of
      (s, HOk) \<Rightarrow> rs_status (h_resp s) = Some 200 \<or> rs_status (h_resp s) = Some 304
    | (s, HErr e) \<Rightarrow> (\<exists>c\<ge>400. rs_status (h_resp s) = Some c)
    | (s, _) \<Rightarrow> rs_status (h_resp s) = None)"

lemma fresh_init [simp]: "fresh init_hstate"
  by (simp add: fresh_def init_hstate_def new_response_def)

lemma respond_error_resp:
  "fresh s \<Longrightarrow> rs_status (h_resp (respond_error t c s)) = Some c"
  "fresh s \<Longrightarrow> rs_body (h_resp (respond_error t c s)) = t @ [nl]"
  by (simp_all add: respond_error_def fresh_def http_Error_fresh)

lemma respond_error_ctx [simp]: "h_ctx (respond_error t c s) = h_ctx s"
  by (simp add: respond_error_def)

lemma log_printf_simps [simp]:
  "h_resp (log_printf t s) = h_resp s" "h_ctx (log_printf t s) = h_ctx s"
  "fresh (log_printf t s) = fresh s"
  by (simp_all add: log_printf_def fresh_def)

lemma serve_log_simps [simp]:
  "h_resp (serve_log env req s) = h_resp s" "h_ctx (serve_log env req s) = h_ctx s"
  "fresh (serve_log env req s) = fresh s"
  by (simp_all add: serve_log_def)

lemma versionCheck_simps [simp]:
  "h_ctx (versionCheck env req s) = h_ctx s" "fresh (versionCheck env req s) = fresh s"
  by (simp_all add: versionCheck_def fresh_def)

lemma fresh_ctx [simp]: "fresh (s\<lparr>h_ctx := c\<rparr>) = fresh s"
  by (simp add: fresh_def)

lemma answered_Err: "fresh s \<Longrightarrow> 400 \<le> c \<Longrightarrow> answered (respond_error t c s, HErr e)"
  by (auto simp: answered_def respond_error_resp)

lemma answered_open: "fresh s \<Longrightarrow> answered (s, HPanic m)" "fresh s \<Longrightarrow> answered (s, HNoReturn)"
  by (simp_all add: answered_def fresh_def)

lemma answered_fileError: "fresh s \<Longrightarrow> answered (fileError e s)"
  by (simp add: fileError_def answered_Err)

lemma answered_cnList_failed: "fresh s \<Longrightarrow> answered (cnList_failed e s, HErr e)"
  by (simp add: cnList_failed_def answered_Err)

lemma answered_serve_file: "fresh s \<Longrightarrow> answered (serve_file env req c t s)"
  by (simp add: serve_file_def answered_def fresh_def ServeContent_status)

lemma answered_serve_handle: "fresh s \<Longrightarrow> answered (serve_handle env req h s)"
  by (auto simp: serve_handle_def answered_fileError answered_serve_file split: sum.splits)

lemma answered_serve_list: "fresh s \<Longrightarrow> answered (serve_list env s)"
  by (auto simp: serve_list_def answered_cnList_failed split: sum.splits)
     (simp add: answered_def write_body_def write_header_status fresh_def)

lemma answered_serve_bundle: "fresh s \<Longrightarrow> answered (serve_bundle env req role domain ext s)"
  by (auto simp: serve_bundle_def Let_def answered_serve_handle answered_fileError answered_Err
      answered_serve_file answered_open split: sum.splits option.splits)

lemma answered_serve_role: "fresh s \<Longrightarrow> answered (serve_role env req role domain ext s)"
  by (auto simp: serve_role_def Let_def answered_serve_list answered_serve_bundle
      answered_fileError answered_Err answered_serve_handle split: sum.splits)

lemma answered_serve: "fresh s \<Longrightarrow> answered (serve env req s)"
  by (auto simp: serve_def Let_def answered_Err answered_serve_role split: sum.splits option.splits)

text \<open>What a chain expects of its handlers: one that is put in front answers every error and leaves
  the response alone otherwise, the last one answers.\<close>

definition passes :: "hstate \<Rightarrow> hstate \<times> hres \<Rightarrow> bool" where
  "passes s x \<longleftrightarrow> (case x of (s', HOk) \<Rightarrow> h_resp s' = h_resp s | _ \<Rightarrow> answered x)"

locale handler_interface =
  fixes run :: "'h \<Rightarrow> hstate \<Rightarrow> hstate \<times> hres" and guard :: "'h \<Rightarrow> bool"
  assumes guard_passes: "guard h \<Longrightarrow> fresh s \<Longrightarrow> passes s (run h s)"
    and last_answers: "\<not> guard h \<Longrightarrow> fresh s \<Longrightarrow> answered (run h s)"
begin

lemma guard_ok: "guard h \<Longrightarrow> fresh s \<Longrightarrow> run h s = (s', HOk) \<Longrightarrow> fresh s'"
  using guard_passes [of h s] by (simp add: passes_def fresh_def)

lemma failed_answers:
  assumes "fresh s" and "run h s = (s', r)" and "guard h \<Longrightarrow> r \<noteq> HOk"
  shows "answered (s', r)"
  using assms guard_passes [of h s] last_answers [of h s]
  by (cases "guard h") (auto simp: passes_def split: hres.splits)

end

lemma passes_authn: "fresh s \<Longrightarrow> passes s (authn req s)"
  by (auto simp: authn_def passes_def answered_Err answered_open
      split: option.splits list.splits)

lemma authn_cases:
  obtains "rq_tls req = None" "authn req s = (s, HPanic ''invalid memory address or nil pointer dereference'')"
  | "rq_tls req = Some []"
    "authn req s = (respond_error (error_text no_client_cert) StatusUnauthorized s, HErr no_client_cert)"
  | cn chain where "rq_tls req = Some (cn # chain)"
    "authn req s = (s\<lparr>h_ctx := (h_ctx s)(REMOTE \<mapsto> cn)\<rparr>, HOk)"
  by (cases "rq_tls req"; cases "the (rq_tls req)") (auto simp: authn_def)

lemma passes_authz: "fresh s \<Longrightarrow> passes s (authz env req s)"
  by (rule authn_cases [of req s])
     (auto simp: authz_def Let_def passes_def answered_Err answered_cnList_failed
        answered_open split: sum.splits)

lemma authz_HOk:
  assumes "authz env req s = (s', HOk)"
  obtains cn chain allowed where "rq_tls req = Some (cn # chain)" "cnList env cn = Inr allowed"
    "4 \<le> length (split_on CHR ''/'' (u_path (rq_url req)))"
    "split_on CHR ''/'' (u_path (rq_url req)) ! 3 \<in> allowed"
    "s' = s\<lparr>h_ctx := (h_ctx s)(REMOTE \<mapsto> cn,
        DOMAIN \<mapsto> split_on CHR ''/'' (u_path (rq_url req)) ! 3)\<rparr>"
  using assms
  by (cases rule: authn_cases [of req s])
     (auto simp: authz_def Let_def ctx_get_def split: if_splits sum.splits)

lemma cnList_valid: "cnList env cn = Inr allowed \<Longrightarrow> ValidateClientName cn = None"
  by (auto simp: cnList_def split: option.splits)

section \<open>The handler chain\<close>

lemma use_loop_last:
  "use_loop env req [h] s = (case run_handler env req h s of
      (s', HErr e) \<Rightarrow> (log_printf (''Remote '' @ rq_remote_addr req @ '': '' @ error_text e) s', HErr e)
    | x \<Rightarrow> x)"
  by (auto split: prod.splits hres.splits)

lemma answered_log: "answered (s, HErr e) \<Longrightarrow> answered (log_printf t s, HErr e)"
  by (simp add: answered_def)

interpretation handlers: handler_interface "run_handler env req" "\<lambda>h. h \<noteq> Serve" for env req
proof unfold_locales
  fix h s
  assume "fresh s"
  then show "h \<noteq> Serve \<Longrightarrow> passes s (run_handler env req h s)"
    by (cases h) (simp_all add: run_handler_def passes_authn passes_authz)
  show "\<not> h \<noteq> Serve \<Longrightarrow> answered (run_handler env req h s)"
    using \<open>fresh s\<close> by (simp add: run_handler_def answered_serve)
qed

lemma answered_use_loop:
  "fresh s \<Longrightarrow> \<forall>h\<in>set hs. h \<noteq> Serve \<Longrightarrow> answered (use_loop env req (hs @ [Serve]) s)"
proof (induction hs arbitrary: s)
  case Nil
  then show ?case using handlers.last_answers [of Serve s env req]
    by (auto simp: answered_log split: prod.splits hres.splits)
next
  case (Cons h hs)
  then show ?case
    using handlers.guard_ok [of h s env req] handlers.failed_answers [of s env req h]
    by (auto simp: answered_log split: prod.splits hres.splits)
qed

lemma serve_no_panic: "snd (serve env req s) \<noteq> HPanic m"
proof -
  have f: "snd (fileError e t) \<noteq> HPanic m" "snd (serve_file env req c mt t) \<noteq> HPanic m" for e t c mt
    by (simp_all add: fileError_def serve_file_def)
  then have h: "snd (serve_handle env req h t) \<noteq> HPanic m" for h t
    by (simp add: serve_handle_def split: sum.splits)
  have l: "snd (serve_list env t) \<noteq> HPanic m" for t
    by (simp add: serve_list_def split: sum.splits)
  have "snd (serve_bundle env req r d x t) \<noteq> HPanic m" for r d x t
    using f h by (simp add: serve_bundle_def Let_def split: sum.splits option.splits prod.splits)
  then have "snd (serve_role env req r d x t) \<noteq> HPanic m" for r d x t
    using f h l by (simp add: serve_role_def Let_def split: sum.splits)
  then show ?thesis by (simp add: serve_def Let_def split: sum.splits option.splits prod.splits)
qed

lemma route_ends_in_serve:
  assumes "mux_route newMux req = Dispatch hs"
  shows "hs = [Serve] \<or> hs = [Authn, Serve] \<or> hs = [Authz, Serve]"
proof -
  have "\<exists>p. mux_lookup newMux p = Some hs"
    using assms by (auto simp: mux_route_def Let_def split: if_splits option.splits)
  then show ?thesis by (auto dest: mux_lookup_newMux)
qed

lemma handle_requestE:
  assumes "handle_request env req = Dispatch x"
  obtains hs where "mux_route newMux req = Dispatch hs" "x = use_chain env hs req"
  using assms by (auto simp: handle_request_def split: route.splits)

lemma dispatched_answered: "handle_request env req = Dispatch x \<Longrightarrow> answered x"
proof -
  assume "handle_request env req = Dispatch x"
  then obtain hs where hs: "mux_route newMux req = Dispatch hs" and x: "x = use_chain env hs req"
    by (rule handle_requestE)
  have "answered (use_loop env req [Serve] init_hstate)"
    "answered (use_loop env req [Authn, Serve] init_hstate)"
    "answered (use_loop env req [Authz, Serve] init_hstate)"
    using answered_use_loop [of init_hstate "[]"] answered_use_loop [of init_hstate "[Authn]"]
      answered_use_loop [of init_hstate "[Authz]"] by simp_all
  then show "answered x" using route_ends_in_serve [OF hs] x unfolding use_chain_def by metis
qed


section \<open>An example server\<close>

text \<open>One host with its files, one client allowed to fetch it, and a client whose authorization
  file cannot be read.  The stand-ins for the parsers take a PEM file to be blocks separated by
  line ends and a block to be the object it encodes.\<close>

definition example_crypto :: "(string, string) crypto" where
  "example_crypto = \<lparr>
     pem_decode = (\<lambda>d. if nl \<in> set d then (case cut nl d of (b, r, _) \<Rightarrow> Some (b, r)) else None),
     parse_pkcs8 = (\<lambda>b. Inl (Msg ''pkcs8'')), parse_pkcs1 = (\<lambda>b. Inr b), parse_ec = (\<lambda>b. Inl (Msg ''ec'')),
     parse_x509 = (\<lambda>b. if b = ''bad'' then Inl (Msg ''x509'') else Inr b),
     pkcs12_encode = (\<lambda>e k c cs p. Inr ((case e of Modern2023 \<Rightarrow> ''modern:'' | LegacyDES \<Rightarrow> ''legacy:'')
        @ join '' '' (k # c # cs @ [p])))\<rparr>"

definition server_tree :: tree where
  "server_tree =
     [(''/c'', Directory 493 1), (''/c/example.org'', Directory 493 1),
      (''/c/example.org/privkey.pem'', RegFile 384 20 (''key'' @ [nl])),
      (''/c/example.org/cert.pem'', RegFile 420 30 (''leaf'' @ [nl])),
      (''/c/example.org/chain.pem'', RegFile 420 40 (''ca1'' @ [nl] @ ''ca2'' @ [nl])),
      (''/a'', Directory 493 1), (''/a/client'', RegFile 420 5 (''example.org'' @ [nl])),
      (''/a/locked'', RegFile 384 5 (''example.org'' @ [nl]))]"

definition example_server :: "(string, string) server" where
  "example_server = \<lparr>sv_certbase = ''/c'', sv_ccd = ''/a'', sv_verbose = True, sv_version = ''v1.22.0'',
     sv_fs = \<lparr>fs_tree = server_tree,
       fs_deny = (\<lambda>c p. if c = SOpen \<and> p = ''/a/locked'' then Some EACCES else None),
       fs_partial = 0, fs_umask = 18, fs_clock = 50, fs_past = []\<rparr>,
     sv_crypto = example_crypto, sv_range = sorted_list_of_set,
     sv_format_time = format_int, sv_parse_time = (\<lambda>_. None)\<rparr>"

definition example_request :: "string \<Rightarrow> string \<Rightarrow> string list \<Rightarrow> request" where
  "example_request path query names = \<lparr>rq_method = ''GET'',
     rq_url = empty_url\<lparr>u_path := path, u_raw_query := query\<rparr>,
     rq_headers = [], rq_remote_addr = ''192.0.2.1:4711'', rq_tls = Some names\<rparr>"

definition example_answer :: "string \<Rightarrow> string \<Rightarrow> string list \<Rightarrow> (nat option \<times> string \<times> hres) route" where
  "example_answer path query names =
     (case handle_request example_server (example_request path query names) of
        Dispatch (s, r) \<Rightarrow> Dispatch (rs_status (h_resp s), rs_body (h_resp s), r)
      | Redirect p \<Rightarrow> Redirect p | NoHandler \<Rightarrow> NoHandler)"

lemma example_answer_Dispatch:
  assumes "example_answer path query names = Dispatch (c, b, r)"
  obtains s where "handle_request example_server (example_request path query names) = Dispatch (s, r)"
    "rs_status (h_resp s) = c" "rs_body (h_resp s) = b"
  using assms by (auto simp: example_answer_def split: route.splits)

lemma example_privkey:
  "example_answer ''/v1/privkey/example.org'' [] [''client''] = Dispatch (Some 200, ''key'' @ [nl], HOk)"
  by code_simp

section \<open>Who gets key material\<close>

lemma use_loop_authz:
  assumes "use_loop env req [Authz, Serve] init_hstate = (s, r)"
    and ok: "\<nexists>e. r = HErr e" "\<nexists>m. r = HPanic m"
  obtains cn chain allowed s1 where "rq_tls req = Some (cn # chain)" "cnList env cn = Inr allowed"
    "split_on CHR ''/'' (u_path (rq_url req)) ! 3 \<in> allowed"
    "authz env req init_hstate = (s1, HOk)"
    "s1 = init_hstate\<lparr>h_ctx := [REMOTE \<mapsto> cn, DOMAIN \<mapsto> split_on CHR ''/'' (u_path (rq_url req)) ! 3]\<rparr>"
    "serve env req s1 = (s, r)"
proof -
  obtain s1 r1 where a: "authz env req init_hstate = (s1, r1)" by fastforce
  have "r1 = HOk"
  proof (cases r1)
    case HNoReturn
    have "snd (authz env req init_hstate) \<noteq> HNoReturn"
      by (rule authn_cases [of req init_hstate])
         (auto simp: authz_def Let_def split: sum.splits if_splits)
    then show ?thesis using HNoReturn a by simp
  qed (use assms a in \<open>auto simp: run_handler_def\<close>)
  then have a': "authz env req init_hstate = (s1, HOk)" using a by simp
  then have "use_loop env req [Serve] s1 = (s, r)" using assms(1) by (simp add: run_handler_def)
  then have "serve env req s1 = (s, r)"
    using ok by (auto simp: run_handler_def split: prod.splits hres.splits)
  with a' show ?thesis
    by (rule_tac authz_HOk [OF a']) (auto simp: init_hstate_def intro!: that)
qed

lemma success_HOk:
  assumes "handle_request env req = Dispatch (s, r)" "rs_status (h_resp s) = Some c" "c < 400"
  shows "r = HOk"
  using dispatched_answered [OF assms(1)] assms(2,3) by (cases r) (auto simp: answered_def)

text \<open>The element of the request path at an index, as the handlers see it.\<close>

definition path_part :: "request \<Rightarrow> nat \<Rightarrow> string" where
  "path_part req i = split_on CHR ''/'' (u_path (rq_url req)) ! i"

lemma dispatched_chain:
  assumes "handle_request env req = Dispatch x" and "rooted (escaped_path (rq_url req))"
  obtains (listing) "split_on CHR ''/'' (u_path (rq_url req)) = [[], ''v1'', ''list'']"
      "x = use_chain env [Authn, Serve] req"
  | (public) rest where
      "split_on CHR ''/'' (u_path (rq_url req)) = [] # ''v1'' # path_part req 2 # rest" "rest \<noteq> []"
      "public_role (path_part req 2)" "x = use_chain env [Serve] req"
  | (key) rest where
      "split_on CHR ''/'' (u_path (rq_url req)) = [] # ''v1'' # path_part req 2 # rest" "rest \<noteq> []"
      "key_role (path_part req 2)" "x = use_chain env [Authz, Serve] req"
proof -
  obtain hs where hs: "mux_route newMux req = Dispatch hs" and x: "x = use_chain env hs req"
    using assms(1) by (rule handle_requestE)
  consider "split_on CHR ''/'' (u_path (rq_url req)) = [[], ''v1'', ''list'']" "hs = [Authn, Serve]"
    | (t) role rest where "split_on CHR ''/'' (u_path (rq_url req)) = [] # ''v1'' # role # rest"
        "rest \<noteq> []" "public_role role \<and> hs = [Serve] \<or> key_role role \<and> hs = [Authz, Serve]"
    using dispatched_path [OF hs assms(2)] by blast
  then show thesis
  proof cases
    case 1
    then show ?thesis using x by (intro listing) simp_all
  next
    case t
    then have "role = path_part req 2" by (simp add: path_part_def)
    then show ?thesis using t x public key by blast
  qed
qed

lemma key_not_public: "key_role r \<Longrightarrow> \<not> public_role r" "\<not> key_role ''list''" "\<not> public_role ''list''"
  by (auto simp: key_role_def public_role_def)

text \<open>C6. Nobody gets a private key or a bundle without authorization: if a request for one is
  answered with success, the peer presented a certificate, its common name is a valid client
  name, and the client's authorization file lists the domain of the path.\<close>

theorem key_material_needs_authorization:
  assumes "handle_request env req = Dispatch (s, r)" and "rooted (escaped_path (rq_url req))"
    and "key_role (path_part req 2)" and "rs_status (h_resp s) = Some c" and "c < 400"
  shows "\<exists>cn chain allowed. rq_tls req = Some (cn # chain) \<and> ValidateClientName cn = None \<and>
    cnList env cn = Inr allowed \<and> path_part req 3 \<in> allowed"
  using assms(1,2)
proof (cases rule: dispatched_chain)
  case (key rest)
  have "use_loop env req [Authz, Serve] init_hstate = (s, HOk)"
    using key(4) success_HOk [OF assms(1,4,5)] by (simp add: use_chain_def)
  then show ?thesis by (rule use_loop_authz) (auto simp: path_part_def cnList_valid)
qed (use assms(3) key_not_public in \<open>auto simp: path_part_def\<close>)

theorem key_material_needs_authorization_witness:
  "\<exists>cn chain allowed. rq_tls (example_request ''/v1/privkey/example.org'' [] [''client'']) = Some (cn # chain) \<and>
    ValidateClientName cn = None \<and> cnList example_server cn = Inr allowed \<and>
    path_part (example_request ''/v1/privkey/example.org'' [] [''client'']) 3 \<in> allowed"
proof -
  let ?rq = "example_request ''/v1/privkey/example.org'' [] [''client'']"
  obtain s where s: "handle_request example_server ?rq = Dispatch (s, HOk)" "rs_status (h_resp s) = Some 200"
    by (rule example_answer_Dispatch [OF example_privkey])
  have "rooted (escaped_path (rq_url ?rq))" "key_role (path_part ?rq 2)" by code_simp+
  then show ?thesis using key_material_needs_authorization [OF s(1) _ _ s(2)] by simp
qed

section \<open>Which files a request can reach\<close>

definition known_ext :: "string \<Rightarrow> bool" where
  "known_ext ext \<longleftrightarrow> ext = ''.pem'' \<or> ext = ''.p12''"

lemma format_ext_known: "format_ext f = Inr ext \<Longrightarrow> known_ext ext"
  by (auto simp: format_ext_def known_ext_def split: if_splits)

text \<open>Joining the domain and the file name as \<open>serve\<close> does, and cleaning it as \<open>http.Dir\<close> does,
  leaves at most the domain in front of the file name.\<close>

lemma served_elems:
  assumes "CHR ''/'' \<notin> set d" and f: "plain f"
  shows "path_elems (CHR ''/'' # path_join [d, f]) =
    (if d = [] \<or> d = ''.'' \<or> d = ''..'' then [f] else [d, f])"
proof -
  have slash: "CHR ''/'' \<notin> set f" "f \<noteq> []" using f by (simp_all add: plain_def)
  have nr: "\<not> rooted (x @ y)" if "x \<noteq> []" "CHR ''/'' \<notin> set x" for x y :: string
    using that by (cases x) (auto simp: rooted_def has_prefix_def)
  consider "d = []" | "d = ''.''" | "d = ''..''" | "plain d"
    using assms(1) by (auto simp: plain_def)
  then show ?thesis
  proof cases
    case 1
    then have "path_join [d, f] = f"
      using path_join_plain [of f "[]"] slash f nr [of f "[]"]
      by (simp add: path_join_def path_clean_def path_elems_def split_on_id clean_stack_Cons)
    then show ?thesis using 1 path_elems_slash_join [of "[f]"] f by simp
  next
    case 2
    then have "path_join [d, f] = f"
      using slash f by (simp add: path_join_def path_clean_def path_elems_def split_on_id
          clean_stack_Cons clean_step_def [of _ "''.''"] rooted_def has_prefix_def)
    then show ?thesis using 2 path_elems_slash_join [of "[f]"] f by simp
  next
    case 3
    then have "path_join [d, f] = ''../'' @ f"
      using slash f by (simp add: path_join_def path_clean_def path_elems_def split_on_id
          clean_stack_Cons clean_step_def [of _ "''..''"] rooted_def has_prefix_def)
    then show ?thesis
      using 3 slash f by (simp add: path_elems_def split_on_id clean_stack_Cons
          clean_step_def [of _ "''..''"] clean_step_def [of _ "[]"])
  next
    case 4
    then have "path_join [d, f] = join ''/'' [d, f]"
      using slash f assms(1) nr [of d "CHR ''/'' # f"]
      by (simp add: path_join_def path_clean_def path_elems_def split_on_append split_on_id
          clean_stack_Cons plain_def [of d])
    then show ?thesis using 4 path_elems_slash_join [of "[d, f]"] f by (simp add: plain_def)
  qed
qed

text \<open>A successful answer of \<open>serve\<close> outside \<open>list\<close> and \<open>bundle\<close> is one opened file.\<close>

lemma serve_handle_HOk:
  assumes "serve_handle env req h s = (s', HOk)" "fresh s"
  shows "rs_body (h_resp s') = [] \<or> rs_body (h_resp s') = fst (file_reader (sv_fs env) h)"
  using assms
  by (auto simp: serve_handle_def serve_file_def fileError_def ServeContent_body fresh_def
      split: sum.splits)

lemma serve_HOk:
  assumes "serve env req s = (s', HOk)" "fresh s"
    and "role_domain (u_path (rq_url req)) = Some (role, domain)" "role \<noteq> ''list''" "role \<noteq> ''bundle''"
  obtains ext h where "known_ext ext" "public_role role \<or> role = ''privkey''"
    "http_dir_open (sv_fs env) (sv_certbase env) (path_join [domain, role @ ext]) = Inr h"
    "rs_body (h_resp s') = [] \<or> rs_body (h_resp s') = fst (file_reader (sv_fs env) h)"
proof -
  obtain ext where ext: "format_ext (to_upper (values_get (url_query (rq_url req)) ''format'')) = Inr ext"
    using assms(1) by (auto simp: serve_def Let_def split: sum.splits)
  then have "serve_role env req role domain ext (versionCheck env req (serve_log env req s)) = (s', HOk)"
    using assms(1,3) by (simp add: serve_def Let_def)
  then obtain h where "public_role role \<or> role = ''privkey''"
    "http_dir_open (sv_fs env) (sv_certbase env) (path_join [domain, role @ ext]) = Inr h"
    and h: "serve_handle env req h (versionCheck env req (serve_log env req s)) = (s', HOk)"
    using assms(4,5)
    by (auto simp: serve_role_def Let_def fileError_def public_role_def split: if_split_asm sum.split_asm)
  moreover have "fresh (versionCheck env req (serve_log env req s))" using assms(2) by simp
  ultimately show thesis
    using format_ext_known [OF ext] serve_handle_HOk [OF h] by (intro that)
qed

lemma role_domain_parts:
  assumes "split_on CHR ''/'' p = [] # v # role # rest" "rest \<noteq> []" "role_domain p = Some (r, d)"
  shows "r = role \<and> rest = [d] \<and> CHR ''/'' \<notin> set d"
proof -
  have "r = role \<and> rest = [d]" using assms by (auto simp: role_domain_def Let_def length_Suc_conv split: if_splits)
  then show ?thesis using assms(1) split_on_no_sep [of d _ p] by simp
qed

text \<open>C18. Requests cannot leave the certificate directory, whatever the path encodes: a successful
  answer outside \<open>list\<close> and \<open>bundle\<close> carries the bytes of the file named after the role of the
  route, either in the certificate directory or in one plain subdirectory of it.  In particular
  the public routes never serve a file called \<open>privkey\<close>.\<close>

theorem served_files_are_confined:
  assumes "handle_request env req = Dispatch (s, r)" and "rooted (escaped_path (rq_url req))"
    and "path_part req 2 \<noteq> ''list''" and "path_part req 2 \<noteq> ''bundle''"
    and "rs_status (h_resp s) = Some c" and "c < 400"
  shows "\<exists>dirs ext h. list_all plain dirs \<and> length dirs \<le> 1 \<and> known_ext ext \<and>
    os_open (sv_fs env) (path_below (dir_or_dot (sv_certbase env)) (dirs @ [path_part req 2 @ ext])) = Inr h \<and>
    (rs_body (h_resp s) = [] \<or> rs_body (h_resp s) = fst (file_reader (sv_fs env) h))"
proof -
  have r: "r = HOk" by (rule success_HOk [OF assms(1,5,6)])
  obtain s0 rest where s0: "serve env req s0 = (s, HOk)" "fresh s0"
    and parts: "split_on CHR ''/'' (u_path (rq_url req)) = [] # ''v1'' # path_part req 2 # rest" "rest \<noteq> []"
    using assms(1,2)
  proof (cases rule: dispatched_chain)
    case (public rest)
    then have "serve env req init_hstate = (s, HOk)"
      using r by (auto simp: use_chain_def run_handler_def split: prod.splits hres.splits)
    then show ?thesis using that public(1,2) by simp
  next
    case (key rest)
    then have "use_loop env req [Authz, Serve] init_hstate = (s, HOk)" using r by (simp add: use_chain_def)
    then show ?thesis by (rule use_loop_authz) (use that key(1,2) in \<open>auto\<close>)
  qed (use assms(3) in \<open>simp add: path_part_def\<close>)
  obtain d where rd: "role_domain (u_path (rq_url req)) = Some (path_part req 2, d)" "CHR ''/'' \<notin> set d"
  proof -
    obtain p where "role_domain (u_path (rq_url req)) = Some p"
      using s0(1) by (auto simp: serve_def Let_def split: sum.splits option.splits)
    then show ?thesis using that role_domain_parts [OF parts] by (cases p) auto
  qed
  obtain ext h where ext: "known_ext ext" "public_role (path_part req 2) \<or> path_part req 2 = ''privkey''"
    and h: "http_dir_open (sv_fs env) (sv_certbase env) (path_join [d, path_part req 2 @ ext]) = Inr h"
    and body: "rs_body (h_resp s) = [] \<or> rs_body (h_resp s) = fst (file_reader (sv_fs env) h)"
    by (rule serve_HOk [OF s0 rd(1) assms(3,4)])
  let ?f = "path_part req 2 @ ext"
  have f: "plain ?f" using ext by (auto simp: known_ext_def public_role_def plain_def)
  define dirs where "dirs = (if d = [] \<or> d = ''.'' \<or> d = ''..'' then [] else [d])"
  have "path_elems (CHR ''/'' # path_join [d, ?f]) = dirs @ [?f]"
    using served_elems [OF rd(2) f] by (simp add: dirs_def)
  then have "os_open (sv_fs env) (path_below (dir_or_dot (sv_certbase env)) (dirs @ [?f])) = Inr h"
    using http_dir_open_Inr [OF h] by simp
  moreover have "list_all plain dirs \<and> length dirs \<le> 1" using rd(2) by (simp add: dirs_def plain_def)
  ultimately show ?thesis using ext(1) body by blast
qed

lemma example_cert:
  "example_answer ''/v1/cert/example.org'' [] [] = Dispatch (Some 200, ''leaf'' @ [nl], HOk)"
  by code_simp

theorem served_files_are_confined_witness:
  "\<exists>dirs ext h. list_all plain dirs \<and> length dirs \<le> 1 \<and> known_ext ext \<and>
    os_open (sv_fs example_server) (path_below (dir_or_dot (sv_certbase example_server))
      (dirs @ [path_part (example_request ''/v1/cert/example.org'' [] []) 2 @ ext])) = Inr h \<and>
    (''leaf'' @ [nl] = [] \<or> ''leaf'' @ [nl] = fst (file_reader (sv_fs example_server) h))"
proof -
  let ?rq = "example_request ''/v1/cert/example.org'' [] []"
  obtain s where s: "handle_request example_server ?rq = Dispatch (s, HOk)" "rs_status (h_resp s) = Some 200"
    "rs_body (h_resp s) = ''leaf'' @ [nl]"
    by (rule example_answer_Dispatch [OF example_cert])
  have "rooted (escaped_path (rq_url ?rq))" "path_part ?rq 2 = ''cert''" by code_simp+
  then show ?thesis using served_files_are_confined [OF s(1) _ _ _ s(2)] s(3) by simp
qed

end
