(* ===== verification/ServerErrors.thy ===== *)
theory ServerErrors
  imports ServerProps
begin

text \<open>
  What a response reveals: the version header, the answers to unknown clients, and the bodies of
  errors.
\<close>

section \<open>The version header\<close>

definition no_cert :: "request \<Rightarrow> bool" where
  "no_cert req \<longleftrightarrow> rq_tls req = None \<or> rq_tls req = Some []"

definition version_header :: "hstate \<Rightarrow> string option" where
  "version_header s = map_of (rs_headers (h_resp s)) ''X-Version''"

lemma version_header_simps [simp]:
  "version_header (respond_error t c s) = version_header s"
  "version_header (log_printf t s) = version_header s"
  "version_header (serve_log env req s) = version_header s"
  "version_header (s\<lparr>h_ctx := ctx\<rparr>) = version_header s"
  "version_header (cnList_failed e s) = version_header s"
  "version_header (fst (fileError e s)) = version_header s"
  "version_header (fst (serve_file env req ct mt s)) = version_header s"
  by (simp_all add: version_header_def respond_error_def cnList_failed_def fileError_def
      serve_file_def ServeContent_headers http_Error_headers)

lemma version_header_handle [simp]: "version_header (fst (serve_handle env req h s)) = version_header s"
  by (simp add: serve_handle_def split: sum.splits)

lemma version_header_list [simp]: "version_header (fst (serve_list env s)) = version_header s"
  by (simp add: serve_list_def split: sum.splits) (simp add: version_header_def write_body_def)

lemma version_header_bundle [simp]:
  "version_header (fst (serve_bundle env req role d x s)) = version_header s"
  by (simp add: serve_bundle_def Let_def split: sum.splits option.splits prod.splits)

lemma version_header_role [simp]:
  "version_header (fst (serve_role env req role d x s)) = version_header s"
  by (simp add: serve_role_def Let_def split: sum.splits)

lemma version_header_serve [simp]:
  "version_header (fst (serve env req s)) = version_header (versionCheck env req s)"
proof -
  have "version_header (versionCheck env req (serve_log env req s)) = version_header (versionCheck env req s)"
    by (auto simp: version_header_def versionCheck_def header_add_def)
  then show ?thesis by (simp add: serve_def Let_def split: sum.splits option.splits prod.splits)
qed

lemma version_header_auth [simp]:
  "version_header (fst (authn req s)) = version_header s"
  "version_header (fst (authz env req s)) = version_header s"
proof -
  show a: "version_header (fst (authn req s)) = version_header s"
    by (cases rule: authn_cases [of req s]) simp_all
  show "version_header (fst (authz env req s)) = version_header s"
    by (rule authn_cases [of req s]) (auto simp: authz_def Let_def split: sum.splits)
qed

lemma versionCheck_header:
  assumes "version_header s = None" "fresh s"
  shows "version_header (versionCheck env req s) =
    (if no_cert req \<and> ctx_get (h_ctx s) REMOTE = [] then None else Some (sv_version env))"
  using assms
  by (auto simp: versionCheck_def no_cert_def version_header_def header_add_def fresh_def map_add_def
      split: option.splits)

lemma version_init [simp]: "version_header init_hstate = None"
  by (simp add: version_header_def init_hstate_def new_response_def)

lemma use_loop_version:
  assumes "use_loop env req hs init_hstate = (s, r)"
    and "hs = [Serve] \<or> hs = [Authn, Serve] \<or> hs = [Authz, Serve]"
  shows "(no_cert req \<longrightarrow> version_header s = None) \<and>
    (\<not> no_cert req \<and> r = HOk \<longrightarrow> version_header s = Some (sv_version env))"
proof -
  have serve: "version_header t' = (if no_cert req \<and> ctx_get (h_ctx t) REMOTE = [] then None
      else Some (sv_version env))"
    if "serve env req t = (t', q)" "fresh t" "version_header t = None" for t t' q
    using version_header_serve [of env req t] versionCheck_header [OF that(3,2), of env req] that(1)
    by (simp only: fst_conv)
  have auth: "version_header t = None"
    if "run_handler env req h init_hstate = (t, q)" "h \<noteq> Serve" for h t q
    using that version_header_auth(1) [of req init_hstate] version_header_auth(2) [of env req init_hstate]
    by (cases h) (auto simp: run_handler_def)
  have fr: "fresh t \<and> \<not> no_cert req" if "run_handler env req h init_hstate = (t, HOk)" "h \<noteq> Serve" for h t
  proof -
    have "passes init_hstate (run_handler env req h init_hstate)"
      using that(2) passes_authn [of init_hstate req] passes_authz [of init_hstate env req]
      by (cases h) (simp_all add: run_handler_def)
    then have "fresh t" using that(1) fresh_init by (simp add: passes_def fresh_def)
    moreover have "\<not> no_cert req"
      using that by (cases h; cases rule: authn_cases [of req init_hstate])
        (auto simp: run_handler_def no_cert_def authz_def)
    ultimately show ?thesis by simp
  qed
  have init: "ctx_get (h_ctx init_hstate) REMOTE = []" by (simp add: ctx_get_def init_hstate_def)
  consider "hs = [Serve]" | (a) h where "hs = [h, Serve]" "h \<noteq> Serve" using assms(2) by blast
  then show ?thesis
  proof cases
    case 1
    obtain t q where t: "serve env req init_hstate = (t, q)" by fastforce
    then have "version_header s = version_header t \<and> r = q"
      using assms(1) 1 by (auto simp: run_handler_def split: hres.splits)
    then show ?thesis using serve [OF t] init by auto
  next
    case a
    obtain t q where t: "run_handler env req h init_hstate = (t, q)" by fastforce
    show ?thesis
    proof (cases "q = HOk")
      case True
      then have f: "fresh t" "\<not> no_cert req" using fr [of h t] t a(2) by auto
      obtain u v where u: "serve env req t = (u, v)" by fastforce
      then have "version_header s = version_header u \<and> r = v"
        using assms(1) a(1) t True by (auto simp: run_handler_def [of _ _ Serve] split: hres.splits)
      then show ?thesis using serve [OF u f(1) auth [OF t a(2)]] f(2) by simp
    next
      case False
      then have "version_header s = version_header t \<and> r = q"
        using assms(1) a(1) t by (auto split: hres.splits)
      then show ?thesis using auth [OF t a(2)] False by simp
    qed
  qed
qed

text \<open>C24. Anonymous clients learn nothing about the server's version: without a client certificate
  no response of the handlers has the header, and with one every successful response has it.\<close>

theorem version_only_for_certified_clients:
  assumes "handle_request env req = Dispatch (s, r)"
  shows "(no_cert req \<longrightarrow> version_header s = None) \<and>
    (\<not> no_cert req \<and> r = HOk \<longrightarrow> version_header s = Some (sv_version env))"
proof -
  obtain hs where hs: "mux_route newMux req = Dispatch hs" and x: "(s, r) = use_chain env hs req"
    using assms by (rule handle_requestE)
  have "use_loop env req hs init_hstate = (s, r)" using x by (simp add: use_chain_def)
  then show ?thesis by (rule use_loop_version [OF _ route_ends_in_serve [OF hs]])
qed

theorem version_only_for_certified_clients_witness:
  "\<exists>s t. handle_request example_server (example_request ''/v1/cert/example.org'' [] []) = Dispatch (s, HOk) \<and>
     version_header s = None \<and>
     handle_request example_server (example_request ''/v1/privkey/example.org'' [] [''client'']) = Dispatch (t, HOk) \<and>
     version_header t = Some ''v1.22.0''"
proof -
  obtain s where s: "handle_request example_server (example_request ''/v1/cert/example.org'' [] []) = Dispatch (s, HOk)"
    by (rule example_answer_Dispatch [OF example_cert])
  obtain t where t: "handle_request example_server (example_request ''/v1/privkey/example.org'' [] [''client'']) =
      Dispatch (t, HOk)"
    by (rule example_answer_Dispatch [OF example_privkey])
  have "no_cert (example_request p q [])" "\<not> no_cert (example_request p q [''client''])" for p q
    by (simp_all add: no_cert_def example_request_def)
  moreover have "sv_version example_server = ''v1.22.0''" by (simp add: example_server_def)
  ultimately show ?thesis
    using version_only_for_certified_clients [OF s] version_only_for_certified_clients [OF t] s t by auto
qed

section \<open>Unknown clients\<close>

text \<open>A common name without an authorization file, or one that is no client name at all.\<close>

definition unknown_client :: "('k, 'c) server \<Rightarrow> string \<Rightarrow> bool" where
  "unknown_client env cn =
     (case cnList env cn of Inl e \<Rightarrow> os_is_not_exist e \<or> errors_is_invalid_name e | Inr _ \<Rightarrow> False)"

definition as_client :: "request \<Rightarrow> string \<Rightarrow> request" where
  "as_client req cn = req\<lparr>rq_tls := Some [cn]\<rparr>"

lemma as_client_simps [simp]:
  "rq_url (as_client req cn) = rq_url req" "rq_method (as_client req cn) = rq_method req"
  "rq_headers (as_client req cn) = rq_headers req" "rq_tls (as_client req cn) = Some [cn]"
  "path_part (as_client req cn) i = path_part req i"
  by (simp_all add: as_client_def path_part_def)

lemma unknown_failed:
  "unknown_client env cn \<Longrightarrow> \<exists>e. cnList env cn = Inl e \<and>
     cnList_failed e s = respond_error ''unauthorized'' StatusUnauthorized s"
  by (auto simp: unknown_client_def cnList_failed_def split: sum.splits)

text \<open>The responses of \<open>serve\<close> outside \<open>list\<close> do not depend on who asks.\<close>

definition same_resp :: "hstate \<times> hres \<Rightarrow> hstate \<times> hres \<Rightarrow> bool" where
  "same_resp x y \<longleftrightarrow> h_resp (fst x) = h_resp (fst y)"

lemma same_resp_simps:
  "h_resp s = h_resp t \<Longrightarrow> h_resp (respond_error x c s) = h_resp (respond_error x c t)"
  "h_resp s = h_resp t \<Longrightarrow> same_resp (fileError e s) (fileError e t)"
  "h_resp s = h_resp t \<Longrightarrow>
     same_resp (serve_file env (as_client req a) ct m s) (serve_file env (as_client req b) ct m t)"
proof -
  have "ServeContent f g d (as_client req a) m ct w = ServeContent f g d (as_client req b) m ct w" for f g d w
    by (simp add: ServeContent_def not_modified_def Let_def)
  then show "h_resp s = h_resp t \<Longrightarrow>
     same_resp (serve_file env (as_client req a) ct m s) (serve_file env (as_client req b) ct m t)"
    by (simp add: same_resp_def serve_file_def)
qed (simp_all add: respond_error_def fileError_def same_resp_def)

lemma same_resp_handle: "h_resp s = h_resp t \<Longrightarrow>
    same_resp (serve_handle env (as_client req a) h s) (serve_handle env (as_client req b) h t)"
  by (auto simp: serve_handle_def intro: same_resp_simps split: sum.splits)

lemma serve_role_public: "public_role role \<Longrightarrow> serve_role env req role d x s =
    (case http_dir_open (sv_fs env) (sv_certbase env) (path_join [d, role @ x]) of
       Inl err \<Rightarrow> fileError err s | Inr file \<Rightarrow> serve_handle env req file s)"
  unfolding serve_role_def public_role_def by (elim disjE) simp_all

lemma same_resp_role:
  assumes "h_resp s = h_resp t" "public_role role"
  shows "same_resp (serve_role env (as_client req a) role d x s) (serve_role env (as_client req b) role d x t)"
  unfolding serve_role_public [OF assms(2)]
  by (auto intro: same_resp_simps(2) [OF assms(1)] same_resp_handle [OF assms(1)] split: sum.split)

lemma same_resp_versionCheck: "h_resp s = h_resp t \<Longrightarrow>
    h_resp (versionCheck env (as_client req a) s) = h_resp (versionCheck env (as_client req b) t)"
  by (simp add: versionCheck_def)

lemma same_resp_list:
  assumes "unknown_client env (ctx_get (h_ctx s) REMOTE)" "unknown_client env (ctx_get (h_ctx t) REMOTE)"
    and "h_resp s = h_resp t"
  shows "same_resp (serve_list env s) (serve_list env t)"
proof -
  obtain e where e: "cnList env (ctx_get (h_ctx s) REMOTE) = Inl e"
    "cnList_failed e s = respond_error ''unauthorized'' StatusUnauthorized s"
    using unknown_failed [OF assms(1), of s] by blast
  obtain f where f: "cnList env (ctx_get (h_ctx t) REMOTE) = Inl f"
    "cnList_failed f t = respond_error ''unauthorized'' StatusUnauthorized t"
    using unknown_failed [OF assms(2), of t] by blast
  show ?thesis using same_resp_simps(1) [OF assms(3)] by (simp add: serve_list_def same_resp_def e f)
qed

lemma same_resp_serve:
  assumes "h_resp s = h_resp t"
    and "\<And>role d. role_domain (u_path (rq_url req)) = Some (role, d) \<Longrightarrow>
      public_role role \<or> role = ''list'' \<and> unknown_client env (ctx_get (h_ctx s) REMOTE) \<and>
        unknown_client env (ctx_get (h_ctx t) REMOTE)"
  shows "same_resp (serve env (as_client req a) s) (serve env (as_client req b) t)"
proof -
  let ?s = "versionCheck env (as_client req a) (serve_log env (as_client req a) s)"
  let ?t = "versionCheck env (as_client req b) (serve_log env (as_client req b) t)"
  have st: "h_resp ?s = h_resp ?t" using assms(1) by (intro same_resp_versionCheck) simp
  have "same_resp (serve_role env (as_client req a) role d x ?s) (serve_role env (as_client req b) role d x ?t)"
    if "role_domain (u_path (rq_url req)) = Some (role, d)" for role d x
  proof (cases "public_role role")
    case True
    then show ?thesis by (rule same_resp_role [OF st])
  next
    case False
    then have l: "role = ''list''" "unknown_client env (ctx_get (h_ctx ?s) REMOTE)"
      "unknown_client env (ctx_get (h_ctx ?t) REMOTE)"
      using assms(2) [OF that] by simp_all
    then show ?thesis using same_resp_list [OF l(2,3) st] by (simp add: serve_role_def)
  qed
  then show ?thesis using same_resp_simps(1) [OF st]
    by (simp add: serve_def Let_def same_resp_def split: sum.split option.split)
qed

lemma mux_route_as_client [simp]: "mux_route table (as_client req cn) = mux_route table req"
  by (simp add: mux_route_def)

lemma same_resp_single:
  "same_resp (run_handler env req1 Serve s) (run_handler env req2 Serve t) \<Longrightarrow>
     same_resp (use_loop env req1 [Serve] s) (use_loop env req2 [Serve] t)"
  by (auto simp: same_resp_def split: prod.splits hres.splits)

text \<open>C19. Unknown clients cannot be told apart: two certificates whose names are invalid or have no
  authorization file get the same response to the same request, header by header.  On the key
  routes it is 401 with a fixed body.\<close>

theorem unknown_clients_look_alike:
  assumes "rooted (escaped_path (rq_url req))"
    and "unknown_client env a" and "unknown_client env b"
    and "handle_request env (as_client req a) = Dispatch (s, q)"
    and "handle_request env (as_client req b) = Dispatch (t, r)"
  shows "h_resp s = h_resp t \<and> (key_role (path_part req 2) \<longrightarrow>
    rs_status (h_resp s) = Some StatusUnauthorized \<and> rs_body (h_resp s) = ''unauthorized'' @ [nl])"
proof -
  obtain hs where hs: "mux_route newMux req = Dispatch hs" "use_loop env (as_client req a) hs init_hstate = (s, q)"
    "use_loop env (as_client req b) hs init_hstate = (t, r)"
    using assms(4,5) by (auto simp: handle_request_def use_chain_def split: route.splits)
  let ?in = "\<lambda>cn. init_hstate\<lparr>h_ctx := [REMOTE \<mapsto> cn]\<rparr>"
  have authn: "authn (as_client req cn) init_hstate = (?in cn, HOk)" for cn
    by (simp add: authn_def init_hstate_def)
  have parts: "\<exists>rest. split_on CHR ''/'' (u_path (rq_url req)) = [] # ''v1'' # path_part req 2 # rest"
    if "split_on CHR ''/'' (u_path (rq_url req)) = [] # ''v1'' # role # rest" for role rest
    using that by (simp add: path_part_def)
  consider "split_on CHR ''/'' (u_path (rq_url req)) = [[], ''v1'', ''list'']" "hs = [Authn, Serve]"
    | (pub) role rest where "split_on CHR ''/'' (u_path (rq_url req)) = [] # ''v1'' # role # rest"
        "rest \<noteq> []" "public_role role" "hs = [Serve]"
    | (key) role rest where "split_on CHR ''/'' (u_path (rq_url req)) = [] # ''v1'' # role # rest"
        "rest \<noteq> []" "key_role role" "hs = [Authz, Serve]"
    using dispatched_path [OF hs(1) assms(1)] by blast
  then show ?thesis
  proof cases
    case 1
    then have "same_resp (serve env (as_client req a) (?in a)) (serve env (as_client req b) (?in b))"
      using assms(2,3) by (intro same_resp_serve) (auto simp: role_domain_def ctx_get_def)
    then have "same_resp (use_loop env (as_client req a) [Serve] (?in a)) (use_loop env (as_client req b) [Serve] (?in b))"
      by (intro same_resp_single) (simp add: run_handler_def)
    then have "h_resp s = h_resp t"
      using hs(2,3) 1(2) authn by (simp add: run_handler_def same_resp_def del: use_loop.simps(1))
    then show ?thesis using 1(1) key_not_public(2) by (simp add: path_part_def)
  next
    case pub
    have "same_resp (serve env (as_client req a) init_hstate) (serve env (as_client req b) init_hstate)"
      using pub by (intro same_resp_serve) (auto dest: role_domain_parts)
    then have "same_resp (s, q) (t, r)"
      using same_resp_single [of env "as_client req a" init_hstate "as_client req b" init_hstate] hs(2,3) pub(4)
      by (simp add: run_handler_def)
    then show ?thesis using pub(1,3) key_not_public(1) by (auto simp: same_resp_def path_part_def)
  next
    case key
    have deny: "\<exists>e. authz env (as_client req cn) init_hstate =
        (respond_error ''unauthorized'' StatusUnauthorized (?in cn\<lparr>h_ctx := [REMOTE \<mapsto> cn, DOMAIN \<mapsto> path_part req 3]\<rparr>), HErr e)"
      if unk: "unknown_client env cn" for cn
    proof -
      obtain e where "cnList env cn = Inl e" "\<And>u. cnList_failed e u = respond_error ''unauthorized'' StatusUnauthorized u"
        using unk by (auto simp: unknown_client_def cnList_failed_def split: sum.splits)
      moreover have "\<not> length (split_on CHR ''/'' (u_path (rq_url req))) < 4"
        using key(1,2) by (cases rest) auto
      ultimately show ?thesis
        unfolding authz_def authn by (simp add: Let_def ctx_get_def path_part_def init_hstate_def)
    qed
    obtain e where e: "authz env (as_client req a) init_hstate =
        (respond_error ''unauthorized'' StatusUnauthorized (?in a\<lparr>h_ctx := [REMOTE \<mapsto> a, DOMAIN \<mapsto> path_part req 3]\<rparr>), HErr e)"
      using deny [OF assms(2)] by blast
    obtain f where f: "authz env (as_client req b) init_hstate =
        (respond_error ''unauthorized'' StatusUnauthorized (?in b\<lparr>h_ctx := [REMOTE \<mapsto> b, DOMAIN \<mapsto> path_part req 3]\<rparr>), HErr f)"
      using deny [OF assms(3)] by blast
    have "h_resp s = http_Error ''unauthorized'' StatusUnauthorized new_response"
      "h_resp t = http_Error ''unauthorized'' StatusUnauthorized new_response"
      using hs(2,3) e f key(4) by (auto simp: run_handler_def respond_error_def init_hstate_def log_printf_def)
    then show ?thesis by (simp add: http_Error_fresh new_response_def)
  qed
qed

definition is_dispatch :: "'h route \<Rightarrow> bool" where
  "is_dispatch r = (case r of Dispatch x \<Rightarrow> True | _ \<Rightarrow> False)"

lemma is_dispatchE: "is_dispatch r \<Longrightarrow> \<exists>s q. r = Dispatch (s, q)"
  by (auto simp: is_dispatch_def split: route.splits)

theorem unknown_clients_look_alike_witness:
  "let rq = example_request ''/v1/privkey/example.org'' [] [] in
   \<exists>s t q r. handle_request example_server (as_client rq ''nobody'') = Dispatch (s, q) \<and>
     handle_request example_server (as_client rq ''../locked'') = Dispatch (t, r) \<and>
     h_resp s = h_resp t \<and> rs_status (h_resp s) = Some 401 \<and> rs_body (h_resp t) = ''unauthorized'' @ [nl]"
proof -
  let ?rq = "example_request ''/v1/privkey/example.org'' [] []"
  have "is_dispatch (handle_request example_server (as_client ?rq ''nobody''))"
    "is_dispatch (handle_request example_server (as_client ?rq ''../locked''))" by code_simp+
  then obtain s t q r where d: "handle_request example_server (as_client ?rq ''nobody'') = Dispatch (s, q)"
    "handle_request example_server (as_client ?rq ''../locked'') = Dispatch (t, r)"
    by (metis is_dispatchE)
  have "rooted (escaped_path (rq_url ?rq))" "unknown_client example_server ''nobody''"
    "unknown_client example_server ''../locked''" "key_role (path_part ?rq 2)" by code_simp+
  then show ?thesis using unknown_clients_look_alike [OF _ _ _ d] d by (auto simp: Let_def)
qed

section \<open>Error bodies\<close>

definition opaque_body :: "response \<Rightarrow> bool" where
  "opaque_body w \<longleftrightarrow>
     (rs_status w = Some StatusNotFound \<and> rs_body w = ''not found'' @ [nl]) \<or>
     (rs_status w = Some StatusInternalServerError \<and> rs_body w = ''internal error'' @ [nl])"

lemma opaque_fileError: "fresh s \<Longrightarrow> opaque_body (h_resp (fst (fileError e s)))"
  by (simp add: fileError_def opaque_body_def respond_error_resp)

lemma opaque_serve_handle:
  "fresh s \<Longrightarrow> serve_handle env req h s = (t, HErr e) \<Longrightarrow> opaque_body (h_resp t)"
  using opaque_fileError [of s] by (auto simp: serve_handle_def serve_file_def split: sum.splits) (metis fst_conv)+

text \<open>C20. Failures to read certificate material reveal nothing: an error answer of a public route is
  a plain 404 or 500 with a fixed body, or a 400 that does not depend on the file system.\<close>

theorem public_errors_are_opaque:
  fixes env :: "('k, 'c) server"
  assumes "handle_request env req = Dispatch (s, HErr e)" and "rooted (escaped_path (rq_url req))"
    and "public_role (path_part req 2)"
  shows "opaque_body (h_resp s) \<or> rs_status (h_resp s) = Some StatusBadRequest \<and>
    (\<forall>f. \<exists>t. handle_request (env\<lparr>sv_fs := f\<rparr>) req = Dispatch (t, HErr e) \<and> h_resp t = h_resp s)"
proof -
  obtain hs where hs: "mux_route newMux req = Dispatch hs" and x: "(s, HErr e) = use_chain env hs req"
    using assms(1) by (rule handle_requestE)
  obtain rest where parts: "split_on CHR ''/'' (u_path (rq_url req)) = [] # ''v1'' # path_part req 2 # rest"
    "rest \<noteq> []" and hsS: "hs = [Serve]"
    using dispatched_path [OF hs assms(2)] assms(3) key_not_public
    by (auto simp: path_part_def)
  let ?v = "\<lambda>env :: ('k, 'c) server. versionCheck env req (serve_log env req init_hstate)"
  have resp: "h_resp (?v (env\<lparr>sv_fs := f\<rparr>)) = h_resp (?v env)" for f
    by (auto simp: versionCheck_def serve_log_def)
  have bad: "(\<forall>f. \<exists>t. handle_request (env\<lparr>sv_fs := f\<rparr>) req = Dispatch (t, HErr e) \<and> h_resp t = h_resp s)
      \<and> rs_status (h_resp s) = Some StatusBadRequest"
    if "\<And>env' :: ('k, 'c) server. serve env' req init_hstate = (respond_error m StatusBadRequest (?v env'), HErr err)" for m err
  proof -
    have "e = err" "h_resp s = h_resp (respond_error m StatusBadRequest (?v env))"
      using x that by (simp_all add: hsS use_chain_def run_handler_def)
    then show ?thesis using that resp respond_error_resp(1) [of "?v env"]
      by (simp add: handle_request_def hs hsS use_chain_def run_handler_def respond_error_def)
  qed
  show ?thesis
  proof (cases "format_ext (to_upper (values_get (url_query (rq_url req)) ''format''))")
    case (Inl err)
    then show ?thesis using bad [of "error_text err" err] by (simp add: serve_def Let_def)
  next
    case (Inr ext)
    show ?thesis
    proof (cases "role_domain (u_path (rq_url req))")
      case None
      then show ?thesis using bad [of "error_text required_syntax" required_syntax] Inr
        by (simp add: serve_def Let_def)
    next
      case (Some p)
      then obtain d where "role_domain (u_path (rq_url req)) = Some (path_part req 2, d)"
        using role_domain_parts [OF parts] by (cases p) auto
      then have "serve env req init_hstate = serve_role env req (path_part req 2) d ext (?v env)"
        using Inr by (simp add: serve_def Let_def)
      then have sr: "\<exists>t. serve_role env req (path_part req 2) d ext (?v env) = (t, HErr e) \<and> h_resp t = h_resp s"
        using x by (auto simp: hsS use_chain_def run_handler_def split: prod.splits hres.splits)
      have fr: "fresh (?v env)" by simp
      obtain t where t: "serve_role env req (path_part req 2) d ext (?v env) = (t, HErr e)" "h_resp t = h_resp s"
        using sr by blast
      have "opaque_body (h_resp t)"
      proof (cases "http_dir_open (sv_fs env) (sv_certbase env) (path_join [d, path_part req 2 @ ext])")
        case (Inl err)
        then show ?thesis using t(1) opaque_fileError [OF fr, of err]
          by (simp add: serve_role_public [OF assms(3)])
      next
        case (Inr h)
        then show ?thesis using t(1) opaque_serve_handle [OF fr, of env req h t e]
          by (simp add: serve_role_public [OF assms(3)])
      qed
      then show ?thesis using t(2) by simp
    qed
  qed
qed


lemma example_missing:
  "example_answer ''/v1/cert/example.net'' [] [] =
     Dispatch (Some 404, ''not found'' @ [nl], HErr (PathError ''open'' ''/c/example.net/cert.pem'' ENOENT))"
  by code_simp

theorem public_errors_are_opaque_witness:
  "\<exists>s. handle_request example_server (example_request ''/v1/cert/example.net'' [] []) =
       Dispatch (s, HErr (PathError ''open'' ''/c/example.net/cert.pem'' ENOENT)) \<and>
     opaque_body (h_resp s)"
proof -
  let ?rq = "example_request ''/v1/cert/example.net'' [] []"
  obtain s where s: "handle_request example_server ?rq =
      Dispatch (s, HErr (PathError ''open'' ''/c/example.net/cert.pem'' ENOENT))" "rs_status (h_resp s) = Some 404"
    by (rule example_answer_Dispatch [OF example_missing])
  have "rooted (escaped_path (rq_url ?rq))" "public_role (path_part ?rq 2)" by code_simp+
  then have "opaque_body (h_resp s)" using public_errors_are_opaque [OF s(1)] s(2) by auto
  then show ?thesis using s(1) by blast
qed



end
