(* ===== verification/Bundle.thy ===== *)
theory Bundle
  imports ServerProps
begin

text \<open>
  The PKCS12 bundle and the listing: the loop over the PEM blocks of the chain ends, a bundle is
  made of the three files of the domain with the encoding that was asked for, and the reply to
  \<open>/v1/list\<close> can be read back.
\<close>

section \<open>The blocks of a PEM file\<close>

text \<open>The documented behaviour of \<open>pem.Decode\<close>: the rest is what follows the block found, so
  it is shorter than the input.\<close>

definition decode_consumes :: "('k, 'c) crypto \<Rightarrow> bool" where
  "decode_consumes cry \<longleftrightarrow> (\<forall>d b r. pem_decode cry d = Some (b, r) \<longrightarrow> length r < length d)"

fun pem_blocks :: "('k, 'c) crypto \<Rightarrow> nat \<Rightarrow> string \<Rightarrow> string list" where
  "pem_blocks cry 0 d = []"
| "pem_blocks cry (Suc n) d =
     (case pem_decode cry d of None \<Rightarrow> [] | Some (b, r) \<Rightarrow> b # pem_blocks cry n r)"

text \<open>Parsing a list of blocks, the first error wins.\<close>

fun parse_all :: "('b \<Rightarrow> go_error + 'c) \<Rightarrow> 'b list \<Rightarrow> go_error + 'c list" where
  "parse_all p [] = Inr []"
| "parse_all p (b # bs) =
     (case p b of Inl e \<Rightarrow> Inl e | Inr c \<Rightarrow>
        (case parse_all p bs of Inl e \<Rightarrow> Inl e | Inr cs \<Rightarrow> Inr (c # cs)))"

definition prepend :: "'c list \<Rightarrow> go_error + 'c list \<Rightarrow> go_error + 'c list" where
  "prepend acc r = (case r of Inl e \<Rightarrow> Inl e | Inr cs \<Rightarrow> Inr (acc @ cs))"

lemma decode_nil: "decode_consumes cry \<Longrightarrow> pem_decode cry [] = None"
  unfolding decode_consumes_def by (cases "pem_decode cry []") fastforce+

lemma parseCertificates_loop_ends:
  assumes "decode_consumes cry"
  shows "length d \<le> n \<Longrightarrow> parseCertificates_loop cry d acc =
    Some (prepend acc (parse_all (parse_x509 cry) (pem_blocks cry n d)))"
proof (induction n arbitrary: d acc)
  case 0
  then show ?case using decode_nil [OF assms]
    by (simp add: parseCertificates_loop.simps prepend_def)
next
  case (Suc n)
  show ?case
  proof (cases "pem_decode cry d")
    case None
    then show ?thesis by (simp add: parseCertificates_loop.simps prepend_def)
  next
    case (Some p)
    then obtain b r where p: "pem_decode cry d = Some (b, r)" by (cases p) auto
    then have "length r \<le> n" using assms Suc.prems by (force simp: decode_consumes_def)
    then show ?thesis using Suc.IH [of r] p
      by (subst parseCertificates_loop.simps) (auto simp: prepend_def split: sum.splits)
  qed
qed

lemma parseCertificates_eq: "decode_consumes cry \<Longrightarrow>
    parseCertificates cry d = Some (parse_all (parse_x509 cry) (pem_blocks cry (length d) d))"
  using parseCertificates_loop_ends [of cry d "length d" "[]"]
  by (auto simp: parseCertificates_def prepend_def split: sum.splits)

text \<open>C26. Parsing a certificate chain always ends: with a decoder that uses up its input,
  \<open>parseCertificates\<close> returns the certificates of all blocks in file order, or the error of
  the first block that does not parse.\<close>

theorem parseCertificates_returns:
  assumes "decode_consumes cry"
  shows "parseCertificates cry d = Some (parse_all (parse_x509 cry) (pem_blocks cry (length d) d))"
  using assms by (rule parseCertificates_eq)

lemma example_decode_consumes: "decode_consumes example_crypto"
proof -
  have "length r < length d" if "pem_decode example_crypto d = Some (b, r)" for d b r
  proof -
    have n: "nl \<in> set d" and c: "cut nl d = (b, r, True)"
      using that by (auto simp: example_crypto_def cut_def split: if_splits)
    then have r: "r = tl (dropWhile (\<lambda>x. x \<noteq> nl) d)" by (simp add: cut_def)
    have "length (dropWhile (\<lambda>x. x \<noteq> nl) d) \<le> length d" by (rule length_dropWhile_le)
    moreover have "dropWhile (\<lambda>x. x \<noteq> nl) d \<noteq> []" using n by (simp add: dropWhile_eq_Nil_conv)
    ultimately show ?thesis using r by (cases "dropWhile (\<lambda>x. x \<noteq> nl) d") auto
  qed
  then show ?thesis by (auto simp: decode_consumes_def)
qed

theorem parseCertificates_returns_witness:
  "parseCertificates example_crypto (''ca1'' @ [nl] @ ''ca2'' @ [nl]) = Some (Inr [''ca1'', ''ca2''])"
proof -
  let ?d = "''ca1'' @ [nl] @ ''ca2'' @ [nl]"
  have "parse_all (parse_x509 example_crypto) (pem_blocks example_crypto (length ?d) ?d) = Inr [''ca1'', ''ca2'']"
    by code_simp
  then show ?thesis using parseCertificates_returns [OF example_decode_consumes, of ?d] by simp
qed

section \<open>The bundle\<close>

text \<open>A domain's files, as \<open>createPKCS12\<close> names them.\<close>

definition domain_file :: "('k, 'c) server \<Rightarrow> string \<Rightarrow> string \<Rightarrow> string" where
  "domain_file env domain name = path_join [sv_certbase env, domain, name]"

lemma pkcs12Encoder_Inr:
  "pkcs12Encoder c = Inr enc \<longleftrightarrow>
     (c = ''modern'' \<or> c = []) \<and> enc = Modern2023 \<or> c = ''legacy'' \<and> enc = LegacyDES"
  by (auto simp: pkcs12Encoder_def)

lemma step_ok:
  "(case x of Inl e \<Rightarrow> Some (Inl (g e)) | Inr v \<Rightarrow> f v) = Some (Inr r) \<longleftrightarrow>
     (\<exists>v. x = Inr v \<and> f v = Some (Inr r))"
  by (cases x) auto

text \<open>C25. A bundle is made of the private key, the certificate and the whole chain stored for the
  domain, sealed with the password of the request; the weak encoding is used only if the
  request says \<open>legacy\<close>, and any compatibility level but the three documented ones is
  refused.\<close>

theorem bundle_is_what_was_asked_for:
  assumes "createPKCS12 env domain pass compt = Some (Inr (pfx, mtime))"
    and "decode_consumes (sv_crypto env)"
  shows "\<exists>key_pem cert_pem chain_pem key cert fi.
    os_read_file (sv_fs env) (domain_file env domain ''privkey.pem'') = Inr key_pem \<and>
    os_read_file (sv_fs env) (domain_file env domain ''cert.pem'') = Inr cert_pem \<and>
    os_read_file (sv_fs env) (domain_file env domain ''chain.pem'') = Inr chain_pem \<and>
    os_stat (sv_fs env) (domain_file env domain ''cert.pem'') = Inr fi \<and> mtime = mod_time fi \<and>
    parsePrivateKey (sv_crypto env) key_pem = Inr key \<and>
    parseCertificate (sv_crypto env) cert_pem = Inr cert \<and>
    (\<exists>chain. parse_all (parse_x509 (sv_crypto env))
        (pem_blocks (sv_crypto env) (length chain_pem) chain_pem) = Inr chain \<and>
      pkcs12_encode (sv_crypto env) (if compt = ''legacy'' then LegacyDES else Modern2023)
        key cert chain pass = Inr pfx) \<and>
    compt \<in> {[], ''modern'', ''legacy''}"
proof -
  let ?cry = "sv_crypto env" and ?f = "sv_fs env" and ?p = "domain_file env domain"
  obtain enc fi key_pem cert_pem chain_pem key cert where
      enc: "pkcs12Encoder compt = Inr enc" and
      files: "os_stat ?f (?p ''cert.pem'') = Inr fi" "os_read_file ?f (?p ''privkey.pem'') = Inr key_pem"
        "os_read_file ?f (?p ''cert.pem'') = Inr cert_pem" "os_read_file ?f (?p ''chain.pem'') = Inr chain_pem"
        "parsePrivateKey ?cry key_pem = Inr key" "parseCertificate ?cry cert_pem = Inr cert" and
      rest: "(case parse_all (parse_x509 ?cry) (pem_blocks ?cry (length chain_pem) chain_pem) of
          Inl err \<Rightarrow> Some (Inl (wrap ''parsing chain'' err))
        | Inr chain \<Rightarrow> (case pkcs12_encode ?cry enc key cert chain pass of
            Inl err \<Rightarrow> Some (Inl (wrap ''encoding PKCS12'' err))
          | Inr pfxData \<Rightarrow> Some (Inr (pfxData, mod_time fi)))) = Some (Inr (pfx, mtime))"
    using assms(1) unfolding createPKCS12_def Let_def domain_file_def
    by (auto simp: step_ok parseCertificates_eq [OF assms(2)])
  obtain chain where "parse_all (parse_x509 ?cry) (pem_blocks ?cry (length chain_pem) chain_pem) = Inr chain"
    "pkcs12_encode ?cry enc key cert chain pass = Inr pfx" "mtime = mod_time fi"
    using rest by (auto simp: step_ok)
  moreover have "enc = (if compt = ''legacy'' then LegacyDES else Modern2023)" "compt \<in> {[], ''modern'', ''legacy''}"
    using enc by (auto simp: pkcs12Encoder_Inr)
  ultimately show ?thesis using files by blast
qed

theorem bundle_is_what_was_asked_for_witness:
  "createPKCS12 example_server ''example.org'' ''secret'' ''legacy'' =
     Some (Inr (''legacy:key leaf ca1 ca2 secret'', 30)) \<and>
   (\<exists>key_pem cert_pem chain_pem fi.
     os_read_file (sv_fs example_server) (domain_file example_server ''example.org'' ''privkey.pem'') = Inr key_pem \<and>
     os_read_file (sv_fs example_server) (domain_file example_server ''example.org'' ''cert.pem'') = Inr cert_pem \<and>
     os_read_file (sv_fs example_server) (domain_file example_server ''example.org'' ''chain.pem'') = Inr chain_pem \<and>
     os_stat (sv_fs example_server) (domain_file example_server ''example.org'' ''cert.pem'') = Inr fi \<and>
     30 = mod_time fi)"
proof -
  let ?d = "''ca1'' @ [nl] @ ''ca2'' @ [nl]"
  have c: "decode_consumes (sv_crypto example_server)"
    using example_decode_consumes by (simp add: example_server_def)
  have p: "parseCertificates (sv_crypto example_server) ?d = Some (Inr [''ca1'', ''ca2''])"
  proof -
    have "parse_all (parse_x509 (sv_crypto example_server))
        (pem_blocks (sv_crypto example_server) (length ?d) ?d) = Inr [''ca1'', ''ca2'']" by code_simp
    then show ?thesis using parseCertificates_eq [OF c, of ?d] by simp
  qed
  have files: "os_stat (sv_fs example_server) (path_join [sv_certbase example_server, ''example.org'', ''cert.pem'']) =
      Inr (RegFile 420 30 (''leaf'' @ [nl]))"
    "os_read_file (sv_fs example_server) (path_join [sv_certbase example_server, ''example.org'', ''privkey.pem'']) = Inr (''key'' @ [nl])"
    "os_read_file (sv_fs example_server) (path_join [sv_certbase example_server, ''example.org'', ''cert.pem'']) = Inr (''leaf'' @ [nl])"
    "os_read_file (sv_fs example_server) (path_join [sv_certbase example_server, ''example.org'', ''chain.pem'']) = Inr ?d"
    "pkcs12Encoder ''legacy'' = Inr LegacyDES"
    "parsePrivateKey (sv_crypto example_server) (''key'' @ [nl]) = Inr ''key''"
    "parseCertificate (sv_crypto example_server) (''leaf'' @ [nl]) = Inr ''leaf''"
    "pkcs12_encode (sv_crypto example_server) LegacyDES ''key'' ''leaf'' [''ca1'', ''ca2''] ''secret'' =
      Inr ''legacy:key leaf ca1 ca2 secret''" by code_simp+
  have a: "createPKCS12 example_server ''example.org'' ''secret'' ''legacy'' =
      Some (Inr (''legacy:key leaf ca1 ca2 secret'', 30))"
    unfolding createPKCS12_def Let_def files sum.case p option.case by simp
  show ?thesis using a bundle_is_what_was_asked_for [OF a c] by blast
qed

end
