(* ===== verification/GoFlag.thy ===== *)
theory GoFlag
  imports ManPages
begin

text \<open>
  Package \<open>flag\<close> as the two programs use it, and the ways a program ends while it starts up.
  A flag either is boolean or takes a value; a table of flags maps names to what \<open>Set\<close> does to
  the options.  Flags end at the first argument that is not one, or after \<open>--\<close>.
\<close>

datatype 'o flag = BoolFlag "bool \<Rightarrow> 'o \<Rightarrow> 'o" | ValueFlag "string \<Rightarrow> 'o \<Rightarrow> go_error + 'o"

datatype flag_stop = HelpAsked | FlagError string

text \<open>\<open>strconv.ParseBool\<close>.\<close>

definition parse_bool :: "string \<Rightarrow> bool option" where
  "parse_bool s =
     (if s \<in> set [''1'', ''t'', ''T'', ''TRUE'', ''true'', ''True''] then Some True
      else if s \<in> set [''0'', ''f'', ''F'', ''FALSE'', ''false'', ''False''] then Some False else None)"

definition flag_name :: "string \<Rightarrow> string" where
  "flag_name s = (if has_prefix s ''--'' then drop 2 s else drop 1 s)"

definition set_bool :: "string \<Rightarrow> string \<Rightarrow> (bool \<Rightarrow> 'o \<Rightarrow> 'o) \<Rightarrow> 'o \<Rightarrow> flag_stop + 'o" where
  "set_bool name v put st =
     (case parse_bool v of Some b \<Rightarrow> Inr (put b st)
      | None \<Rightarrow> Inl (FlagError (''invalid boolean value '' @ quote v @ '' for -'' @ name @ '': parse error'')))"

definition set_value :: "string \<Rightarrow> string \<Rightarrow> (string \<Rightarrow> 'o \<Rightarrow> go_error + 'o) \<Rightarrow> 'o \<Rightarrow> flag_stop + 'o" where
  "set_value name v put st =
     (case put v st of Inr st' \<Rightarrow> Inr st'
      | Inl e \<Rightarrow> Inl (FlagError (''invalid value '' @ quote v @ '' for flag -'' @ name @ '': '' @ error_text e)))"

fun flag_parse :: "(string \<times> 'o flag) list \<Rightarrow> string list \<Rightarrow> 'o \<Rightarrow> flag_stop + 'o \<times> string list" where
  "flag_parse table [] st = Inr (st, [])"
| "flag_parse table (s # args) st =
     (if length s < 2 \<or> hd s \<noteq> CHR ''-'' then Inr (st, s # args)
      else if s = ''--'' then Inr (st, args)
      else if flag_name s = [] \<or> hd (flag_name s) \<in> set ''-='' then Inl (FlagError (''bad flag syntax: '' @ s))
      else (case cut CHR ''='' (flag_name s) of (name, v, has) \<Rightarrow>
        (case map_of table name of
           None \<Rightarrow> Inl (if name = ''help'' \<or> name = ''h'' then HelpAsked
                       else FlagError (''flag provided but not defined: -'' @ name))
         | Some (BoolFlag put) \<Rightarrow>
             (case set_bool name (if has then v else ''true'') put st of
                Inl e \<Rightarrow> Inl e | Inr st' \<Rightarrow> flag_parse table args st')
         | Some (ValueFlag put) \<Rightarrow>
             (if has then (case set_value name v put st of
                  Inl e \<Rightarrow> Inl e | Inr st' \<Rightarrow> flag_parse table args st')
              else (case args of
                  [] \<Rightarrow> Inl (FlagError (''flag needs an argument: -'' @ name))
                | w # rest \<Rightarrow> (case set_value name w put st of
                    Inl e \<Rightarrow> Inl e | Inr st' \<Rightarrow> flag_parse table rest st'))))))"

text \<open>Constructors of table entries.\<close>

definition string_flag :: "(string \<Rightarrow> 'o \<Rightarrow> 'o) \<Rightarrow> 'o flag" where
  "string_flag put = ValueFlag (\<lambda>v st. Inr (put v st))"

definition parsed_flag :: "(string \<Rightarrow> go_error + 'v) \<Rightarrow> ('v \<Rightarrow> 'o \<Rightarrow> 'o) \<Rightarrow> 'o flag" where
  "parsed_flag parse put =
     ValueFlag (\<lambda>v st. case parse v of Inl e \<Rightarrow> Inl e | Inr x \<Rightarrow> Inr (put x st))"

section \<open>Starting up\<close>

text \<open>A step of a program's start goes on with a value, exits with a code after showing
  something, ends in \<open>log.Fatal\<close> (exit code 1), or panics.\<close>

datatype 'a startup = Go_on 'a | Exit nat "shown list" | Fatal string | Crash string

fun exit_code :: "'a startup \<Rightarrow> nat option" where
  "exit_code (Go_on a) = None"
| "exit_code (Exit n out) = Some n"
| "exit_code (Fatal m) = Some 1"
| "exit_code (Crash m) = Some 2"

fun and_then :: "'a startup \<Rightarrow> ('a \<Rightarrow> 'b startup) \<Rightarrow> 'b startup" where
  "and_then (Go_on a) k = k a"
| "and_then (Exit n out) k = Exit n out"
| "and_then (Fatal m) k = Fatal m"
| "and_then (Crash m) k = Crash m"

text \<open>\<open>if err != nil { log.Fatal(err) }\<close>.\<close>

definition fatal_if :: "string \<Rightarrow> go_error option \<Rightarrow> unit startup" where
  "fatal_if pre err = (case err of Some e \<Rightarrow> Fatal (pre @ error_text e) | None \<Rightarrow> Go_on ())"

definition or_fatal :: "go_error + 'a \<Rightarrow> 'a startup" where
  "or_fatal r = (case r of Inl e \<Rightarrow> Fatal (error_text e) | Inr a \<Rightarrow> Go_on a)"

lemma and_then_Go_on: "and_then m k = Go_on b \<longleftrightarrow> (\<exists>a. m = Go_on a \<and> k a = Go_on b)"
  by (cases m) auto

lemma and_then_Crash: "and_then m k = Crash e \<longleftrightarrow> m = Crash e \<or> (\<exists>a. m = Go_on a \<and> k a = Crash e)"
  by (cases m) auto

lemma or_fatal_simps [simp]: "or_fatal r = Go_on a \<longleftrightarrow> r = Inr a" "or_fatal r \<noteq> Crash m"
  by (auto simp: or_fatal_def split: sum.splits)

lemma fatal_if_simps [simp]: "fatal_if pre r = Go_on u \<longleftrightarrow> r = None" "fatal_if pre r \<noteq> Crash m"
  by (auto simp: fatal_if_def split: option.splits)

text \<open>\<open>flag.Parse\<close> on the command line: its errors end the program.\<close>

definition command_line ::
    "string \<Rightarrow> (string \<times> 'o flag) list \<Rightarrow> 'o \<Rightarrow> string list \<Rightarrow> ('o \<times> string list) startup" where
  "command_line usage table defaults argv =
     (case flag_parse table (tl argv) defaults of
        Inr r \<Rightarrow> Go_on r
      | Inl HelpAsked \<Rightarrow> Exit 0 [ToErr usage]
      | Inl (FlagError m) \<Rightarrow> Exit 2 [ToErr (m @ [nl]), ToErr usage])"

text \<open>The \<open>man\<close> subcommand: \<open>args[1:]\<close> panics when there is no argument.\<close>

definition run_man ::
    "'b embed \<Rightarrow> displayer \<Rightarrow> registry \<Rightarrow> string list \<Rightarrow> 'a startup" where
  "run_man em d reg args =
     (case args of [] \<Rightarrow> Crash ''slice bounds out of range [1:0]''
      | _ # rest \<Rightarrow>
        (case man_Run em d reg rest of
           Panicked m \<Rightarrow> Crash m
         | Returned (Some err, out) \<Rightarrow> Fatal (error_text err)
         | Returned (None, out) \<Rightarrow> Exit 0 out))"

section \<open>Facts\<close>

text \<open>Right after the program name, \<open>man\<close> is the first argument that is not a flag; so the
  arguments left are never empty.\<close>

lemma man_args: "IsCommand argv \<Longrightarrow> flag_parse table (tl argv) st = Inr (st, tl argv) \<and> tl argv \<noteq> []"
proof -
  assume "IsCommand argv"
  then obtain p rest where "argv = p # ''man'' # rest"
    by (cases argv; cases "tl argv") (auto simp: IsCommand_def Command_def)
  then show ?thesis by simp
qed

text \<open>An invariant of the options that every \<open>Set\<close> keeps holds after parsing.\<close>

definition table_keeps :: "('o \<Rightarrow> bool) \<Rightarrow> (string \<times> 'o flag) list \<Rightarrow> bool" where
  "table_keeps I table \<longleftrightarrow> (\<forall>(n, f)\<in>set table. case f of
     BoolFlag put \<Rightarrow> (\<forall>b st. I st \<longrightarrow> I (put b st))
   | ValueFlag put \<Rightarrow> (\<forall>v st st'. I st \<longrightarrow> put v st = Inr st' \<longrightarrow> I st'))"

lemma table_keepsD:
  assumes "table_keeps I table" and "map_of table name = Some f"
  shows "case f of BoolFlag put \<Rightarrow> (\<forall>b st. I st \<longrightarrow> I (put b st))
    | ValueFlag put \<Rightarrow> (\<forall>v st st'. I st \<longrightarrow> put v st = Inr st' \<longrightarrow> I st')"
  using assms map_of_SomeD [OF assms(2)] unfolding table_keeps_def by fastforce

lemma set_bool_keeps:
  assumes "table_keeps I table" and "map_of table name = Some (BoolFlag put)"
    and "I st" and "set_bool n v put st = Inr st'"
  shows "I st'"
  using table_keepsD [OF assms(1,2)] assms(3,4) by (auto simp: set_bool_def split: option.splits)

lemma set_value_keeps:
  assumes "table_keeps I table" and "map_of table name = Some (ValueFlag put)"
    and "I st" and "set_value n v put st = Inr st'"
  shows "I st'"
  using table_keepsD [OF assms(1,2)] assms(3,4) by (auto simp: set_value_def split: sum.splits)

text \<open>One turn of the parser: it stops with the options it has, or one flag changes them and it
  goes on with the rest.\<close>

lemma flag_parse_step:
  assumes "flag_parse table (s # args) st = Inr (st', rest)"
  shows "st' = st \<or>
    (\<exists>name put n v st1. map_of table name = Some (BoolFlag put) \<and> set_bool n v put st = Inr st1 \<and>
       flag_parse table args st1 = Inr (st', rest)) \<or>
    (\<exists>name put n v st1 more. map_of table name = Some (ValueFlag put) \<and> set_value n v put st = Inr st1 \<and>
       flag_parse table more st1 = Inr (st', rest) \<and> (more = args \<or> (\<exists>w. args = w # more)))"
proof (cases "cut CHR ''='' (flag_name s)")
  case (fields name v has)
  note parsed = assms [unfolded flag_parse.simps(2) fields prod.case]
  show ?thesis
  proof (cases "map_of table name")
    case None
    with parsed show ?thesis by (simp del: flag_parse.simps split: if_splits)
  next
    case (Some f)
    show ?thesis
    proof (cases f)
      case (BoolFlag put)
      with parsed Some show ?thesis
        by (simp del: flag_parse.simps split: if_splits sum.splits) blast+
    next
      case (ValueFlag put)
      note found = parsed [unfolded Some option.case ValueFlag flag.case]
      show ?thesis
      proof (cases has)
        case True
        with found Some ValueFlag show ?thesis
          by (simp del: flag_parse.simps split: if_splits sum.splits) blast+
      next
        case False
        with found Some ValueFlag show ?thesis
          by (simp del: flag_parse.simps split: if_splits sum.splits list.splits) blast+
      qed
    qed
  qed
qed

lemma flag_parse_keeps:
  "table_keeps I table \<Longrightarrow> I st \<Longrightarrow> flag_parse table args st = Inr (st', rest) \<Longrightarrow> I st'"
proof (induction args arbitrary: st rule: length_induct)
  case (1 args)
  show ?case
  proof (cases args)
    case Nil
    with "1.prems" show ?thesis by simp
  next
    case (Cons s more)
    note ih = "1.IH" [rule_format, OF _ "1.prems"(1)]
    from flag_parse_step [OF "1.prems"(3) [unfolded Cons]] show ?thesis
    proof (elim disjE exE conjE)
      fix name put n v st1
      assume "map_of table name = Some (BoolFlag put)" "set_bool n v put st = Inr st1"
        "flag_parse table more st1 = Inr (st', rest)"
      with set_bool_keeps [OF "1.prems"(1) _ "1.prems"(2)] ih [of more] Cons show ?thesis by simp metis
    next
      fix name put n v st1 tail
      assume "map_of table name = Some (ValueFlag put)" "set_value n v put st = Inr st1"
        "flag_parse table tail st1 = Inr (st', rest)" "tail = more"
      with set_value_keeps [OF "1.prems"(1) _ "1.prems"(2)] ih [of more] Cons show ?thesis by simp metis
    next
      fix name put n v st1 tail w
      assume "map_of table name = Some (ValueFlag put)" "set_value n v put st = Inr st1"
        "flag_parse table tail st1 = Inr (st', rest)" "more = w # tail"
      with set_value_keeps [OF "1.prems"(1) _ "1.prems"(2)] ih [of tail] Cons show ?thesis by simp metis
    qed (use "1.prems" in simp)
  qed
qed

lemma run_man_not_Go_on [simp]: "run_man em d reg args \<noteq> Go_on a"
  by (auto simp: run_man_def split: list.splits outcome.splits prod.splits option.splits)

lemma command_line_not_Crash [simp]: "command_line usage table defaults argv \<noteq> Crash m"
  by (auto simp: command_line_def split: sum.splits flag_stop.splits)

text \<open>The \<open>man\<close> subcommand always finds its own word in the arguments.\<close>

lemma man_no_crash:
  assumes "IsCommand argv" and "command_line usage table defaults argv = Go_on (opt, args)"
  shows "run_man em dp (newRegistry d ps) args \<noteq> Crash m"
proof -
  have "args = tl argv" "tl argv \<noteq> []"
    using man_args [OF assms(1), of table defaults] assms(2)
    by (auto simp: command_line_def split: sum.splits flag_stop.splits)
  then show ?thesis
    by (auto simp: run_man_def man_Run_no_panic split: list.splits outcome.splits prod.splits option.splits)
qed

lemma command_line_keeps:
  assumes "table_keeps I table" and "I defaults" and "command_line usage table defaults argv = Go_on (opt, args)"
  shows "I opt"
  using flag_parse_keeps [OF assms(1,2)] assms(3)
  by (auto simp: command_line_def split: sum.splits flag_stop.splits)

end
