(* ===== verification/Shared.thy ===== *)
theory Shared
  imports GoFs
begin

text \<open>
  \<open>internal/shared\<close> without the URL redaction: directory creation (\<open>mkdir.go\<close>), the CA pool
  (\<open>certpool.go\<close>), the TLS configurations (\<open>tls.go\<close>) and verbose logging (\<open>verbose.go\<close>);
  and \<open>cmd/cert-proxy-client/secret\<close>.  What \<open>crypto/tls\<close> and \<open>crypto/x509\<close> make of PEM data
  is a parameter: \<open>pair\<close> is \<open>tls.X509KeyPair\<close>, \<open>has_certs\<close> says whether
  \<open>AppendCertsFromPEM\<close> finds a certificate.
\<close>

section \<open>Mkdir\<close>

definition Mkdir :: "string \<Rightarrow> fs \<Rightarrow> go_error option \<times> fs" where
  "Mkdir dir f =
     (case os_mkdir dir 511 f of
        (None, g) \<Rightarrow> (None, g)
      | (Some err, g) \<Rightarrow>
          (if os_is_exist err then
             (case os_lstat g dir of
                Inl err2 \<Rightarrow> (Some err2, g)
              | Inr stat \<Rightarrow> (if is_dir stat then (None, g) else (Some err, g)))
           else (Some err, g)))"

section \<open>CA pool and TLS configuration\<close>

text \<open>A pool is the list of PEM files it was filled from.\<close>

type_synonym cert_pool = "string list"

fun CertPool_loop ::
    "(string \<Rightarrow> bool) \<Rightarrow> fs \<Rightarrow> cert_pool \<Rightarrow> string list \<Rightarrow> (cert_pool \<times> go_error option) outcome" where
  "CertPool_loop has_certs f pool [] = Returned (pool, None)"
| "CertPool_loop has_certs f pool (name # names) =
     (case os_read_file f name of
        Inl err \<Rightarrow> Returned (pool, Some err)
      | Inr pem \<Rightarrow>
          (if has_certs pem then CertPool_loop has_certs f (pool @ [pem]) names
           else Panicked ''Can't append to ca cert pool''))"

definition CertPool :: "(string \<Rightarrow> bool) \<Rightarrow> fs \<Rightarrow> string list \<Rightarrow> (cert_pool \<times> go_error option) outcome" where
  "CertPool has_certs f files = CertPool_loop has_certs f [] files"

datatype client_auth = NoClientCert | VerifyClientCertIfGiven

record 'c tls_config =
  tls_certificates :: "'c list"
  tls_root_cas :: "cert_pool option"
  tls_client_cas :: "cert_pool option"
  tls_server_name :: string
  tls_client_auth :: client_auth
  tls_min_version :: "16 word"

text \<open>\<open>tls.LoadX509KeyPair\<close> reads the two files and hands them to \<open>X509KeyPair\<close>.\<close>

definition LoadX509KeyPair ::
    "(string \<Rightarrow> string \<Rightarrow> go_error + 'c) \<Rightarrow> fs \<Rightarrow> string \<Rightarrow> string \<Rightarrow> go_error + 'c" where
  "LoadX509KeyPair pair f cert_file key_file =
     (case os_read_file f cert_file of Inl e \<Rightarrow> Inl e
      | Inr c \<Rightarrow> (case os_read_file f key_file of Inl e \<Rightarrow> Inl e | Inr k \<Rightarrow> pair c k))"

text \<open>\<open>TLSConfig\<close> returns the pool (nil when loading the pair failed), the error and the
  configuration it filled in through the pointer.\<close>

definition TLSConfig ::
    "(string \<Rightarrow> string \<Rightarrow> go_error + 'c) \<Rightarrow> (string \<Rightarrow> bool) \<Rightarrow> fs \<Rightarrow> string \<Rightarrow> 'c tls_config \<Rightarrow>
     (cert_pool option \<times> go_error option \<times> 'c tls_config) outcome" where
  "TLSConfig pair has_certs f sslFile config =
     (case LoadX509KeyPair pair f sslFile sslFile of
        Inl err \<Rightarrow> Returned (None, Some err, config)
      | Inr cert \<Rightarrow>
        (case CertPool has_certs f [sslFile] of
           Panicked m \<Rightarrow> Panicked m
         | Returned (pool, Some err) \<Rightarrow> Returned (Some pool, Some err, config)
         | Returned (pool, None) \<Rightarrow>
             Returned (Some pool, None, config\<lparr>tls_certificates := [cert]\<rparr>)))"

definition TLSClientConfig ::
    "(string \<Rightarrow> string \<Rightarrow> go_error + 'c) \<Rightarrow> (string \<Rightarrow> bool) \<Rightarrow> fs \<Rightarrow> string \<Rightarrow> 'c tls_config \<Rightarrow>
     ('c tls_config \<times> go_error option) outcome" where
  "TLSClientConfig pair has_certs f sslFile config =
     (case TLSConfig pair has_certs f sslFile config of
        Panicked m \<Rightarrow> Panicked m
      | Returned (CAs, Some err, cfg) \<Rightarrow> Returned (cfg, Some err)
      | Returned (CAs, None, cfg) \<Rightarrow> Returned (cfg\<lparr>tls_root_cas := CAs\<rparr>, None))"

definition TLSServerConfig ::
    "(string \<Rightarrow> string \<Rightarrow> go_error + 'c) \<Rightarrow> (string \<Rightarrow> bool) \<Rightarrow> fs \<Rightarrow> string \<Rightarrow> 'c tls_config \<Rightarrow>
     ('c tls_config \<times> go_error option) outcome" where
  "TLSServerConfig pair has_certs f sslFile config =
     (case TLSConfig pair has_certs f sslFile config of
        Panicked m \<Rightarrow> Panicked m
      | Returned (CAs, Some err, cfg) \<Rightarrow> Returned (cfg, Some err)
      | Returned (CAs, None, cfg) \<Rightarrow> Returned (cfg\<lparr>tls_client_cas := CAs\<rparr>, None))"

section \<open>Verbose logging\<close>

record logger =
  log_debug :: bool
  log_lines :: "string list"

definition EnableVerbose :: "logger \<Rightarrow> logger" where
  "EnableVerbose l = l\<lparr>log_debug := True\<rparr>"

definition Verbose :: "string \<Rightarrow> logger \<Rightarrow> logger" where
  "Verbose text l = (if \<not> log_debug l then l else l\<lparr>log_lines := log_lines l @ [text]\<rparr>)"

section \<open>Secrets\<close>

definition secret_no_colon :: go_error where
  "secret_no_colon = Msg ''secret source: expected <pass|file|env>:<value> (value not shown)''"

definition secret_unknown :: go_error where
  "secret_unknown = Msg ''unknown secret source (expected pass, file or env)''"

definition trailing_space :: "char \<Rightarrow> bool" where
  "trailing_space c \<longleftrightarrow> c = cr \<or> c = nl \<or> c = CHR '' '' \<or> c = tab"

text \<open>\<open>getenv\<close> is the process environment; \<open>os.Getenv\<close> gives the empty string for an unset
  variable.\<close>

definition secret_Read :: "(string \<Rightarrow> string option) \<Rightarrow> fs \<Rightarrow> string \<Rightarrow> go_error + string" where
  "secret_Read getenv f src =
     (case cut CHR '':'' src of (proto, val, ok) \<Rightarrow>
        if \<not> ok then Inl secret_no_colon
        else if to_upper proto = ''PASS'' then Inr val
        else if to_upper proto = ''FILE'' then
          (case os_read_file f val of Inl err \<Rightarrow> Inl err
           | Inr b \<Rightarrow> Inr (trim_right trailing_space b))
        else if to_upper proto = ''ENV'' then
          Inr (case getenv val of None \<Rightarrow> [] | Some v \<Rightarrow> v)
        else Inl secret_unknown)"

section \<open>Lemmas\<close>

lemma Mkdir_frame: "Mkdir d f = (r, g) \<Longrightarrow> q \<noteq> d \<Longrightarrow>
    map_of (fs_tree g) q = map_of (fs_tree f) q \<and> same_env f g"
  using os_mkdir_frame [of d 511 f] by (auto simp: Mkdir_def split: prod.splits option.splits sum.splits if_splits)

lemma os_mkdir_ok: "os_mkdir d m f = (None, g) \<Longrightarrow> \<exists>m' t. map_of (fs_tree g) d = Some (Directory m' t)"
  by (auto simp: os_mkdir_def split: option.splits)

lemma os_mkdir_fail: "os_mkdir d m f = (Some e, g) \<Longrightarrow> g = f"
  by (auto simp: os_mkdir_def split: option.splits)

lemma lstat_dir: "os_lstat f d = Inr n \<Longrightarrow> map_of (fs_tree f) d = Some n"
  by (auto simp: os_lstat_def lookup_def split: option.splits)

text \<open>After a successful \<open>Mkdir\<close> the name is a directory.\<close>

lemma Mkdir_dir: "Mkdir d f = (None, g) \<Longrightarrow> \<exists>m t. map_of (fs_tree g) d = Some (Directory m t)"
  by (auto simp: Mkdir_def dest!: os_mkdir_ok lstat_dir
      split: prod.splits option.splits sum.splits if_splits elim!: is_dir.elims)

lemma Mkdir_same: "Mkdir d f = (r, g) \<Longrightarrow> map_of (fs_tree f) d \<noteq> None \<Longrightarrow> g = f"
  by (auto simp: Mkdir_def os_mkdir_def create_error_def
      split: prod.splits option.splits sum.splits if_splits)

section \<open>Properties\<close>

text \<open>\<open>Mkdir\<close> is idempotent and safe: on success the name is a directory, an existing
  directory is success and is left alone, an existing file or link is an error and is left
  alone, and no other name changes.\<close>

theorem Mkdir_correct:
  "case Mkdir d f of (r, g) \<Rightarrow>
     (if r = None then (\<exists>m t. map_of (fs_tree g) d = Some (Directory m t))
      else fs_tree g = fs_tree f) \<and>
     map_of (fs_tree g) = (map_of (fs_tree f))(d := map_of (fs_tree g) d) \<and>
     (if map_of (fs_tree f) d = None then True else g = f)"
proof -
  obtain r g where M: "Mkdir d f = (r, g)" by force
  have "fs_tree g = fs_tree f" if "r \<noteq> None"
    using M that os_mkdir_fail [of d 511 f]
    by (auto simp: Mkdir_def split: prod.splits option.splits sum.splits if_splits)
  moreover have "map_of (fs_tree g) = (map_of (fs_tree f))(d := map_of (fs_tree g) d)"
    using Mkdir_frame [OF M] by auto
  ultimately show ?thesis using M Mkdir_dir [of d f g] Mkdir_same [OF M] by auto
qed

text \<open>A TLS configuration is only completed when everything loaded: on success it carries
  the key pair of the file and, as trusted CAs, that same file; on an error the configuration
  is returned as it was given, without certificates.\<close>

theorem TLSServerConfig_complete:
  assumes "TLSServerConfig pair has_certs f sslFile config = Returned (cfg, err)"
  shows "case err of
      Some e \<Rightarrow> cfg = config
    | None \<Rightarrow> (\<exists>pem cert. os_read_file f sslFile = Inr pem \<and> pair pem pem = Inr cert \<and> has_certs pem \<and>
        cfg = config\<lparr>tls_certificates := [cert], tls_client_cas := Some [pem]\<rparr>)"
  using assms
  by (auto simp: TLSServerConfig_def TLSConfig_def LoadX509KeyPair_def CertPool_def
      split: outcome.splits sum.splits option.splits if_splits)

definition example_fs :: "tree \<Rightarrow> fs" where
  "example_fs t = \<lparr>fs_tree = t, fs_deny = (\<lambda>_ _. None), fs_partial = 0, fs_umask = 63, fs_clock = 1000,
     fs_past = []\<rparr>"

theorem TLSServerConfig_complete_witness:
  "let f = example_fs [(''s.pem'', RegFile 384 0 ''PEM'')];
       config = \<lparr>tls_certificates = [], tls_root_cas = None, tls_client_cas = None,
         tls_server_name = [], tls_client_auth = VerifyClientCertIfGiven, tls_min_version = 771\<rparr>
   in TLSServerConfig (\<lambda>c k. Inr (c, k)) (\<lambda>p. True) f ''s.pem'' config
      = Returned (config\<lparr>tls_certificates := [(''PEM'', ''PEM'')], tls_client_cas := Some [''PEM'']\<rparr>, None)
    \<and> (\<exists>pem cert. os_read_file f ''s.pem'' = Inr pem \<and> Inr (pem, pem) = (Inr cert :: go_error + _))"
proof -
  let ?f = "example_fs [(''s.pem'', RegFile 384 0 ''PEM'')]"
  let ?c = "\<lparr>tls_certificates = [], tls_root_cas = None, tls_client_cas = None,
         tls_server_name = [], tls_client_auth = VerifyClientCertIfGiven, tls_min_version = 771\<rparr>"
  have r: "os_read_file ?f ''s.pem'' = Inr ''PEM''"
    by (simp add: os_read_file_def os_open_def lookup_follow_def follow_direct lookup_def example_fs_def)
  have a: "TLSServerConfig (\<lambda>c k. Inr (c, k)) (\<lambda>p. True) ?f ''s.pem'' ?c
      = Returned (?c\<lparr>tls_certificates := [(''PEM'', ''PEM'')], tls_client_cas := Some [''PEM'']\<rparr>, None)"
    by (simp add: TLSServerConfig_def TLSConfig_def LoadX509KeyPair_def CertPool_def r)
  show ?thesis using a TLSServerConfig_complete [OF a] by (simp add: Let_def)
qed

text \<open>Errors of \<open>secret.Read\<close> do not contain the secret: apart from a failure to read the
  named file, the error is one of two fixed messages, whatever the source was.\<close>

theorem secret_errors_are_constant:
  assumes "secret_Read getenv f src = Inl e"
  shows "e = secret_no_colon \<or> e = secret_unknown \<or>
    (\<exists>val. src = takeWhile (\<lambda>c. c \<noteq> CHR '':'') src @ '':'' @ val \<and>
       to_upper (takeWhile (\<lambda>c. c \<noteq> CHR '':'') src) = ''FILE'' \<and> os_read_file f val = Inl e)"
proof (cases "cut CHR '':'' src")
  case (fields proto val ok)
  show ?thesis
  proof (cases ok)
    case False
    then show ?thesis using assms fields by (simp add: secret_Read_def)
  next
    case True
    then have s: "src = proto @ CHR '':'' # val" and p: "CHR '':'' \<notin> set proto"
      using cut_parts fields by auto
    have "takeWhile (\<lambda>c. c \<noteq> CHR '':'') src = proto"
      using p by (auto simp: s takeWhile_append)
    then show ?thesis using assms fields True s
      by (auto simp: secret_Read_def split: if_splits sum.splits)
  qed
qed

theorem secret_errors_are_constant_witness:
  "secret_Read (\<lambda>_. None) (example_fs []) ''hunter2'' = Inl secret_no_colon \<and>
   (secret_no_colon = secret_no_colon \<or> secret_no_colon = secret_unknown \<or>
    (\<exists>val. ''hunter2'' = takeWhile (\<lambda>c. c \<noteq> CHR '':'') ''hunter2'' @ '':'' @ val \<and>
       to_upper (takeWhile (\<lambda>c. c \<noteq> CHR '':'') ''hunter2'') = ''FILE'' \<and>
       os_read_file (example_fs []) val = Inl secret_no_colon))"
proof -
  have a: "secret_Read (\<lambda>_. None) (example_fs []) ''hunter2'' = Inl secret_no_colon"
    by (simp add: secret_Read_def cut_def)
  show ?thesis using a secret_errors_are_constant [OF a] by blast
qed

text \<open>A literal secret is returned byte for byte, colons included, for every spelling of
  the scheme that upper-cases to \<open>PASS\<close>; a file secret loses trailing white space only.\<close>

theorem secret_values:
  assumes "CHR '':'' \<notin> set proto"
  shows "(to_upper proto = ''PASS'' \<longrightarrow> secret_Read getenv f (proto @ '':'' @ v) = Inr v) \<and>
    (to_upper proto = ''FILE'' \<longrightarrow>
       (case secret_Read getenv f (proto @ '':'' @ v) of
          Inl e \<Rightarrow> os_read_file f v = Inl e
        | Inr s \<Rightarrow> (\<exists>ws. os_read_file f v = Inr (s @ ws) \<and> list_all trailing_space ws)
            \<and> (s = [] \<or> \<not> trailing_space (last s))))"
proof -
  have c: "cut CHR '':'' (proto @ '':'' @ v) = (proto, v, True)"
    using cut_append [OF assms, of v] by simp
  have t: "\<exists>ws. b = trim_right trailing_space b @ ws \<and> list_all trailing_space ws" for b
    by (rule trim_right_prefix)
  show ?thesis
    unfolding secret_Read_def c using t trim_right_last
    by (auto split: sum.splits)
qed

theorem secret_values_witness:
  "CHR '':'' \<notin> set ''Pass'' \<and> secret_Read (\<lambda>_. None) (example_fs []) (''Pass'' @ '':'' @ ''a:b '') = Inr ''a:b ''"
proof -
  have h: "CHR '':'' \<notin> set ''Pass''" by simp
  have "to_upper ''Pass'' = ''PASS''" by code_simp
  then show ?thesis using h secret_values [OF h, of "\<lambda>_. None" "example_fs []" "''a:b ''"] by blast
qed

end
