(* ===== verification/ServerInit.thy ===== *)
theory ServerInit
  imports GoFlag Shared Server
begin

text \<open>
  \<open>cmd/cert-proxy-server\<close>, the start: the options and their defaults, \<open>parseTLSVersion\<close>,
  \<open>checkDir\<close> and \<open>parseFlags\<close> (\<open>init.go\<close>), \<open>versionLine\<close> (\<open>version.go\<close>) and \<open>main\<close>
  (\<open>main.go\<close>).  Durations are nanoseconds.  Parameters: \<open>duration\<close> is
  \<open>time.ParseDuration\<close>, \<open>usage\<close> the text of \<open>flag.Usage\<close>, \<open>listen\<close> is \<open>tls.Listen\<close>, and
  what the running HTTP server does is the sequence of events \<open>main\<close> waits for.
\<close>

section \<open>Program identification\<close>

record program =
  pr_name :: string
  pr_version :: string
  pr_path :: string

definition versionLine :: "program \<Rightarrow> string" where
  "versionLine pr = pr_name pr @ '' '' @ pr_version pr @ '' '' @ pr_path pr"

section \<open>Options\<close>

record server_opt =
  so_certbase :: string
  so_sslfile :: string
  so_serve :: string
  so_ccd :: string
  so_verbose :: bool
  so_tls_min :: "16 word"
  so_read_header_timeout :: int
  so_read_timeout :: int
  so_write_timeout :: int
  so_idle_timeout :: int

text \<open>The flags local to \<open>parseFlags\<close>.\<close>

record server_flags = server_opt +
  sf_version :: bool
  sf_help :: bool
  sf_tls_min :: string

definition seconds :: "int \<Rightarrow> int" where
  "seconds n = n * 1000000000"

definition server_defaults :: server_flags where
  "server_defaults =
     \<lparr>so_certbase = ''certs'', so_sslfile = ''server-ssl.pem'', so_serve = '':4433'',
      so_ccd = ''clients'', so_verbose = False, so_tls_min = 0,
      so_read_header_timeout = seconds 10, so_read_timeout = seconds 30,
      so_write_timeout = seconds 60, so_idle_timeout = seconds 120,
      sf_version = False, sf_help = False, sf_tls_min = ''1.2''\<rparr>"

definition server_table :: "(string \<Rightarrow> go_error + int) \<Rightarrow> (string \<times> server_flags flag) list" where
  "server_table duration =
     [(''sslfile'', string_flag (\<lambda>v st. st\<lparr>so_sslfile := v\<rparr>)),
      (''serve'', string_flag (\<lambda>v st. st\<lparr>so_serve := v\<rparr>)),
      (''certbase'', string_flag (\<lambda>v st. st\<lparr>so_certbase := v\<rparr>)),
      (''ccd'', string_flag (\<lambda>v st. st\<lparr>so_ccd := v\<rparr>)),
      (''verbose'', BoolFlag (\<lambda>b st. st\<lparr>so_verbose := b\<rparr>)),
      (''read-header-timeout'', parsed_flag duration (\<lambda>t st. st\<lparr>so_read_header_timeout := t\<rparr>)),
      (''read-timeout'', parsed_flag duration (\<lambda>t st. st\<lparr>so_read_timeout := t\<rparr>)),
      (''write-timeout'', parsed_flag duration (\<lambda>t st. st\<lparr>so_write_timeout := t\<rparr>)),
      (''idle-timeout'', parsed_flag duration (\<lambda>t st. st\<lparr>so_idle_timeout := t\<rparr>)),
      (''version'', BoolFlag (\<lambda>b st. st\<lparr>sf_version := b\<rparr>)),
      (''help'', BoolFlag (\<lambda>b st. st\<lparr>sf_help := b\<rparr>)),
      (''tls-min'', string_flag (\<lambda>v st. st\<lparr>sf_tls_min := v\<rparr>))]"

text \<open>\<open>tls.VersionTLS12\<close> and \<open>tls.VersionTLS13\<close>.\<close>

abbreviation VersionTLS12 :: "16 word" where "VersionTLS12 \<equiv> 0x0303"
abbreviation VersionTLS13 :: "16 word" where "VersionTLS13 \<equiv> 0x0304"

definition parseTLSVersion :: "string \<Rightarrow> go_error + 16 word" where
  "parseTLSVersion s =
     (if s = ''1.2'' then Inr VersionTLS12
      else if s = ''1.3'' then Inr VersionTLS13
      else Inl (Msg (''-tls-min must be 1.2 or 1.3, got '' @ quote s)))"

section \<open>checkDir\<close>

text \<open>\<open>Readdirnames(1)\<close>; its \<open>io.EOF\<close> for an empty directory is no error to the caller.\<close>

fun file_readdirnames :: "fs \<Rightarrow> handle \<Rightarrow> go_error option" where
  "file_readdirnames f (p, n) =
     (case fs_deny f SReaddir p of Some e \<Rightarrow> Some (PathError ''readdirent'' p e)
      | None \<Rightarrow> (if is_dir n then None else Some (PathError ''readdirent'' p ENOTDIR)))"

definition checkDir :: "fs \<Rightarrow> string \<Rightarrow> go_error option" where
  "checkDir f dir =
     (case os_stat f dir of
        Inl err \<Rightarrow>
          (if os_is_not_exist err then
             (case os_lstat f dir of
                Inr _ \<Rightarrow> Some (Msg (quote dir @ '' is a symlink pointing nowhere''))
              | Inl _ \<Rightarrow> Some (Msg (quote dir @ '' does not exist'')))
           else Some (Wrapf (quote dir @ '': '') err []))
      | Inr fi \<Rightarrow>
          (if \<not> is_dir fi then Some (Msg (quote dir @ '' is not a directory''))
           else (case os_open f dir of
               Inl err \<Rightarrow> Some (Wrapf (quote dir @ '' is not readable: '') err [])
             | Inr d \<Rightarrow>
               (case file_readdirnames f d of
                  Some err \<Rightarrow> Some (Wrapf (quote dir @ '' is not readable: '') err [])
                | None \<Rightarrow> None))))"

section \<open>parseFlags\<close>

record 'b server_env =
  se_program :: program
  se_duration :: "string \<Rightarrow> go_error + int"
  se_usage :: string
  se_embed :: "'b embed"
  se_displayer :: displayer

text \<open>The result is the options and whether verbose logging was enabled.\<close>

definition server_parseFlags ::
    "'b server_env \<Rightarrow> fs \<Rightarrow> logger \<Rightarrow> string list \<Rightarrow> (server_flags \<times> logger) startup" where
  "server_parseFlags env f lg argv =
     and_then (command_line (se_usage env) (server_table (se_duration env)) server_defaults argv)
     (\<lambda>(opt, args).
       if sf_help opt then Exit 0 [ToOut (se_usage env)]
       else if sf_version opt then Exit 0 [ToOut (versionLine (se_program env) @ [nl])]
       else if IsCommand argv then run_man (se_embed env) (se_displayer env) ServerRegistry args
       else and_then (or_fatal (parseTLSVersion (sf_tls_min opt))) (\<lambda>v.
            and_then (fatal_if ''-certbase: '' (checkDir f (so_certbase opt))) (\<lambda>_.
            and_then (fatal_if ''-ccd: '' (checkDir f (so_ccd opt))) (\<lambda>_.
            Go_on (opt\<lparr>so_tls_min := v\<rparr>, if so_verbose opt then EnableVerbose lg else lg)))))"

section \<open>main\<close>

record http_server =
  hs_handler :: "(string \<times> handler list) list"
  hs_read_header_timeout :: int
  hs_read_timeout :: int
  hs_write_timeout :: int
  hs_idle_timeout :: int

text \<open>The value \<open>Serve\<close> returns, and which of the two cases of the \<open>select\<close> comes first; after
  a signal the server is shut down (with its error, if any) and \<open>Serve\<close> returns.\<close>

datatype serve_result = ServerClosed | ServeError go_error

datatype serve_event = Served serve_result | Signalled "go_error option" serve_result

definition serve_error_text :: "serve_result \<Rightarrow> string" where
  "serve_error_text r = (case r of ServerClosed \<Rightarrow> ''http: Server closed'' | ServeError e \<Rightarrow> error_text e)"

definition start_server ::
    "(string \<Rightarrow> string \<Rightarrow> go_error + 'c) \<Rightarrow> (string \<Rightarrow> bool) \<Rightarrow> (string \<Rightarrow> 'c tls_config \<Rightarrow> go_error + 'l) \<Rightarrow>
     fs \<Rightarrow> server_flags \<Rightarrow> ('l \<times> 'c tls_config \<times> http_server) startup" where
  "start_server pair has_certs listen f opt =
     (case TLSServerConfig pair has_certs f (so_sslfile opt)
         \<lparr>tls_certificates = [], tls_root_cas = None, tls_client_cas = None, tls_server_name = [],
          tls_client_auth = VerifyClientCertIfGiven, tls_min_version = so_tls_min opt\<rparr> of
        Panicked m \<Rightarrow> Crash m
      | Returned (tlsConfig, Some err) \<Rightarrow> Fatal (error_text err)
      | Returned (tlsConfig, None) \<Rightarrow>
        and_then (or_fatal (listen (so_serve opt) tlsConfig)) (\<lambda>listener.
          Go_on (listener, tlsConfig,
             \<lparr>hs_handler = newMux, hs_read_header_timeout = so_read_header_timeout opt,
              hs_read_timeout = so_read_timeout opt, hs_write_timeout = so_write_timeout opt,
              hs_idle_timeout = so_idle_timeout opt\<rparr>)))"

text \<open>From the first log line to the return of \<open>main\<close> (exit code 0).\<close>

definition run_server :: "program \<Rightarrow> string \<Rightarrow> serve_event \<Rightarrow> string list \<times> unit startup" where
  "run_server pr addr ev =
     (let started = ''Starting listener '' @ addr @ '' ('' @ pr_path pr @ '': '' @ pr_version pr @ '')'' in
      case ev of
        Served r \<Rightarrow> ([started], Fatal (serve_error_text r))
      | Signalled shut r \<Rightarrow>
          ([started, ''shutting down''] @
           (case shut of None \<Rightarrow> [] | Some err \<Rightarrow> [''shutdown: '' @ error_text err]) @
           (case r of ServerClosed \<Rightarrow> [] | ServeError err \<Rightarrow> [''serve: '' @ error_text err]), Exit 0 []))"

text \<open>Up to the listener: what the command line and the file system make of the start.\<close>

definition server_main ::
    "'b server_env \<Rightarrow> (string \<Rightarrow> string \<Rightarrow> go_error + 'c) \<Rightarrow> (string \<Rightarrow> bool) \<Rightarrow>
     (string \<Rightarrow> 'c tls_config \<Rightarrow> go_error + 'l) \<Rightarrow> fs \<Rightarrow> logger \<Rightarrow> string list \<Rightarrow>
     (server_flags \<times> 'l \<times> 'c tls_config \<times> http_server) startup" where
  "server_main env pair has_certs listen f lg argv =
     and_then (server_parseFlags env f lg argv) (\<lambda>(opt, _).
     and_then (start_server pair has_certs listen f opt) (\<lambda>(listener, tlsConfig, srv).
     Go_on (opt, listener, tlsConfig, srv)))"

section \<open>Facts\<close>

text \<open>What \<open>checkDir\<close> accepts.\<close>

definition usable_dir :: "fs \<Rightarrow> string \<Rightarrow> bool" where
  "usable_dir f d \<longleftrightarrow> (\<exists>m t. lookup_follow (fs_tree f) d = Inr (Directory m t)) \<and>
     fs_deny f SStat d = None \<and> fs_deny f SOpen d = None \<and> fs_deny f SReaddir d = None"

lemma is_dir_iff: "is_dir n \<longleftrightarrow> (\<exists>m t. n = Directory m t)"
  by (cases n) simp_all

lemma checkDir_None: "checkDir f d = None \<longleftrightarrow> usable_dir f d"
  by (auto simp: checkDir_def usable_dir_def os_stat_def os_open_def is_dir_iff
      split: option.splits sum.splits if_splits)

lemma parseTLSVersion_Inr:
  "parseTLSVersion s = Inr v \<longleftrightarrow> s = ''1.2'' \<and> v = VersionTLS12 \<or> s = ''1.3'' \<and> v = VersionTLS13"
  by (auto simp: parseTLSVersion_def)

lemma server_parseFlags_Go_on:
  assumes "server_parseFlags env f lg argv = Go_on (opt, lg')"
  shows "usable_dir f (so_certbase opt) \<and> usable_dir f (so_ccd opt) \<and> \<not> IsCommand argv \<and>
    parseTLSVersion (sf_tls_min opt) = Inr (so_tls_min opt)"
  using assms by (auto simp: server_parseFlags_def and_then_Go_on checkDir_None split: if_splits)

lemma server_parseFlags_no_crash: "server_parseFlags env f lg argv \<noteq> Crash m"
  by (auto simp: server_parseFlags_def and_then_Crash ServerRegistry_def dest!: man_no_crash
      split: if_splits)

section \<open>A concrete start\<close>

definition etc_tree :: tree where
  "etc_tree = [(''certs'', Directory 493 1), (''ccd'', Directory 493 1), (''s.pem'', RegFile 384 1 ''PEM'')]"

definition example_env :: "unit server_env" where
  "example_env = \<lparr>se_program = \<lparr>pr_name = ''cert-proxy-server'', pr_version = ''v1'', pr_path = ''/bin/s''\<rparr>,
     se_duration = (\<lambda>s. Inl (Msg ''parse error'')), se_usage = ''Usage'',
     se_embed = \<lparr>em_read = (\<lambda>_. Inl ErrNotExist), em_gunzip_header = (\<lambda>_. Inr ()),
       em_gunzip_read = (\<lambda>_. Inr []), em_gunzip_close = (\<lambda>_. None)\<rparr>,
     se_displayer = \<lparr>dp_write = (\<lambda>_. None), dp_is_terminal = False,
       dp_look_path = (\<lambda>_. Inl ErrNotExist), dp_run = (\<lambda>_ _. None)\<rparr>\<rparr>"

definition example_argv :: "string list" where
  "example_argv = [''cert-proxy-server'', ''-ccd=ccd'', ''-sslfile'', ''s.pem'', ''--tls-min=1.3'']"

definition example_main :: "(server_flags \<times> unit \<times> (string \<times> string) tls_config \<times> http_server) startup" where
  "example_main = server_main example_env (\<lambda>c k. Inr (c, k)) (\<lambda>p. p \<noteq> []) (\<lambda>a c. Inr ()) (example_fs etc_tree)
     \<lparr>log_debug = False, log_lines = []\<rparr> example_argv"

lemma example_starts: "case example_main of Go_on r \<Rightarrow> True | _ \<Rightarrow> False"
  by code_simp

lemma example_main_no_ca:
  "case server_main example_env (\<lambda>c k. Inr (c, k)) (\<lambda>p. False) (\<lambda>a c. Inr ()) (example_fs etc_tree)
     \<lparr>log_debug = False, log_lines = []\<rparr> example_argv of Crash m \<Rightarrow> True | _ \<Rightarrow> False"
  by code_simp

section \<open>Properties\<close>

text \<open>\<open>checkDir\<close> accepts a name exactly when it leads to a directory that can be read, and it
  says that the name is a symlink pointing nowhere exactly when following the links finds
  nothing although the name itself is there.\<close>

theorem checkDir_correct:
  "(checkDir f d = None \<longleftrightarrow> usable_dir f d) \<and>
   (checkDir f d = Some (Msg (quote d @ '' is a symlink pointing nowhere'')) \<longleftrightarrow>
      os_stat f d = Inl (PathError ''stat'' d ENOENT) \<and> (\<exists>n. os_lstat f d = Inr n)) \<and>
   (checkDir f d = Some (Msg (quote d @ '' does not exist'')) \<longleftrightarrow>
      os_stat f d = Inl (PathError ''stat'' d ENOENT) \<and> (\<forall>n. os_lstat f d \<noteq> Inr n))"
proof -
  have stat: "os_stat f d = Inl err \<Longrightarrow> \<exists>e. err = PathError ''stat'' d e" for err
    by (auto simp: os_stat_def split: option.splits sum.splits)
  show ?thesis
    unfolding checkDir_None
    by (auto simp: checkDir_def dest: stat split: sum.splits option.splits if_splits)
qed

text \<open>C27. A server that gets as far as serving was started safely: the certificate store and the
  client directory are directories it can list, the minimum TLS version is 1.2 or 1.3 as the
  flag says, client certificates are verified whenever one is given, against the CAs of the SSL
  file whose key pair it presents, and the requests go to the routes of \<open>newMux\<close>.\<close>

theorem server_starts_configured:
  assumes "server_main env pair has_certs listen f lg argv = Go_on (opt, listener, cfg, srv)"
  shows "usable_dir f (so_certbase opt) \<and> usable_dir f (so_ccd opt) \<and>
    tls_min_version cfg = (if sf_tls_min opt = ''1.3'' then VersionTLS13 else VersionTLS12) \<and>
    tls_client_auth cfg = VerifyClientCertIfGiven \<and>
    (\<exists>pem cert. os_read_file f (so_sslfile opt) = Inr pem \<and> pair pem pem = Inr cert \<and>
       tls_certificates cfg = [cert] \<and> tls_client_cas cfg = Some [pem]) \<and>
    hs_handler srv = newMux"
proof -
  obtain lg' where flags: "server_parseFlags env f lg argv = Go_on (opt, lg')"
    and start: "start_server pair has_certs listen f opt = Go_on (listener, cfg, srv)"
    using assms by (auto simp: server_main_def and_then_Go_on)
  then have "hs_handler srv = newMux \<and> tls_min_version cfg = so_tls_min opt \<and>
      tls_client_auth cfg = VerifyClientCertIfGiven \<and>
      (\<exists>pem cert. os_read_file f (so_sslfile opt) = Inr pem \<and> pair pem pem = Inr cert \<and>
       tls_certificates cfg = [cert] \<and> tls_client_cas cfg = Some [pem])"
    by (auto simp: start_server_def TLSServerConfig_def TLSConfig_def LoadX509KeyPair_def CertPool_def
        and_then_Go_on split: outcome.splits sum.splits option.splits if_splits)
  with server_parseFlags_Go_on [OF flags] show ?thesis by (auto simp: parseTLSVersion_Inr)
qed

theorem server_starts_configured_witness:
  "\<exists>opt l cfg srv. example_main = Go_on (opt, l, cfg, srv) \<and>
     usable_dir (example_fs etc_tree) (so_certbase opt) \<and> tls_client_auth cfg = VerifyClientCertIfGiven"
proof -
  obtain opt l cfg srv where m: "example_main = Go_on (opt, l, cfg, srv)"
    using example_starts by (auto split: startup.splits)
  show ?thesis using m server_starts_configured [OF m [unfolded example_main_def]] by blast
qed

text \<open>Starting the server panics in one case only: when the SSL file can be read but the CA
  pool finds no certificate in it.  In particular no command line does, the \<open>man\<close> subcommand
  included; every other failure is a regular exit.\<close>

theorem server_start_never_panics:
  assumes "server_main env pair has_certs listen f lg argv = Crash m"
  shows "\<exists>sslfile pem. os_read_file f sslfile = Inr pem \<and> \<not> has_certs pem"
proof -
  obtain opt where "start_server pair has_certs listen f opt = Crash m"
    using assms by (auto simp: server_main_def and_then_Crash server_parseFlags_no_crash)
  then show ?thesis
    by (auto simp: start_server_def TLSServerConfig_def TLSConfig_def LoadX509KeyPair_def CertPool_def
        and_then_Crash split: outcome.splits sum.splits option.splits if_splits)
qed

theorem server_start_never_panics_witness:
  "\<exists>sslfile pem. os_read_file (example_fs etc_tree) sslfile = Inr pem"
proof -
  obtain m where "server_main example_env (\<lambda>c k. Inr (c, k)) (\<lambda>p. False) (\<lambda>a c. Inr ()) (example_fs etc_tree)
     \<lparr>log_debug = False, log_lines = []\<rparr> example_argv = Crash m"
    using example_main_no_ca by (auto split: startup.splits)
  from server_start_never_panics [OF this] show ?thesis by blast
qed

text \<open>\<open>main\<close> tells a failing server from one that was asked to stop: when \<open>Serve\<close> returns on
  its own the process fails with its error, and after a signal it logs the shutdown and exits
  with 0, logging an error of \<open>Shutdown\<close> or \<open>Serve\<close> only when there was one.\<close>

theorem server_exit_codes:
  "case run_server pr addr ev of (lines, ending) \<Rightarrow>
     (case ev of
        Served r \<Rightarrow> exit_code ending = Some 1 \<and> lines = [hd lines]
      | Signalled shut r \<Rightarrow> exit_code ending = Some 0 \<and>
          (lines = [hd lines, ''shutting down''] \<longleftrightarrow> shut = None \<and> r = ServerClosed))"
  by (auto simp: run_server_def Let_def split: serve_event.splits serve_result.splits option.splits)

end
