(* ===== verification/CertReq.thy ===== *)
theory CertReq
  imports Validate Redact
begin

text \<open>
  \<open>cmd/cert-proxy-client/cert\<close>, the part that builds requests (\<open>cert.go\<close> lines 31 to 181 and
  325 to 358), and the \<open>-format\<close> flag (\<open>flag.go\<close>).  A template of \<open>text/template\<close> is the list
  of its pieces.  \<open>ip6\<close> is the parameter of the URL parser, \<open>version\<close> stands for
  \<open>program.Version\<close>.
\<close>

section \<open>Roles, formats and templates\<close>

datatype role = RoleCRT | RoleKEY | RoleCHAIN | RoleFULLCHAIN | RoleBUNDLE

type_synonym format = string

definition FormatPEM :: format where "FormatPEM = ''PEM''"
definition FormatPKCS12 :: format where "FormatPKCS12 = ''PKCS12''"

text \<open>A format that is not a key of the map has no roles.\<close>

definition ROLES :: "format \<Rightarrow> role list" where
  "ROLES format =
     (if format = FormatPEM then [RoleCRT, RoleKEY, RoleCHAIN, RoleFULLCHAIN]
      else if format = FormatPKCS12 then [RoleBUNDLE] else [])"

datatype piece = Text string | Domain | Proxy | Local

record templates =
  t_remote :: "piece list"
  t_local :: "piece list"
  t_env :: "piece list"

definition TEMPLATES :: "role \<Rightarrow> templates option" where
  "TEMPLATES r = Some (case r of
     RoleCRT \<Rightarrow> \<lparr>t_remote = [Proxy, Text ''/v1/cert/'', Domain],
       t_local = [Domain, Text ''/cert.pem''], t_env = [Text ''CERTFILE='', Local]\<rparr>
   | RoleKEY \<Rightarrow> \<lparr>t_remote = [Proxy, Text ''/v1/privkey/'', Domain],
       t_local = [Domain, Text ''/privkey.pem''], t_env = [Text ''KEYFILE='', Local]\<rparr>
   | RoleCHAIN \<Rightarrow> \<lparr>t_remote = [Proxy, Text ''/v1/chain/'', Domain],
       t_local = [Domain, Text ''/chain.pem''], t_env = [Text ''CHAINFILE='', Local]\<rparr>
   | RoleFULLCHAIN \<Rightarrow> \<lparr>t_remote = [Proxy, Text ''/v1/fullchain/'', Domain],
       t_local = [Domain, Text ''/fullchain.pem''], t_env = [Text ''FULLCHAINFILE='', Local]\<rparr>
   | RoleBUNDLE \<Rightarrow> \<lparr>t_remote = [Proxy, Text ''/v1/bundle/'', Domain],
       t_local = [Domain, Text ''/bundle.pfx''], t_env = [Text ''BUNDLEFILE='', Local]\<rparr>)"

record template_context =
  tc_domain :: string
  tc_proxy :: string
  tc_local :: string

fun piece_text :: "template_context \<Rightarrow> piece \<Rightarrow> string" where
  "piece_text ctx (Text s) = s"
| "piece_text ctx Domain = tc_domain ctx"
| "piece_text ctx Proxy = tc_proxy ctx"
| "piece_text ctx Local = tc_local ctx"

definition mustExpand :: "piece list \<Rightarrow> template_context \<Rightarrow> string" where
  "mustExpand t ctx = concat (map (piece_text ctx) t)"

text \<open>\<open>flag.go\<close>: the new value of the flag, or an error that leaves it alone.\<close>

definition format_Set :: "string \<Rightarrow> format \<Rightarrow> format \<times> go_error option" where
  "format_Set v format =
     (let s = to_upper v in
      if s = ''PEM'' then (FormatPEM, None)
      else if s = ''PKCS12'' then (FormatPKCS12, None)
      else (format, Some (Msg ''invalid format spec'')))"

definition format_String :: "format \<Rightarrow> string" where
  "format_String format = format"

section \<open>Requests\<close>

record client_request =
  cq_url :: url
  cq_headers :: "(string \<times> string) list"

record cert_item =
  ci_role :: role
  ci_remote :: client_request
  ci_local :: string
  ci_env :: string
  ci_private :: bool
  ci_data :: string

record cert_req =
  req_domain :: string
  req_items :: "cert_item list"
  req_hook :: string
  req_env :: "string list"

text \<open>\<open>http.NewRequest\<close> parses the URL and drops an empty port.\<close>

definition has_port :: "string \<Rightarrow> bool" where
  "has_port s = (case (last_index CHR '':'' s, last_index CHR '']'' s) of
     (None, _) \<Rightarrow> False | (Some i, None) \<Rightarrow> True | (Some i, Some j) \<Rightarrow> j < i)"

definition remove_empty_port :: "string \<Rightarrow> string" where
  "remove_empty_port s = (if has_port s \<and> last s = CHR '':'' then butlast s else s)"

definition new_request :: "(string \<Rightarrow> bool) \<Rightarrow> string \<Rightarrow> go_error + client_request" where
  "new_request ip6 raw =
     (case url_parse ip6 raw of Inl err \<Rightarrow> Inl err
      | Inr u \<Rightarrow> Inr \<lparr>cq_url = u\<lparr>u_host := remove_empty_port (u_host u)\<rparr>, cq_headers = []\<rparr>)"

definition request_header_add :: "string \<Rightarrow> string \<Rightarrow> client_request \<Rightarrow> client_request" where
  "request_header_add k v r = r\<lparr>cq_headers := cq_headers r @ [(k, v)]\<rparr>"

definition request_header_set :: "string \<Rightarrow> string \<Rightarrow> client_request \<Rightarrow> client_request" where
  "request_header_set k v r = r\<lparr>cq_headers := AList.update k v (cq_headers r)\<rparr>"

definition request_header_get :: "client_request \<Rightarrow> string \<Rightarrow> string" where
  "request_header_get r k = (case map_of (cq_headers r) k of None \<Rightarrow> [] | Some v \<Rightarrow> v)"

text \<open>The query of a bundle request.\<close>

definition bundle_query :: "string \<Rightarrow> string \<Rightarrow> url_values \<Rightarrow> url_values" where
  "bundle_query pass compt q =
     (let q1 = values_set ''pass'' pass (values_set ''format'' ''PKCS12'' q)
      in if compt \<noteq> [] then values_set ''pkcs12-compat'' compt q1 else q1)"

definition with_bundle_query :: "string \<Rightarrow> string \<Rightarrow> client_request \<Rightarrow> client_request" where
  "with_bundle_query pass compt r =
     (let u = cq_url r in
      r\<lparr>cq_url := u\<lparr>u_raw_query := values_encode (bundle_query pass compt (url_query u))\<rparr>\<rparr>)"

section \<open>NewReq\<close>

definition new_item ::
    "(string \<Rightarrow> bool) \<Rightarrow> string \<Rightarrow> string \<Rightarrow> string \<Rightarrow> string \<Rightarrow> role \<Rightarrow> templates \<Rightarrow> template_context \<Rightarrow>
     (go_error + cert_item) \<times> template_context" where
  "new_item ip6 version basedir pass compt role ts ctx =
     (let local = path_join [basedir, mustExpand (t_local ts) ctx];
          ctx' = ctx\<lparr>tc_local := local\<rparr>;
          env = mustExpand (t_env ts) ctx'
      in ((case new_request ip6 (mustExpand (t_remote ts) ctx') of Inl err \<Rightarrow> Inl err
           | Inr r \<Rightarrow>
             (let r1 = (if role = RoleBUNDLE then with_bundle_query pass compt r else r);
                  r2 = request_header_add ''X-Version'' version r1
              in Inr \<lparr>ci_role = role, ci_remote = r2, ci_local = local, ci_env = env,
                   ci_private = (role = RoleKEY \<or> role = RoleBUNDLE), ci_data = []\<rparr>)), ctx'))"

fun newreq_loop ::
    "(string \<Rightarrow> bool) \<Rightarrow> string \<Rightarrow> string \<Rightarrow> string \<Rightarrow> string \<Rightarrow> role list \<Rightarrow> template_context \<Rightarrow> cert_req \<Rightarrow>
     (go_error + cert_req) outcome" where
  "newreq_loop ip6 version basedir pass compt [] ctx req = Returned (Inr req)"
| "newreq_loop ip6 version basedir pass compt (role # roles) ctx req =
     (case TEMPLATES role of
        None \<Rightarrow> Panicked ''template is missing''
      | Some ts \<Rightarrow>
        (case new_item ip6 version basedir pass compt role ts ctx of
           (Inl err, _) \<Rightarrow> Returned (Inl err)
         | (Inr item, ctx') \<Rightarrow>
             newreq_loop ip6 version basedir pass compt roles ctx'
               (req\<lparr>req_items := req_items req @ [item]\<rparr>)))"

definition NewReq ::
    "(string \<Rightarrow> bool) \<Rightarrow> string \<Rightarrow> string \<Rightarrow> string \<Rightarrow> string \<Rightarrow> string \<Rightarrow> format \<Rightarrow> string \<Rightarrow> string \<Rightarrow>
     (go_error + cert_req) outcome" where
  "NewReq ip6 version domain remote basedir hook format pass compt =
     (case ValidateDomain domain of
        Some err \<Rightarrow> Returned (Inl (Wrapf (''invalid domain '' @ quote domain @ '': '') err []))
      | None \<Rightarrow>
          newreq_loop ip6 version basedir pass compt (ROLES format)
            \<lparr>tc_domain = domain, tc_proxy = remote, tc_local = []\<rparr>
            \<lparr>req_domain = domain, req_items = [], req_hook = hook, req_env = [''DOMAIN='' @ domain]\<rparr>)"

definition req_String :: "cert_req \<Rightarrow> string" where
  "req_String req = req_domain req @ '' ('' @ dec_nat (length (req_items req)) @ '' items)''"

section \<open>redactRequestError\<close>

text \<open>\<open>errors.As\<close> finds the first \<open>*url.Error\<close> of the chain of wrapped errors.\<close>

fun as_url_error :: "go_error \<Rightarrow> (string \<times> string \<times> go_error) option" where
  "as_url_error (UrlError op u e) = Some (op, u, e)"
| "as_url_error (Wrapf a e b) = as_url_error e"
| "as_url_error e = None"

definition redactRequestError :: "(string \<Rightarrow> bool) \<Rightarrow> go_error \<Rightarrow> go_error" where
  "redactRequestError ip6 err =
     (case as_url_error err of None \<Rightarrow> err
      | Some (op, raw, e) \<Rightarrow>
        (case url_parse ip6 raw of
           Inr parsed \<Rightarrow> UrlError op (RedactedURL (Some parsed) [''pass'']) e
         | Inl parseErr \<Rightarrow> UrlError op ''REDACTED'' e))"

end
