(* ===== verification/ClientInit.thy ===== *)
theory ClientInit
  imports GoFlag Shared Lists CertReq
begin

text \<open>
  \<open>cmd/cert-proxy-client\<close>, the start: the platform constants (\<open>const_*.go\<close>), the \<open>-stderr\<close>
  flag (\<open>out.go\<close>), the umask (\<open>umask_*.go\<close>), and of \<open>init.go\<close> \<open>withScheme\<close>, the options,
  \<open>parseFlags\<close>, \<open>checkConnectURL\<close> and \<open>checkCertbase\<close>.  Parameters: \<open>integer\<close> is
  \<open>strconv.ParseInt\<close> of package \<open>flag\<close>, \<open>duration\<close> is \<open>time.ParseDuration\<close>, \<open>usage\<close> the
  text of \<open>flag.Usage\<close>, \<open>getenv\<close> the process environment.
\<close>

section \<open>Platforms\<close>

text \<open>The constants exist for two systems; the program does not build elsewhere.\<close>

datatype platform = Linux | Windows

definition STDERR :: "platform \<Rightarrow> string" where
  "STDERR pf = (case pf of Linux \<Rightarrow> ''stderr'' | Windows \<Rightarrow> ''stdout'')"

definition FORMAT :: "platform \<Rightarrow> format" where
  "FORMAT pf = (case pf of Linux \<Rightarrow> FormatPEM | Windows \<Rightarrow> FormatPKCS12)"

definition PKCS12Compat :: "platform \<Rightarrow> string" where
  "PKCS12Compat pf = (case pf of Linux \<Rightarrow> ''modern'' | Windows \<Rightarrow> ''modern'')"

definition default_UseSymlink :: "platform \<Rightarrow> bool" where
  "default_UseSymlink pf = (pf \<noteq> Windows)"

text \<open>\<open>hardenUmask\<close>: the file mode creation mask afterwards.\<close>

definition harden_mask :: "mode \<Rightarrow> mode" where
  "harden_mask currentUmask = (if currentUmask AND 0x3F \<noteq> 0x3F then 0x3F else currentUmask)"

definition hardenUmask :: "platform \<Rightarrow> fs \<Rightarrow> fs" where
  "hardenUmask pf f = (case pf of Windows \<Rightarrow> f | Linux \<Rightarrow> f\<lparr>fs_umask := harden_mask (fs_umask f)\<rparr>)"

section \<open>The stderr flag\<close>

definition out_Set :: "string \<Rightarrow> string \<Rightarrow> string \<times> go_error option" where
  "out_Set v out =
     (let s = to_upper v in
      if s = ''STDERR'' \<or> s = ''STDOUT'' then (s, None)
      else (out, Some (Msg (''unknown output: '' @ s))))"

definition out_String :: "string \<Rightarrow> string" where
  "out_String out = out"

section \<open>The address of the server\<close>

definition withScheme :: "string \<Rightarrow> string" where
  "withScheme addr =
     (if contains addr ''://'' then addr
      else if has_prefix addr ''//'' then ''https:'' @ addr
      else if addr = [] then addr
      else ''https://'' @ addr)"

definition checkConnectURL :: "url \<Rightarrow> go_error option" where
  "checkConnectURL u =
     (if u_scheme u = ''http'' then Some (Msg ''-connect must use https (private keys are transferred)'')
      else if u_scheme u \<noteq> ''https'' then
        Some (Msg (''-connect scheme must be https, got '' @ quote (u_scheme u)))
      else if u_host u = [] then Some (Msg ''-connect must name a server'')
      else if u_user u \<noteq> None then Some (Msg ''-connect must not contain user information'')
      else if u_raw_query u \<noteq> [] \<or> u_force_query u then Some (Msg ''-connect must not contain a query'')
      else if u_fragment u \<noteq> [] then Some (Msg ''-connect must not contain a fragment'')
      else None)"

definition trim_path :: "url \<Rightarrow> url" where
  "trim_path u = u\<lparr>u_path := trim_right (\<lambda>c. c = CHR ''/'') (u_path u)\<rparr>"

text \<open>The connect option made canonical.\<close>

definition sanitize_connect :: "(string \<Rightarrow> bool) \<Rightarrow> string \<Rightarrow> string startup" where
  "sanitize_connect ip6 connect =
     and_then (or_fatal (url_parse ip6 (withScheme connect))) (\<lambda>connectURL.
     and_then (fatal_if [] (checkConnectURL connectURL)) (\<lambda>_.
     Go_on (url_string (trim_path connectURL))))"

section \<open>checkCertbase\<close>

definition checkCertbase :: "string \<Rightarrow> fs \<Rightarrow> string \<Rightarrow> go_error option" where
  "checkCertbase program_name f dir =
     (case os_stat f dir of
        Inl err \<Rightarrow>
          (if os_is_not_exist err then
             (case os_lstat f dir of
                Inr _ \<Rightarrow> Some (Msg (''-certbase '' @ quote dir @ '' is a symlink pointing nowhere''))
              | Inl _ \<Rightarrow> Some (Msg (''-certbase '' @ quote dir @ '' does not exist; the certificate store is created by the package or by the administrator, not by '' @ program_name)))
           else Some (Wrapf (''-certbase '' @ quote dir @ '': '') err []))
      | Inr fi \<Rightarrow>
          (if \<not> is_dir fi then Some (Msg (''-certbase '' @ quote dir @ '' is not a directory''))
           else None))"

section \<open>Options\<close>

record client_opt =
  co_auto :: bool
  co_certbase :: string
  co_cnfile :: string
  co_connect :: string
  co_format :: format
  co_hook :: string
  co_jobs :: int
  co_passout :: string
  co_pkcs12_compat :: string
  co_shared_hook :: string
  co_server_cn :: string
  co_sslfile :: string
  co_timeout :: int
  co_verbose :: bool
  co_use_symlink :: bool
  co_force :: bool

text \<open>The flags local to \<open>parseFlags\<close>.\<close>

record client_flags = client_opt +
  cf_help :: bool
  cf_version :: bool
  cf_stderr :: string

definition client_defaults :: "platform \<Rightarrow> int \<Rightarrow> client_flags" where
  "client_defaults pf cpus =
     \<lparr>co_auto = True, co_certbase = ''certs'', co_cnfile = [], co_connect = ''https://localhost:4433'',
      co_format = FORMAT pf, co_hook = [], co_jobs = cpus, co_passout = [],
      co_pkcs12_compat = PKCS12Compat pf, co_shared_hook = [], co_server_cn = [],
      co_sslfile = ''client-ssl.pem'', co_timeout = 60 * 1000000000, co_verbose = False,
      co_use_symlink = default_UseSymlink pf, co_force = False,
      cf_help = False, cf_version = False, cf_stderr = STDERR pf\<rparr>"

text \<open>A flag whose \<open>Set\<close> updates a value of its own type.\<close>

definition custom_flag :: "(string \<Rightarrow> 'v \<Rightarrow> 'v \<times> go_error option) \<Rightarrow> ('o \<Rightarrow> 'v) \<Rightarrow> ('v \<Rightarrow> 'o \<Rightarrow> 'o) \<Rightarrow> 'o flag" where
  "custom_flag assign current store =
     ValueFlag (\<lambda>v st. case assign v (current st) of (x, None) \<Rightarrow> Inr (store x st) | (x, Some e) \<Rightarrow> Inl e)"

definition client_table ::
    "(string \<Rightarrow> go_error + int) \<Rightarrow> (string \<Rightarrow> go_error + int) \<Rightarrow> (string \<times> client_flags flag) list" where
  "client_table integer duration =
     [(''symlink'', BoolFlag (\<lambda>b st. st\<lparr>co_use_symlink := b\<rparr>)),
      (''auto'', BoolFlag (\<lambda>b st. st\<lparr>co_auto := b\<rparr>)),
      (''verbose'', BoolFlag (\<lambda>b st. st\<lparr>co_verbose := b\<rparr>)),
      (''force'', BoolFlag (\<lambda>b st. st\<lparr>co_force := b\<rparr>)),
      (''jobs'', parsed_flag integer (\<lambda>n st. st\<lparr>co_jobs := n\<rparr>)),
      (''certbase'', string_flag (\<lambda>v st. st\<lparr>co_certbase := v\<rparr>)),
      (''cnfile'', string_flag (\<lambda>v st. st\<lparr>co_cnfile := v\<rparr>)),
      (''connect'', string_flag (\<lambda>v st. st\<lparr>co_connect := v\<rparr>)),
      (''hook'', string_flag (\<lambda>v st. st\<lparr>co_hook := v\<rparr>)),
      (''passout'', string_flag (\<lambda>v st. st\<lparr>co_passout := v\<rparr>)),
      (''pkcs12-compat'', string_flag (\<lambda>v st. st\<lparr>co_pkcs12_compat := v\<rparr>)),
      (''shared-hook'', string_flag (\<lambda>v st. st\<lparr>co_shared_hook := v\<rparr>)),
      (''servername'', string_flag (\<lambda>v st. st\<lparr>co_server_cn := v\<rparr>)),
      (''sslfile'', string_flag (\<lambda>v st. st\<lparr>co_sslfile := v\<rparr>)),
      (''timeout'', parsed_flag duration (\<lambda>t st. st\<lparr>co_timeout := t\<rparr>)),
      (''format'', custom_flag format_Set co_format (\<lambda>v st. st\<lparr>co_format := v\<rparr>)),
      (''help'', BoolFlag (\<lambda>b st. st\<lparr>cf_help := b\<rparr>)),
      (''version'', BoolFlag (\<lambda>b st. st\<lparr>cf_version := b\<rparr>)),
      (''stderr'', custom_flag out_Set cf_stderr (\<lambda>v st. st\<lparr>cf_stderr := v\<rparr>))]"

section \<open>parseFlags\<close>

record 'b client_env =
  ce_platform :: platform
  ce_cpus :: int
  ce_program_name :: string
  ce_program_version :: string
  ce_program_path :: string
  ce_integer :: "string \<Rightarrow> go_error + int"
  ce_duration :: "string \<Rightarrow> go_error + int"
  ce_usage :: string
  ce_getenv :: "string \<Rightarrow> string option"
  ce_ip6 :: "string \<Rightarrow> bool"
  ce_embed :: "'b embed"
  ce_displayer :: displayer

definition client_versionLine :: "'b client_env \<Rightarrow> string" where
  "client_versionLine env =
     ce_program_name env @ '' '' @ ce_program_version env @ '' '' @ ce_program_path env"

text \<open>The domains of the command line: each one is checked and added.\<close>

fun add_args :: "string list \<Rightarrow> uniq_strings \<Rightarrow> uniq_strings startup" where
  "add_args [] CNs = Go_on CNs"
| "add_args (v # vs) CNs =
     and_then (fatal_if (''invalid domain '' @ quote v @ '': '') (ValidateDomain v)) (\<lambda>_.
     add_args vs (uniq_add CNs [v]))"

definition read_passout :: "'b client_env \<Rightarrow> fs \<Rightarrow> string \<Rightarrow> string startup" where
  "read_passout env f passout =
     (if passout \<noteq> [] then or_fatal (secret_Read (ce_getenv env) f passout) else Go_on [])"

text \<open>The result: the options, the domains, the logger, and whether standard error was replaced
  by standard output.\<close>

definition client_parseFlags ::
    "'b client_env \<Rightarrow> fs \<Rightarrow> logger \<Rightarrow> string list \<Rightarrow>
     (client_flags \<times> uniq_strings \<times> logger \<times> bool) startup" where
  "client_parseFlags env f lg argv =
     and_then (command_line (ce_usage env) (client_table (ce_integer env) (ce_duration env))
       (client_defaults (ce_platform env) (ce_cpus env)) argv)
     (\<lambda>(opt, args).
       if cf_help opt then Exit 0 [ToOut (ce_usage env)]
       else if cf_version opt then Exit 0 [ToOut (client_versionLine env @ [nl])]
       else if IsCommand argv then run_man (ce_embed env) (ce_displayer env) ClientRegistry args
       else if \<not> co_auto opt \<and> co_cnfile opt = [] \<and> args = [] then Exit 1 [ToErr (ce_usage env)]
       else and_then (add_args args {}) (\<lambda>CNs.
            and_then (read_passout env f (co_passout opt)) (\<lambda>passout.
            and_then (sanitize_connect (ce_ip6 env) (co_connect opt)) (\<lambda>connect.
            and_then (fatal_if [] (checkCertbase (ce_program_name env) f (co_certbase opt))) (\<lambda>_.
            Go_on (opt\<lparr>co_passout := passout, co_connect := connect\<rparr>, CNs,
              if co_verbose opt then EnableVerbose lg else lg, cf_stderr opt = ''STDOUT''))))))"

section \<open>Facts\<close>

lemma add_args_Go_on:
  "add_args vs CNs = Go_on CNs' \<longleftrightarrow> CNs' = CNs \<union> set vs \<and> (\<forall>v\<in>set vs. ValidateDomain v = None)"
  by (induction vs arbitrary: CNs) (auto simp: and_then_Go_on uniq_add_union)

lemma add_args_not_Crash [simp]: "add_args vs CNs \<noteq> Crash m"
  by (induction vs arbitrary: CNs) (auto simp: and_then_Crash)

lemma read_passout_not_Crash [simp]: "read_passout env f p \<noteq> Crash m"
  by (simp add: read_passout_def)

lemma sanitize_connect_not_Crash [simp]: "sanitize_connect ip6 c \<noteq> Crash m"
  by (simp add: sanitize_connect_def and_then_Crash)

text \<open>The URLs the client accepts as its server.\<close>

definition base_url :: "url \<Rightarrow> bool" where
  "base_url u \<longleftrightarrow> u_scheme u = ''https'' \<and> u_host u \<noteq> [] \<and> u_user u = None \<and> u_raw_query u = [] \<and>
     \<not> u_force_query u \<and> u_fragment u = []"

lemma checkConnectURL_None: "checkConnectURL u = None \<longleftrightarrow> base_url u"
  by (simp add: checkConnectURL_def base_url_def del: not_None_eq)

lemma sanitize_connect_Go_on:
  "sanitize_connect ip6 connect = Go_on c \<longleftrightarrow>
     (\<exists>u. url_parse ip6 (withScheme connect) = Inr u \<and> base_url u \<and> c = url_string (trim_path u))"
  by (auto simp: sanitize_connect_def and_then_Go_on checkConnectURL_None)

definition known_format :: "client_flags \<Rightarrow> bool" where
  "known_format st \<longleftrightarrow> co_format st = FormatPEM \<or> co_format st = FormatPKCS12"

lemma client_table_keeps: "table_keeps known_format (client_table integer duration)"
  by (auto simp: table_keeps_def client_table_def string_flag_def parsed_flag_def custom_flag_def
      known_format_def format_Set_def Let_def split: sum.splits prod.splits option.splits if_splits)

lemma client_format_known:
  "command_line usage (client_table integer duration) (client_defaults pf cpus) argv = Go_on (opt, args) \<Longrightarrow>
     known_format opt"
  by (erule command_line_keeps [OF client_table_keeps, rotated])
    (cases pf; simp add: known_format_def client_defaults_def FORMAT_def)

text \<open>A mask without the group and other bits hides them from every mode.\<close>

lemma harden_mask_strict: "harden_mask m AND 0x3F = 0x3F"
  by (simp add: harden_mask_def)

lemma masked_private:
  assumes "u AND 0x3F = (0x3F :: mode)"
  shows "(m AND NOT u) AND 0x3F = 0"
proof -
  have "(m AND NOT u) AND 0x3F = (m AND NOT u) AND (u AND 0x3F)" using assms by simp
  also have "\<dots> = m AND ((NOT u AND u) AND 0x3F)" by (simp only: and.assoc)
  finally show ?thesis by simp
qed

text \<open>What the options of a client that goes on are like.\<close>

definition good_options :: "'b client_env \<Rightarrow> fs \<Rightarrow> client_flags \<Rightarrow> bool" where
  "good_options env f opt \<longleftrightarrow> known_format opt \<and>
     (\<exists>u. base_url u \<and> co_connect opt = url_string (trim_path u)) \<and>
     (\<exists>fi. os_stat f (co_certbase opt) = Inr fi \<and> is_dir fi)"

lemma checkCertbase_None: "checkCertbase name f dir = None \<longleftrightarrow> (\<exists>fi. os_stat f dir = Inr fi \<and> is_dir fi)"
  by (auto simp: checkCertbase_def split: sum.splits if_splits)

lemma client_parseFlags_Go_on:
  assumes "client_parseFlags env f lg argv = Go_on (opt, CNs, lg', redirect)"
  shows "good_options env f opt \<and> finite CNs \<and> (\<forall>d\<in>CNs. ValidateDomain d = None) \<and> \<not> IsCommand argv \<and>
    (co_auto opt \<or> co_cnfile opt \<noteq> [] \<or> CNs \<noteq> {})"
proof -
  obtain opt0 args passout connect where
    line: "command_line (ce_usage env) (client_table (ce_integer env) (ce_duration env))
       (client_defaults (ce_platform env) (ce_cpus env)) argv = Go_on (opt0, args)"
    and opt: "opt = opt0\<lparr>co_passout := passout, co_connect := connect\<rparr>"
    and go: "\<not> IsCommand argv" "co_auto opt0 \<or> co_cnfile opt0 \<noteq> [] \<or> args \<noteq> []"
      "add_args args {} = Go_on CNs" "sanitize_connect (ce_ip6 env) (co_connect opt0) = Go_on connect"
      "checkCertbase (ce_program_name env) f (co_certbase opt0) = None"
    using assms by (auto simp: client_parseFlags_def and_then_Go_on split: if_splits)
  have "known_format opt" using client_format_known [OF line] by (simp add: opt known_format_def)
  then have "good_options env f opt"
    using go by (auto simp: good_options_def opt sanitize_connect_Go_on checkCertbase_None)
  then show ?thesis using go(1-3) by (auto simp: opt add_args_Go_on)
qed

lemma client_parseFlags_no_crash: "client_parseFlags env f lg argv \<noteq> Crash m"
  by (auto simp: client_parseFlags_def and_then_Crash ClientRegistry_def dest!: man_no_crash
      split: if_splits)

section \<open>A concrete command line\<close>

definition client_example_env :: "unit client_env" where
  "client_example_env = \<lparr>ce_platform = Linux, ce_cpus = 4, ce_program_name = ''cert-proxy-client'',
     ce_program_version = ''v1'', ce_program_path = ''/bin/c'', ce_integer = (\<lambda>s. Inl (Msg ''parse error'')),
     ce_duration = (\<lambda>s. Inl (Msg ''parse error'')), ce_usage = ''Usage'', ce_getenv = (\<lambda>_. None),
     ce_ip6 = (\<lambda>_. False),
     ce_embed = \<lparr>em_read = (\<lambda>_. Inl ErrNotExist), em_gunzip_header = (\<lambda>_. Inr ()),
       em_gunzip_read = (\<lambda>_. Inr []), em_gunzip_close = (\<lambda>_. None)\<rparr>,
     ce_displayer = \<lparr>dp_write = (\<lambda>_. None), dp_is_terminal = False,
       dp_look_path = (\<lambda>_. Inl ErrNotExist), dp_run = (\<lambda>_ _. None)\<rparr>\<rparr>"

definition example_parse :: "string list \<Rightarrow> (client_flags \<times> uniq_strings \<times> logger \<times> bool) startup" where
  "example_parse args = client_parseFlags client_example_env (example_fs [(''certs'', Directory 493 1)])
     \<lparr>log_debug = False, log_lines = []\<rparr> (''c'' # args)"

lemma example_parsed:
  "case example_parse [''-format'', ''pkcs12'', ''-connect=certs.example:4433/'', ''a.example''] of
     Go_on (opt, CNs, x) \<Rightarrow> co_connect opt = ''https://certs.example:4433'' | _ \<Rightarrow> False"
  by code_simp

section \<open>Properties\<close>



text \<open>After \<open>hardenUmask\<close> every file and directory the client creates starts its life without
  any permission for group and others, whatever mask the process was started with and whatever
  mode it asks for; a mask that was stricter stays as it is.\<close>

theorem hardened_umask_hides_new_files:
  assumes "os_create_excl p m (hardenUmask Linux f) = (None, g)"
    and "os_mkdir d m' (hardenUmask Linux f) = (None, h)"
  shows "(\<exists>mo. map_of (fs_tree g) p = Some (RegFile mo (fs_clock f) []) \<and> mo AND 0x3F = 0) \<and>
    (\<exists>mo. map_of (fs_tree h) d = Some (Directory mo (fs_clock f)) \<and> mo AND 0x3F = 0) \<and>
    (fs_umask f AND 0x3F = 0x3F \<longrightarrow> hardenUmask Linux f = f)"
  using assms masked_private [OF harden_mask_strict]
  by (auto simp: os_create_excl_def os_mkdir_def hardenUmask_def harden_mask_def split: option.splits)

theorem hardened_umask_hides_new_files_witness:
  "\<exists>g. os_create_excl ''d/key'' 438 (hardenUmask Linux (example_fs [(''d'', Directory 448 1)])) = (None, g) \<and>
     (\<exists>mo. map_of (fs_tree g) ''d/key'' = Some (RegFile mo 1000 []) \<and> mo AND 0x3F = 0)"
proof -
  let ?f = "example_fs [(''d'', Directory 448 1)]"
  have ok: "fst (os_create_excl ''d/key'' 438 (hardenUmask Linux ?f)) = None"
    "fst (os_mkdir ''d/e'' 511 (hardenUmask Linux ?f)) = None" by code_simp+
  obtain g h where g: "os_create_excl ''d/key'' 438 (hardenUmask Linux ?f) = (None, g)"
    and h: "os_mkdir ''d/e'' 511 (hardenUmask Linux ?f) = (None, h)"
    using ok by (metis prod.collapse)
  show ?thesis using g hardened_umask_hides_new_files [OF g h] by (auto simp: example_fs_def)
qed

end
