(* ===== verification/Endpoint.thy ===== *)
theory Endpoint
  imports ClientInit
begin

text \<open>
  The URLs of the client's requests.  For server addresses made of plain characters, with an
  optional port and a base path, the canonical form of \<open>-connect\<close> is computed and the endpoint
  URLs built from it are parsed; so what is asked for, and from which server, follows from the
  options.
\<close>

section \<open>Plain addresses\<close>

definition url_char :: "char \<Rightarrow> bool" where
  "url_char c \<longleftrightarrow> domain_char c \<or> c = CHR ''/'' \<or> c = CHR '':'' \<or> c = CHR ''~''"

definition base_char :: "char \<Rightarrow> bool" where
  "base_char c \<longleftrightarrow> url_char c \<and> c \<noteq> CHR ''*'' \<and> c \<noteq> CHR '':''"

definition host_char :: "char \<Rightarrow> bool" where
  "host_char c \<longleftrightarrow> domain_char c \<and> c \<noteq> CHR ''*''"

text \<open>A host name, perhaps with a port.\<close>

definition plain_authority :: "string \<Rightarrow> bool" where
  "plain_authority a \<longleftrightarrow> (\<exists>h p. h \<noteq> [] \<and> list_all host_char h \<and> list_all is_digit p \<and>
     (a = h \<or> p \<noteq> [] \<and> a = h @ CHR '':'' # p))"

definition plain_path :: "string \<Rightarrow> bool" where
  "plain_path p \<longleftrightarrow> list_all url_char p \<and> (p = [] \<or> hd p = CHR ''/'')"

definition base_path :: "string \<Rightarrow> bool" where
  "base_path p \<longleftrightarrow> list_all base_char p \<and> (p = [] \<or> hd p = CHR ''/'')"

lemma base_path_Nil: "base_path []"
  by (simp add: base_path_def)

lemma url_char_not:
  "\<not> url_char CHR ''#''" "\<not> url_char CHR ''?''" "\<not> url_char CHR ''%''" "\<not> url_char CHR ''@''"
  "\<not> url_char CHR ''[''" "\<not> url_char CHR '' ''" "\<not> url_char CHR ''+''"
  by (simp_all add: url_char_def domain_char_def is_lower_def is_upper_def is_digit_def)

lemma not_in_url: "list_all url_char s \<Longrightarrow> \<not> url_char c \<Longrightarrow> c \<notin> set s"
  by (auto simp: list_all_iff)

lemma url_char_ctl: "url_char c \<Longrightarrow> \<not> is_ctl c"
  by (auto simp: url_char_def domain_char_def is_ctl_def is_lower_def is_upper_def is_digit_def)

lemma digit_host_char: "is_digit c \<Longrightarrow> host_char c"
  by (auto simp: host_char_def domain_char_def is_digit_def)

lemma host_char_not: "\<not> host_char CHR '':''" "\<not> host_char CHR ''/''" "\<not> host_char CHR ''*''"
  using domain_char_not by (auto simp: host_char_def)

lemma host_url_char: "host_char c \<Longrightarrow> url_char c"
  by (simp add: host_char_def url_char_def)

lemma url_colon: "url_char CHR '':''"
  by (simp add: url_char_def)

lemma plain_authorityE:
  assumes "plain_authority a"
  obtains h p where "h \<noteq> []" "list_all host_char h" "list_all host_char p" "list_all is_digit p"
    "a = h \<or> p \<noteq> [] \<and> a = h @ CHR '':'' # p"
  using assms unfolding plain_authority_def by (metis digit_host_char list.pred_mono_strong)

lemma not_in_host: "list_all host_char s \<Longrightarrow> \<not> host_char c \<Longrightarrow> c \<notin> set s"
  by (auto simp: list_all_iff)

lemma plain_authority_chars:
  assumes "plain_authority a"
  shows "list_all url_char a" and "CHR ''/'' \<notin> set a" and "a \<noteq> []"
proof -
  obtain h p where hp: "h \<noteq> []" "list_all host_char h" "list_all host_char p"
    and a: "a = h \<or> p \<noteq> [] \<and> a = h @ CHR '':'' # p"
    using assms by (rule plain_authorityE)
  have "list_all url_char h" "list_all url_char p"
    using hp host_url_char by (metis list.pred_mono_strong)+
  then show "list_all url_char a" using a url_colon by auto
  show "CHR ''/'' \<notin> set a" using a hp not_in_host host_char_not(2) by auto
  show "a \<noteq> []" using a hp(1) by auto
qed

lemma url_char_escape: "url_char c \<Longrightarrow> c \<noteq> CHR ''*'' \<Longrightarrow> \<not> should_escape EncodePath c"
  by (auto simp: url_char_def domain_char_def should_escape_def alnum_def)

lemma url_char_host: "url_char c \<Longrightarrow> c \<noteq> CHR ''/'' \<Longrightarrow> \<not> should_escape EncodeHost c"
  by (auto simp: url_char_def domain_char_def should_escape_def alnum_def)

lemma unescape_url_chars: "list_all url_char s \<Longrightarrow> unescape EncodePath s = Some s"
proof (induction s)
  case (Cons c s)
  then have "c \<noteq> CHR ''%''" using url_char_not(3) by auto
  with Cons show ?case by simp
qed simp

lemma unescape_host_chars:
  "list_all url_char s \<Longrightarrow> CHR ''/'' \<notin> set s \<Longrightarrow> unescape EncodeHost s = Some s"
proof (induction s)
  case (Cons c s)
  then have "c \<noteq> CHR ''%''" "\<not> should_escape EncodeHost c" using url_char_not(3) url_char_host by auto
  with Cons show ?case by simp
qed simp

lemma escape_plain: "\<forall>c\<in>set s. c \<noteq> CHR '' '' \<and> \<not> should_escape mode c \<Longrightarrow> escape mode s = s"
  by (induction s) (auto simp: escape_def escape_char_def)

lemma escape_host_chars: "list_all url_char s \<Longrightarrow> CHR ''/'' \<notin> set s \<Longrightarrow> escape EncodeHost s = s"
  using url_char_not(6) url_char_host
  by (intro escape_plain ballI conjI notI) (auto simp: list_all_iff)

lemma escape_base_chars: "list_all base_char s \<Longrightarrow> escape EncodePath s = s"
  using url_char_not(6) url_char_escape
  by (intro escape_plain ballI conjI notI) (auto simp: list_all_iff base_char_def)

section \<open>Parsing plain URLs\<close>

definition plain_url :: "string \<Rightarrow> string \<Rightarrow> url" where
  "plain_url a p = empty_url\<lparr>u_scheme := ''https'', u_host := a, u_path := p,
     u_raw_path := hint_for EncodePath p p\<rparr>"

lemma plain_url_simps:
  "u_scheme (plain_url a p) = ''https''" "u_opaque (plain_url a p) = []" "u_user (plain_url a p) = None"
  "u_host (plain_url a p) = a" "u_path (plain_url a p) = p" "\<not> u_omit_host (plain_url a p)"
  "\<not> u_force_query (plain_url a p)" "u_raw_query (plain_url a p) = []" "u_fragment (plain_url a p) = []"
  by (simp_all add: plain_url_def empty_url_def)

lemma plain_port:
  assumes "plain_authority a"
  shows "valid_optional_port (dropWhile (\<lambda>c. c \<noteq> CHR '':'') a)"
proof -
  obtain h p where h: "list_all host_char h" and p: "list_all is_digit p"
    and or: "a = h \<or> p \<noteq> [] \<and> a = h @ CHR '':'' # p"
    using assms by (rule plain_authorityE)
  have no: "CHR '':'' \<notin> set h" by (rule not_in_host [OF h host_char_not(1)])
  then have "dropWhile (\<lambda>c. c \<noteq> CHR '':'') h = []"
    unfolding dropWhile_eq_Nil_conv by blast
  moreover have "dropWhile (\<lambda>c. c \<noteq> CHR '':'') (h @ CHR '':'' # p) = CHR '':'' # p"
    using no by (subst dropWhile_append2) auto
  ultimately have "valid_optional_port (dropWhile (\<lambda>c. c \<noteq> CHR '':'') h) \<and>
    valid_optional_port (dropWhile (\<lambda>c. c \<noteq> CHR '':'') (h @ CHR '':'' # p))"
    unfolding valid_optional_port_def using p by (simp only: list.sel simp_thms)
  with or show ?thesis by blast
qed

lemma parse_plain_host:
  assumes "plain_authority a"
  shows "parse_authority ip6 a = Some (None, a)"
proof -
  note chars = plain_authority_chars [OF assms]
  have "CHR ''@'' \<notin> set a" "CHR ''['' \<notin> set a"
    using not_in_url [OF chars(1)] url_char_not by auto
  then show ?thesis
    using plain_port [OF assms] unescape_host_chars [OF chars(1,2)]
    by (simp add: parse_authority_def last_index_def parse_host_def)
qed

lemma get_scheme_https: "get_scheme (''https:'' @ s) = Some (''https'', s)"
  by (simp add: get_scheme_def is_lower_def is_upper_def is_digit_def)

lemma slash_split:
  assumes "CHR ''/'' \<notin> set a" and "plain_path p"
  shows "takeWhile (\<lambda>c. c \<noteq> CHR ''/'') (a @ p) = a" and "dropWhile (\<lambda>c. c \<noteq> CHR ''/'') (a @ p) = p"
proof -
  have "\<forall>c\<in>set a. c \<noteq> CHR ''/''" using assms(1) by auto
  then show "takeWhile (\<lambda>c. c \<noteq> CHR ''/'') (a @ p) = a" "dropWhile (\<lambda>c. c \<noteq> CHR ''/'') (a @ p) = p"
    using assms(2) by (cases p; simp add: plain_path_def takeWhile_append dropWhile_append)+
qed

lemma parse_plain_hier:
  assumes a: "plain_authority a" and p: "plain_path p"
  shows "parse_hier ip6 raw (''//'' @ a @ p) (empty_url\<lparr>u_scheme := ''https'', u_raw_query := q\<rparr>)
    = Inr ((plain_url a p)\<lparr>u_raw_query := q\<rparr>)"
  using slash_split [OF plain_authority_chars(2) [OF a] p] parse_plain_host [OF a, of ip6]
    unescape_url_chars [of p] p
  by (simp add: parse_hier_def has_prefix_def set_path_def plain_url_def empty_url_def plain_path_def)

lemma url_chars_raw:
  assumes "plain_authority a" and "plain_path p"
  shows "list_all url_char (''https://'' @ a @ p)"
  using plain_authority_chars(1) [OF assms(1)] assms(2)
  by (simp add: plain_path_def url_char_def domain_char_def is_lower_def)

text \<open>A plain URL with a query: the query may hold anything but a fragment sign, a question mark
  and control characters.\<close>

definition query_text :: "string \<Rightarrow> bool" where
  "query_text q \<longleftrightarrow> list_all (\<lambda>c. c \<noteq> CHR ''#'' \<and> c \<noteq> CHR ''?'' \<and> \<not> is_ctl c) q"

definition query_part :: "string \<Rightarrow> string" where
  "query_part q = (if q = [] then [] else CHR ''?'' # q)"

lemma cut_query:
  assumes "CHR ''?'' \<notin> set s" and "s \<noteq> []" and "query_text q"
  shows "cut CHR ''?'' (s @ query_part q) = (s, q, q \<noteq> [])"
    and "last (s @ query_part q) \<noteq> CHR ''?''"
proof -
  show "cut CHR ''?'' (s @ query_part q) = (s, q, q \<noteq> [])"
    using assms(1) cut_append [OF assms(1), of q] by (auto simp: query_part_def cut_none)
  have "last s \<noteq> CHR ''?''" using assms(1,2) last_in_set by metis
  moreover have "q \<noteq> [] \<Longrightarrow> last q \<noteq> CHR ''?''"
    using assms(3) by (auto simp: query_text_def list_all_iff)
  ultimately show "last (s @ query_part q) \<noteq> CHR ''?''" by (simp add: query_part_def)
qed

lemma parse_plain_query:
  assumes a: "plain_authority a" and p: "plain_path p" and q: "query_text q"
  shows "url_parse ip6 (''https://'' @ a @ p @ query_part q) = Inr ((plain_url a p)\<lparr>u_raw_query := q\<rparr>)"
proof -
  let ?rest = "''//'' @ a @ p"
  let ?raw = "''https:'' @ ?rest @ query_part q"
  have url: "list_all url_char (''https:'' @ ?rest)" using url_chars_raw [OF a p] by simp
  then have rest: "list_all url_char ?rest" by simp
  have "CHR ''#'' \<notin> set (''https:'' @ ?rest)" by (rule not_in_url [OF url url_char_not(1)])
  moreover have "CHR ''#'' \<notin> set (query_part q)"
    using q by (auto simp: query_text_def query_part_def list_all_iff)
  ultimately have hash: "CHR ''#'' \<notin> set ?raw" by auto
  have "\<not> list_ex is_ctl (''https:'' @ ?rest)"
    using url url_char_ctl unfolding list_ex_iff list.pred_set by blast
  moreover have "\<not> list_ex is_ctl (query_part q)"
    using q by (auto simp: query_text_def query_part_def list_all_iff list_ex_iff is_ctl_def)
  ultimately have ctl: "\<not> list_ex is_ctl ?raw" by simp
  have mark: "CHR ''?'' \<notin> set ?rest" by (rule not_in_url [OF rest url_char_not(2)])
  have "?rest \<noteq> []" by simp
  note cuts = cut_query [OF mark this q]
  have "ascii_lower ''https'' = ''https''"
    by (simp add: ascii_lower_def lower_char_def is_upper_def)
  moreover have "?raw \<noteq> ''*''" by simp
  ultimately have "parse_no_fragment ip6 ?raw = Inr ((plain_url a p)\<lparr>u_raw_query := q\<rparr>)"
    unfolding parse_no_fragment_def Let_def get_scheme_https
    using ctl cuts parse_plain_hier [OF a p, of ip6 ?raw q] by (simp del: append.simps)
  moreover have "cut CHR ''#'' ?raw = (?raw, [], False)" using hash by (simp only: cut_def if_False)
  ultimately have "url_parse ip6 ?raw = Inr ((plain_url a p)\<lparr>u_raw_query := q\<rparr>)"
    unfolding url_parse_def by simp
  then show ?thesis by simp
qed

lemma parse_plain:
  "plain_authority a \<Longrightarrow> plain_path p \<Longrightarrow> url_parse ip6 (''https://'' @ a @ p) = Inr (plain_url a p)"
  using parse_plain_query [of a p "[]" ip6]
  by (simp add: query_text_def query_part_def plain_url_def empty_url_def)

lemma plain_escaped_path:
  assumes "plain_path p"
  shows "escaped_path ((plain_url a p)\<lparr>u_raw_query := q\<rparr>) = p"
proof -
  have p: "list_all url_char p" "p = [] \<or> hd p = CHR ''/''" using assms by (auto simp: plain_path_def)
  have "valid_encoded EncodePath p"
    using p(1) url_char_escape by (auto simp: valid_encoded_def list_all_iff)
  moreover have "p \<noteq> ''*''" using p(2) by auto
  moreover have "escape EncodePath [] = []" by (simp add: escape_def)
  ultimately show ?thesis using unescape_url_chars [OF p(1)]
    by (auto simp: escaped_path_def escaped_with_hint_def plain_url_def hint_for_def empty_url_def)
qed

lemma plain_query_string:
  assumes "plain_authority a" and "plain_path p"
  shows "url_string ((plain_url a p)\<lparr>u_raw_query := q\<rparr>) = ''https://'' @ a @ p @ query_part q"
proof -
  have "escape EncodeHost a = a" "a \<noteq> []"
    using plain_authority_chars [OF assms(1)] by (simp_all add: escape_host_chars)
  moreover have "p = [] \<or> hd p = CHR ''/''" using assms(2) by (simp add: plain_path_def)
  ultimately show ?thesis
    using plain_escaped_path [OF assms(2), where a = a]
    by (auto simp: url_string_def url_front_def url_authority_def Let_def query_part_def
        plain_url_simps)
qed

section \<open>Canonical addresses\<close>

lemma base_plain_path: "base_path b \<Longrightarrow> plain_path b"
  by (auto simp: base_path_def plain_path_def base_char_def list_all_iff)

lemma plain_url_string:
  assumes a: "plain_authority a" and b: "base_path b"
  shows "url_string (plain_url a b) = ''https://'' @ a @ b"
    and "trim_path (plain_url a b) = plain_url a (trim_right (\<lambda>c. c = CHR ''/'') b)"
proof -
  show "url_string (plain_url a b) = ''https://'' @ a @ b"
    using plain_query_string [OF a base_plain_path [OF b], of "[]"]
    by (simp add: query_part_def plain_url_def empty_url_def)
  have bs: "escape EncodePath b = b" using b escape_base_chars by (auto simp: base_path_def)
  let ?t = "trim_right (\<lambda>c. c = CHR ''/'') b"
  have "list_all base_char ?t"
    using b trim_right_set [of "\<lambda>c. c = CHR ''/''" b] by (auto simp: base_path_def list_all_iff)
  then show "trim_path (plain_url a b) = plain_url a ?t"
    using bs by (simp add: trim_path_def plain_url_def hint_for_def escape_base_chars)
qed

lemma base_path_trim: "base_path b \<Longrightarrow> base_path (trim_right (\<lambda>c. c = CHR ''/'') b)"
proof -
  let ?t = "trim_right (\<lambda>c. c = CHR ''/'') b"
  assume b: "base_path b"
  obtain t where "b = ?t @ t" using trim_right_prefix [of b "\<lambda>c. c = CHR ''/''"] by blast
  then have "?t = [] \<or> hd ?t = hd b" by (metis hd_append2)
  then show "base_path ?t" using b trim_right_set [of "\<lambda>c. c = CHR ''/''" b] \<open>b = ?t @ t\<close>
    by (auto simp: base_path_def list_all_iff)
qed

lemma no_scheme_mark:
  assumes a: "plain_authority a" and b: "base_path b" and pre: "CHR '':'' \<notin> set pre"
  shows "\<not> contains (pre @ a @ b) ''://''"
proof
  assume "contains (pre @ a @ b) ''://''"
  then obtain x y where x: "pre @ a @ b = x @ CHR '':'' # CHR ''/'' # CHR ''/'' # y"
    by (auto simp: contains_iff)
  obtain h p where h: "list_all host_char h" and p: "list_all host_char p"
    and or: "a = h \<or> p \<noteq> [] \<and> a = h @ CHR '':'' # p"
    using a by (rule plain_authorityE)
  have nb: "CHR '':'' \<notin> set b" using b by (auto simp: base_path_def base_char_def list_all_iff)
  note nh = not_in_host [OF h host_char_not(1)] not_in_host [OF p host_char_not(1)]
  have colon: "CHR '':'' \<in> set (pre @ a @ b)" unfolding x by simp
  then have p0: "p \<noteq> []" and "a = h @ CHR '':'' # p" using or nh(1) nb pre by auto
  then have eq: "(pre @ h) @ CHR '':'' # (p @ b) = x @ CHR '':'' # CHR ''/'' # CHR ''/'' # y"
    using x by simp
  have "CHR '':'' \<notin> set (pre @ h)" "CHR '':'' \<notin> set (p @ b)" using nh nb pre by auto
  then have "p @ b = CHR ''/'' # CHR ''/'' # y" using eq append_Cons_eq_iff by metis
  then have "hd p = CHR ''/''" using p0 by (metis hd_append2 list.sel(1))
  then show False using p p0 host_char_not(2) by (cases p) auto
qed

lemma withScheme_plain:
  assumes a: "plain_authority a" and b: "base_path b"
  shows "withScheme (a @ b) = ''https://'' @ a @ b"
    and "withScheme (''//'' @ a @ b) = ''https://'' @ a @ b"
    and "withScheme (''https://'' @ a @ b) = ''https://'' @ a @ b"
proof -
  have "\<not> has_prefix (a @ b) ''//''"
    using plain_authority_chars(2,3) [OF a] by (cases a) (auto simp: has_prefix_iff)
  then show "withScheme (a @ b) = ''https://'' @ a @ b"
    using no_scheme_mark [OF a b, of "[]"] plain_authority_chars(3) [OF a]
    by (simp add: withScheme_def)
  show "withScheme (''//'' @ a @ b) = ''https://'' @ a @ b"
    using no_scheme_mark [OF a b, of "''//''"] by (simp add: withScheme_def has_prefix_def)
  have "contains (''https://'' @ a @ b) ''://''"
    unfolding contains_iff by (rule exI [of _ "''https''"], rule exI [of _ "a @ b"]) simp
  then show "withScheme (''https://'' @ a @ b) = ''https://'' @ a @ b"
    by (simp only: withScheme_def if_True)
qed

lemma sanitize_plain:
  assumes a: "plain_authority a" and b: "base_path b"
    and addr: "withScheme addr = ''https://'' @ a @ b"
  shows "sanitize_connect ip6 addr = Go_on (''https://'' @ a @ trim_right (\<lambda>c. c = CHR ''/'') b)"
proof -
  have "base_url (plain_url a b)"
    using plain_authority_chars(3) [OF a] by (simp add: base_url_def plain_url_def empty_url_def)
  then show ?thesis
    using parse_plain [OF a base_plain_path [OF b], of ip6] addr plain_url_string [OF a b]
      plain_url_string(1) [OF a base_path_trim [OF b]]
    by (auto simp: sanitize_connect_Go_on)
qed

section \<open>Endpoints\<close>

text \<open>The base path of a canonical address carries no trailing slash, so the endpoint of a
  request is the address followed by a path of its own.\<close>

definition endpoint_of :: "role \<Rightarrow> string" where
  "endpoint_of r = (case r of RoleCRT \<Rightarrow> ''cert'' | RoleKEY \<Rightarrow> ''privkey'' | RoleCHAIN \<Rightarrow> ''chain''
     | RoleFULLCHAIN \<Rightarrow> ''fullchain'' | RoleBUNDLE \<Rightarrow> ''bundle'')"

lemma remote_template:
  "TEMPLATES r = Some ts \<Longrightarrow> mustExpand (t_remote ts) ctx =
     tc_proxy ctx @ ''/v1/'' @ endpoint_of r @ CHR ''/'' # tc_domain ctx"
  by (cases r) (auto simp: TEMPLATES_def mustExpand_def endpoint_of_def)

definition endpoint_path :: "string \<Rightarrow> role \<Rightarrow> string \<Rightarrow> string" where
  "endpoint_path b r d = b @ ''/v1/'' @ endpoint_of r @ CHR ''/'' # d"

lemma endpoint_url_chars: "list_all url_char (endpoint_of r)"
  by (cases r) (simp_all add: endpoint_of_def url_char_def domain_char_def is_lower_def)

lemma endpoint_plain:
  assumes b: "base_path b" and d: "domain_name d"
  shows "plain_path (endpoint_path b r d)"
proof -
  have "list_all url_char d"
    using d by (auto simp: domain_name_def list_all_iff url_char_def)
  moreover have "list_all url_char ''/v1/''" "url_char CHR ''/''"
    by (simp_all add: url_char_def domain_char_def is_lower_def is_digit_def)
  ultimately show ?thesis
    using base_plain_path [OF b] endpoint_url_chars [of r]
    by (cases b) (auto simp: plain_path_def endpoint_path_def)
qed

lemma new_request_endpoint:
  assumes a: "plain_authority a" and b: "base_path b" and d: "domain_name d"
  shows "new_request ip6 ((''https://'' @ a @ b) @ ''/v1/'' @ endpoint_of r @ CHR ''/'' # d) =
    Inr \<lparr>cq_url = (plain_url a (endpoint_path b r d))\<lparr>u_host := remove_empty_port a\<rparr>, cq_headers = []\<rparr>"
  using parse_plain [OF a endpoint_plain [OF b d], of ip6 r]
  by (simp add: new_request_def endpoint_path_def plain_url_def)

lemma no_empty_port:
  assumes "plain_authority a"
  shows "remove_empty_port a = a"
proof -
  obtain h p where h: "h \<noteq> []" "list_all host_char h" and p: "list_all host_char p"
    and or: "a = h \<or> p \<noteq> [] \<and> a = h @ CHR '':'' # p"
    using assms by (rule plain_authorityE)
  have "last a \<in> set h \<or> last a \<in> set p" using or h(1) by auto
  then have "last a \<noteq> CHR '':''" using not_in_host [OF h(2) host_char_not(1)]
      not_in_host [OF p host_char_not(1)] by auto
  then show ?thesis by (simp add: remove_empty_port_def)
qed

section \<open>Properties\<close>

text \<open>C29. The spellings of a plain server address mean the same: with the https scheme, with the
  two slashes only, or with neither, and with or without trailing slashes, \<open>-connect\<close> becomes
  one canonical https URL with the host, port and base path given, and that URL stays as it is.\<close>

theorem addresses_are_canonical:
  assumes "plain_authority a" and "base_path b"
  shows "sanitize_connect ip6 (a @ b) = Go_on (''https://'' @ a @ trim_right (\<lambda>c. c = CHR ''/'') b) \<and>
    sanitize_connect ip6 (''//'' @ a @ b) = sanitize_connect ip6 (a @ b) \<and>
    sanitize_connect ip6 (''https://'' @ a @ b) = sanitize_connect ip6 (a @ b) \<and>
    sanitize_connect ip6 (''https://'' @ a @ trim_right (\<lambda>c. c = CHR ''/'') b) = sanitize_connect ip6 (a @ b)"
proof -
  let ?t = "trim_right (\<lambda>c. c = CHR ''/'')"
  have "?t (?t b) = ?t b" by (metis trim_right_id trim_right_last)
  then show ?thesis
    using withScheme_plain [OF assms] withScheme_plain(3) [OF assms(1) base_path_trim [OF assms(2)]]
      sanitize_plain [OF assms] sanitize_plain [OF assms(1) base_path_trim [OF assms(2)]]
    by metis
qed

theorem addresses_are_canonical_witness:
  "plain_authority ''certs.example:4433'' \<and>
   sanitize_connect (\<lambda>_. False) (''certs.example:4433'' @ ''/a/'') = Go_on ''https://certs.example:4433/a''"
proof -
  have a: "plain_authority ''certs.example:4433''"
    unfolding plain_authority_def
    by (rule exI [of _ "''certs.example''"], rule exI [of _ "''4433''"])
      (simp add: host_char_def domain_char_def is_lower_def is_digit_def is_upper_def)
  have b: "base_path ''/a/''"
    by (simp add: base_path_def base_char_def url_char_def domain_char_def is_lower_def)
  have "trim_right (\<lambda>c. c = CHR ''/'') ''/a/'' = ''/a''" by (simp add: trim_right_def)
  then show ?thesis using a conjunct1 [OF addresses_are_canonical [OF a b, of "\<lambda>_. False"]] by simp
qed

end
