(* ===== verification/Store.thy ===== *)
theory Store
  imports Shared
begin

text \<open>
  The certificate store of the client: \<open>writeFile\<close> and \<open>replaceSymlink\<close> of \<open>cert.go\<close>, the
  names of the files below a domain's directory, and what each of the two functions does to the
  file system, at its end and at every moment in between.
\<close>

section \<open>writeFile and replaceSymlink\<close>

definition writeFile :: "string \<Rightarrow> string \<Rightarrow> bool \<Rightarrow> fs \<Rightarrow> go_error option \<times> fs" where
  "writeFile name data private f0 =
     (case Mkdir (path_dir name) f0 of (Some err, f1) \<Rightarrow> (Some err, f1)
      | (None, f1) \<Rightarrow>
        (let mode = (if private then 384 else 420) in
         case os_create_excl name mode f1 of (Some err, f2) \<Rightarrow> (Some err, f2)
         | (None, f2) \<Rightarrow>
           (case file_chmod name mode f2 of (Some err, f3) \<Rightarrow> (Some err, f3)
            | (None, f3) \<Rightarrow> file_write name data f3)))"

definition tmp_name :: "string \<Rightarrow> string" where
  "tmp_name name = name @ ''.tmp''"

definition replaceSymlink :: "string \<Rightarrow> string \<Rightarrow> fs \<Rightarrow> go_error option \<times> fs" where
  "replaceSymlink name target f0 =
     (let tmp = tmp_name name; f1 = snd (os_remove tmp f0) in
      case os_symlink target tmp f1 of (Some err, f2) \<Rightarrow> (Some err, f2)
      | (None, f2) \<Rightarrow> os_rename tmp name f2)"

section \<open>Path names of the store\<close>

text \<open>The elements of a path are their own cleaned form.\<close>

lemma clean_ups: "clean_stack False (replicate n ''..'') [] = replicate n ''..''"
proof (induction n)
  case (Suc n)
  have "replicate (Suc n) ''..'' = replicate n ''..'' @ [''..'']"
    by (simp add: replicate_append_same)
  then have "clean_stack False (replicate (Suc n) ''..'') [] = clean_step False ''..'' (replicate n ''..'')"
    using Suc by (simp only: clean_stack_append) (simp add: clean_stack_Cons)
  then show ?case by (cases n) (auto simp: clean_step_def)
qed simp

lemma clean_updots: "updots st \<Longrightarrow> clean_stack False (rev st) [] = st"
  by (auto simp: updots_def clean_stack_append clean_ups plain_stack list_all_iff)

lemma clean_elems: "clean_stack (rooted p) (path_elems p) [] = rev (path_elems p)"
proof (cases "rooted p")
  case True
  then show ?thesis using rooted_elems_plain [OF True] by (simp add: plain_stack)
next
  case False
  then show ?thesis using clean_updots [OF path_elems_updots [of p]] by simp
qed

lemma rooted_elem: "e \<noteq> [] \<Longrightarrow> CHR ''/'' \<notin> set e \<Longrightarrow> \<not> rooted (e @ s)"
  by (cases e) (auto simp: rooted_def has_prefix_def)

lemma updots_nonempty: "updots st \<Longrightarrow> x \<in> set st \<Longrightarrow> x \<noteq> []"
proof -
  assume "updots st" "x \<in> set st"
  then obtain a n where "x \<in> set a \<or> x = ''..''" "list_all plain a"
    unfolding updots_def by (metis UnE in_set_replicate set_append)
  then show "x \<noteq> []" by (auto simp: list_all_iff plain_def)
qed

lemma path_elems_nonempty: "x \<in> set (path_elems p) \<Longrightarrow> x \<noteq> []"
  using updots_nonempty [OF path_elems_updots] by simp

lemma below_rooted: "es \<noteq> [] \<Longrightarrow> list_all plain es \<Longrightarrow> rooted (path_below base es @ s) = rooted base"
proof (cases "rooted base")
  case False
  assume es: "es \<noteq> []" "list_all plain es"
  obtain x xs where x: "path_elems base @ es = x # xs" using es(1) by (cases "path_elems base @ es") auto
  have "x \<in> set (path_elems base @ es)" using x by simp
  then have "x \<noteq> [] \<and> CHR ''/'' \<notin> set x"
    using path_elems_nonempty path_elems_no_slash es(2) plain_no_slash
    by (auto simp: list_all_iff plain_def)
  moreover have "path_below base es = x @ (if xs = [] then [] else ''/'' @ join ''/'' xs)"
    using False x by (simp add: path_below_def join_Cons)
  ultimately show ?thesis using False rooted_elem by simp
qed (simp add: path_below_def)

lemma split_below:
  assumes "es \<noteq> []" and "list_all plain es"
  shows "split_on CHR ''/'' (path_below base es) = (if rooted base then [[]] else []) @ path_elems base @ es"
proof -
  have "split_on CHR ''/'' (join ''/'' (path_elems base @ es)) = path_elems base @ es"
    using assms path_elems_no_slash [of base] plain_no_slash [OF assms(2)]
    by (intro split_on_join) auto
  then show ?thesis using assms(1) by (simp add: path_below_def)
qed

lemma elems_path_below:
  assumes "es \<noteq> []" and "list_all plain es"
  shows "path_elems (path_below base es) = path_elems base @ es"
    "path_elems (path_below base es @ ''/'') = path_elems base @ es"
proof -
  let ?r = "rooted base"
  have c: "clean_stack ?r ((if ?r then [[]] else []) @ path_elems base @ es) [] = rev (path_elems base @ es)"
    using clean_elems [of base] plain_stack [OF assms(2)]
    by (cases ?r) (simp_all add: clean_stack_append clean_stack_Cons clean_step_def)
  show "path_elems (path_below base es) = path_elems base @ es"
    using below_rooted [OF assms, of base "[]"] split_below [OF assms, of base] c
    unfolding path_elems_def [of "path_below base es"] by simp
  have "split_on CHR ''/'' (path_below base es @ ''/'') =
      ((if ?r then [[]] else []) @ path_elems base @ es) @ [[]]"
    using split_on_append [of _ "path_below base es" "[]"] split_below [OF assms, of base] by simp
  then show "path_elems (path_below base es @ ''/'') = path_elems base @ es"
    using below_rooted [OF assms, of base "''/''"] c
    unfolding path_elems_def [of "path_below base es @ ''/''"]
    by (simp only: clean_stack_append [of _ _ "[[]]"]) (simp add: clean_stack_Cons clean_step_def)
qed

lemma clean_path_below:
  assumes "es \<noteq> []" and "list_all plain es"
  shows "path_clean (path_below base es) = path_below base es"
    "path_clean (path_below base es @ ''/'') = path_below base es"
proof -
  have form: "path_clean p = path_below base es"
    if "path_elems p = path_elems base @ es" "rooted p = rooted base" for p
    using that by (simp add: path_clean_def path_below_def)
  show "path_clean (path_below base es) = path_below base es"
    using elems_path_below(1) [OF assms] below_rooted [OF assms, of base "[]"] by (intro form) simp_all
  show "path_clean (path_below base es @ ''/'') = path_below base es"
    using elems_path_below(2) [OF assms] below_rooted [OF assms] by (intro form) simp_all
qed

lemma dropWhile_no_slash: "CHR ''/'' \<notin> set e \<Longrightarrow>
    rev (dropWhile (\<lambda>c. c \<noteq> CHR ''/'') (rev (x @ CHR ''/'' # e))) = x @ ''/''"
  by (simp add: dropWhile_append)

text \<open>A file of a domain: directory, name and directory of the directory.\<close>

lemma dir_of_file:
  assumes "plain d" and "plain e"
  shows "path_dir (path_below base [d, e]) = path_below base [d]"
proof -
  have "path_below base [d, e] = path_below base [d] @ ''/'' @ e"
    using path_below_snoc [of base "[d]" e] by simp
  then have "path_dir (path_below base [d, e]) = path_clean (path_below base [d] @ ''/'')"
    using dropWhile_no_slash [of e "path_below base [d]"] assms(2) by (simp add: path_dir_def plain_def)
  then show ?thesis using clean_path_below(2) [of "[d]" base] assms(1) by simp
qed

lemma base_of_file:
  assumes "plain d" and "plain e"
  shows "path_base (path_below base [d, e]) = e"
proof -
  have p: "path_below base [d, e] = path_below base [d] @ ''/'' @ e"
    using path_below_snoc [of base "[d]" e] by simp
  have e: "e \<noteq> []" "CHR ''/'' \<notin> set e" using assms(2) by (simp_all add: plain_def)
  then have l: "last e \<noteq> CHR ''/''" by (metis last_in_set)
  have "trim_right (\<lambda>c. c = CHR ''/'') (path_below base [d, e]) = path_below base [d, e]"
    using l e p by (intro trim_right_id) simp
  moreover have "rev (takeWhile (\<lambda>c. c \<noteq> CHR ''/'') (rev (path_below base [d, e]))) = e"
    using e unfolding p by (simp add: takeWhile_append)
  ultimately show ?thesis using e p by (auto simp: path_base_def Let_def)
qed

text \<open>A relative link target names a file of the same directory.\<close>

lemma link_to_sibling:
  assumes "plain d" and "plain e" and "plain t"
  shows "link_target (path_below base [d, e]) t = path_below base [d, t]"
proof -
  have "\<not> rooted t" using assms(3) rooted_elem [of t "[]"] by (simp add: plain_def)
  moreover have "path_join [path_below base [d], t] = path_below base [d, t]"
  proof -
    have n: "path_below base [d] \<noteq> []"
    proof
      assume "path_below base [d] = []"
      then have "path_elems (path_below base [d]) = path_elems []" by simp
      then show False using elems_path_below(1) [of "[d]" base] assms(1)
        by (simp add: path_elems_def rooted_def has_prefix_def clean_stack_Cons clean_step_def)
    qed
    have "path_join (path_below base [d] # [t]) = path_below (path_below base [d]) [t]"
      using path_join_plain [OF n, of "[t]"] assms(3) by simp
    also have "\<dots> = path_below base [d, t]"
      using elems_path_below(1) [of "[d]" base] below_rooted [of "[d]" base "[]"] assms(1)
      unfolding path_below_def [of "path_below base [d]"] path_below_def [of base "[d, t]"] by simp
    finally show ?thesis .
  qed
  ultimately show ?thesis using dir_of_file [OF assms(1,2), of base] by (simp add: link_target_def)
qed

section \<open>Histories\<close>

text \<open>All trees the file system has been, and the ones it became on the way from \<open>f\<close> to \<open>g\<close>.\<close>

definition trees :: "fs \<Rightarrow> tree list" where
  "trees f = fs_tree f # fs_past f"

definition evolves :: "(tree \<Rightarrow> bool) \<Rightarrow> fs \<Rightarrow> fs \<Rightarrow> bool" where
  "evolves P f g \<longleftrightarrow> same_env f g \<and> (\<exists>ts. trees g = ts @ trees f \<and> (\<forall>t\<in>set ts. P t))"

lemma evolves_refl [simp]: "evolves P f f"
  by (auto simp: evolves_def)

lemma evolves_trans: "evolves P f g \<Longrightarrow> evolves P g h \<Longrightarrow> evolves P f h"
proof -
  assume "evolves P f g" "evolves P g h"
  moreover from this have env: "same_env f h" unfolding evolves_def by (blast intro: same_env_trans)
  ultimately obtain ts us where "trees g = ts @ trees f" "\<forall>t\<in>set ts. P t" "trees h = us @ trees g" "\<forall>t\<in>set us. P t"
    unfolding evolves_def by blast
  then have "trees h = (us @ ts) @ trees f" "\<forall>t\<in>set (us @ ts). P t" by auto
  then show ?thesis using env unfolding evolves_def by blast
qed

lemma evolves_mono: "evolves P f g \<Longrightarrow> (\<And>t. P t \<Longrightarrow> Q t) \<Longrightarrow> evolves Q f g"
  unfolding evolves_def by blast

lemma evolves_commit: "P t \<Longrightarrow> evolves P f (commit t f)"
  by (auto simp: evolves_def trees_def)

lemma evolves_put: "P (AList.update p n (fs_tree f)) \<Longrightarrow> evolves P f (put p n f)"
  unfolding put_def by (rule evolves_commit)

lemma evolves_end: "evolves P f g \<Longrightarrow> P (fs_tree f) \<Longrightarrow> P (fs_tree g)"
proof -
  assume "evolves P f g" "P (fs_tree f)"
  then obtain ts where "fs_tree g # fs_past g = ts @ fs_tree f # fs_past f" "\<forall>t\<in>set ts. P t"
    by (auto simp: evolves_def trees_def)
  then show ?thesis using \<open>P (fs_tree f)\<close> by (cases ts) auto
qed

lemma evolves_env: "evolves P f g \<Longrightarrow> same_env f g"
  by (simp add: evolves_def)

section \<open>Effects of the calls\<close>

text \<open>Each call is seen as its possible effects, one case per outcome.\<close>

lemma os_mkdir_cases:
  "os_mkdir p m f = (r, g) \<Longrightarrow>
     r = None \<and> map_of (fs_tree f) p = None \<and> g = put p (Directory (m AND NOT (fs_umask f)) (fs_clock f)) f \<or>
     (\<exists>e. r = Some (PathError ''mkdir'' p e)) \<and> g = f"
  by (auto simp: os_mkdir_def create_error_def split: option.splits if_splits)

lemma os_create_cases:
  "os_create_excl p m f = (r, g) \<Longrightarrow>
     r = None \<and> map_of (fs_tree f) p = None \<and> g = put p (RegFile (m AND NOT (fs_umask f)) (fs_clock f) []) f \<or>
     (\<exists>e. r = Some (PathError ''open'' p e)) \<and> g = f"
  by (auto simp: os_create_excl_def create_error_def split: option.splits if_splits)

lemma file_chmod_cases:
  "file_chmod p m f = (r, g) \<Longrightarrow> map_of (fs_tree f) p = Some (RegFile m0 t d) \<Longrightarrow>
     r = None \<and> g = put p (RegFile m t d) f \<or> (\<exists>e. r = Some (PathError ''chmod'' p e)) \<and> g = f"
  by (auto simp: file_chmod_def split: option.splits)

lemma file_write_cases:
  "file_write p d f = (r, g) \<Longrightarrow> map_of (fs_tree f) p = Some (RegFile m t d0) \<Longrightarrow>
     r = None \<and> g = put p (RegFile m (fs_clock f) (d0 @ d)) f \<or>
     (\<exists>e. r = Some (PathError ''write'' p e)) \<and> (\<exists>d'. g = put p (RegFile m (fs_clock f) d') f)"
  by (auto simp: file_write_def append_data_def split: option.splits)

lemma os_symlink_cases:
  "os_symlink target p f = (r, g) \<Longrightarrow>
     r = None \<and> map_of (fs_tree f) p = None \<and> g = put p (Symlink target) f \<or>
     (\<exists>e. r = Some (LinkError ''symlink'' target p e)) \<and> g = f"
  by (auto simp: os_symlink_def create_error_def split: option.splits if_splits)

lemma os_rename_cases:
  "os_rename a b f = (r, g) \<Longrightarrow> map_of (fs_tree f) a = Some n \<Longrightarrow> a \<noteq> b \<Longrightarrow>
     r = None \<and> g = commit (AList.update b n (AList.delete a (fs_tree f))) f \<or>
     (\<exists>e. r = Some (LinkError ''rename'' a b e)) \<and> g = f"
  by (auto simp: os_rename_def split: option.splits inode.splits)

lemma os_remove_cases:
  "os_remove p f = (r, g) \<Longrightarrow> g = f \<or> g = commit (AList.delete p (fs_tree f)) f"
  by (auto simp: os_remove_def split: option.splits if_splits)

lemma Mkdir_cases:
  "Mkdir dir f = (r, g) \<Longrightarrow>
     g = f \<or> map_of (fs_tree f) dir = None \<and> g = put dir (Directory (511 AND NOT (fs_umask f)) (fs_clock f)) f"
  by (auto simp: Mkdir_def split: prod.splits option.splits sum.splits if_splits dest!: os_mkdir_cases)

section \<open>writeFile\<close>

definition file_mode :: "bool \<Rightarrow> mode" where
  "file_mode private = (if private then 384 else 420)"

text \<open>No group or other permission.\<close>

definition owner_only :: "mode \<Rightarrow> bool" where
  "owner_only m \<longleftrightarrow> m AND 63 = 0"

lemma owner_only_masked: "owner_only m \<Longrightarrow> owner_only (m AND k)"
proof -
  have "(m AND k) AND 63 = k AND (m AND 63)" by (simp add: ac_simps)
  then show "owner_only m \<Longrightarrow> owner_only (m AND k)" by (simp add: owner_only_def)
qed

lemma owner_only_private: "owner_only 384"
  by (simp add: owner_only_def)

text \<open>What the file at \<open>n\<close> may be while it is being written.\<close>

definition under_way :: "bool \<Rightarrow> inode option \<Rightarrow> bool" where
  "under_way private x \<longleftrightarrow> (case x of None \<Rightarrow> True
     | Some (RegFile m t d) \<Rightarrow> (private \<longrightarrow> owner_only m) | _ \<Rightarrow> False)"

text \<open>The trees on the way: the tree before plus a new file \<open>n\<close> and possibly its directory.\<close>

definition writing :: "tree \<Rightarrow> string \<Rightarrow> bool \<Rightarrow> tree \<Rightarrow> bool" where
  "writing t0 n private t \<longleftrightarrow> under_way private (map_of t n) \<and>
     (\<forall>q. q \<noteq> n \<longrightarrow> map_of t q = map_of t0 q \<or> q = path_dir n \<and> map_of t0 q = None)"

lemma writing_put:
  "writing t0 n private (fs_tree f) \<Longrightarrow> under_way private (Some x) \<Longrightarrow>
     evolves (writing t0 n private) f (put n x f)"
  by (rule evolves_put) (auto simp: writing_def map_of_update)

lemma writeFile_effect:
  assumes w: "writeFile n d private f = (r, g)" and new: "map_of (fs_tree f) n = None" and dir: "path_dir n \<noteq> n"
  shows "evolves (writing (fs_tree f) n private) f g"
    and "r = None \<Longrightarrow> map_of (fs_tree g) n = Some (RegFile (file_mode private) (fs_clock f) d)"
proof -
  let ?P = "writing (fs_tree f) n private" and ?m = "file_mode private"
  have base: "?P (fs_tree f)" using new by (simp add: writing_def under_way_def)
  have mode: "private \<Longrightarrow> owner_only ?m" "private \<Longrightarrow> owner_only (?m AND k)" for k
    using owner_only_private owner_only_masked by (simp_all add: file_mode_def)
  obtain r1 f1 where f1: "Mkdir (path_dir n) f = (r1, f1)" by fastforce
  have e1: "evolves ?P f f1"
    using Mkdir_cases [OF f1]
  proof (elim disjE conjE)
    assume "map_of (fs_tree f) (path_dir n) = None" "f1 = put (path_dir n) (Directory (511 AND NOT (fs_umask f)) (fs_clock f)) f"
    then show ?thesis using base dir by (auto intro!: evolves_put simp: writing_def map_of_update)
  qed simp
  have P1: "?P (fs_tree f1)" using evolves_end [OF e1 base] .
  have goal: "evolves ?P f g \<and> (r = None \<longrightarrow> map_of (fs_tree g) n = Some (RegFile ?m (fs_clock f) d))"
  proof (cases r1)
    case (Some err)
    then have "r = Some err" "g = f1" using w f1 by (simp_all add: writeFile_def)
    then show ?thesis using e1 by simp
  next
    case None
    obtain r2 f2 where f2: "os_create_excl n ?m f1 = (r2, f2)" by fastforce
    show ?thesis using os_create_cases [OF f2]
    proof (elim disjE conjE exE)
      fix e assume "r2 = Some (PathError ''open'' n e)" "f2 = f1"
      then have "r = Some (PathError ''open'' n e)" "g = f1"
        using w f1 None f2 by (simp_all add: writeFile_def file_mode_def)
      then show ?thesis using e1 by simp
    next
      assume c: "r2 = None" "f2 = put n (RegFile (?m AND NOT (fs_umask f1)) (fs_clock f1) []) f1"
      have e2: "evolves ?P f1 f2" unfolding c(2) using P1 mode by (intro writing_put) (auto simp: under_way_def)
      have P2: "?P (fs_tree f2)" using evolves_end [OF e2 P1] .
      have n2: "map_of (fs_tree f2) n = Some (RegFile (?m AND NOT (fs_umask f1)) (fs_clock f1) [])" by (simp add: c)
      obtain r3 f3 where f3: "file_chmod n ?m f2 = (r3, f3)" by fastforce
      have env: "fs_clock f2 = fs_clock f" "fs_clock f1 = fs_clock f"
        using evolves_env [OF evolves_trans [OF e1 e2]] evolves_env [OF e1] by (simp_all add: same_env_def)
      show ?thesis using file_chmod_cases [OF f3 n2]
      proof (elim disjE conjE exE)
        fix e assume "r3 = Some (PathError ''chmod'' n e)" "f3 = f2"
        then have "r = Some (PathError ''chmod'' n e)" "g = f2"
          using w f1 None f2 c(1) f3 by (simp_all add: writeFile_def file_mode_def)
        then show ?thesis using evolves_trans [OF e1 e2] by simp
      next
        assume c3: "r3 = None" "f3 = put n (RegFile ?m (fs_clock f1) []) f2"
        have e3: "evolves ?P f2 f3" unfolding c3(2) using P2 mode by (intro writing_put) (auto simp: under_way_def)
        have P3: "?P (fs_tree f3)" using evolves_end [OF e3 P2] .
        have n3: "map_of (fs_tree f3) n = Some (RegFile ?m (fs_clock f1) [])" by (simp add: c3)
        have w4: "file_write n d f3 = (r, g)"
          using w f1 None f2 c(1) f3 c3(1) by (simp add: writeFile_def file_mode_def)
        have env3: "fs_clock f3 = fs_clock f" using c3(2) env by simp
        have e03: "evolves ?P f f3" by (rule evolves_trans [OF evolves_trans [OF e1 e2] e3])
        show ?thesis using file_write_cases [OF w4 n3]
        proof (elim disjE conjE exE)
          assume "r = None" "g = put n (RegFile ?m (fs_clock f3) ([] @ d)) f3"
          then show ?thesis using env3 evolves_trans [OF e03 writing_put [OF P3, of "RegFile ?m (fs_clock f3) d"]] mode(1)
            by (simp add: under_way_def)
        next
          fix d' e assume "r = Some (PathError ''write'' n e)" "g = put n (RegFile ?m (fs_clock f3) d') f3"
          then show ?thesis using evolves_trans [OF e03 writing_put [OF P3, of "RegFile ?m (fs_clock f3) d'"]] mode(1)
            by (simp add: under_way_def)
        qed
      qed
    qed
  qed
  show "evolves ?P f g" and "r = None \<Longrightarrow> map_of (fs_tree g) n = Some (RegFile ?m (fs_clock f) d)"
    using goal by simp_all
qed

section \<open>replaceSymlink\<close>

text \<open>The trees on the way: only the temporary name and \<open>name\<close> change, and \<open>name\<close> is at
  every moment what it was or the new link.\<close>

definition switching :: "tree \<Rightarrow> string \<Rightarrow> string \<Rightarrow> tree \<Rightarrow> bool" where
  "switching t0 name target t \<longleftrightarrow>
     (map_of t name = map_of t0 name \<or> map_of t name = Some (Symlink target)) \<and>
     (\<forall>q. q \<noteq> name \<and> q \<noteq> tmp_name name \<longrightarrow> map_of t q = map_of t0 q)"

lemma tmp_name_neq [simp]: "tmp_name name \<noteq> name" "name \<noteq> tmp_name name"
  by (simp_all add: tmp_name_def)

lemma replaceSymlink_effect:
  assumes "replaceSymlink name target f = (r, g)"
  shows "evolves (switching (fs_tree f) name target) f g"
    and "r = None \<Longrightarrow> map_of (fs_tree g) name = Some (Symlink target)"
proof -
  let ?P = "switching (fs_tree f) name target" and ?tmp = "tmp_name name"
  have base: "?P (fs_tree f)" by (simp add: switching_def)
  obtain r1 f1 where f1: "os_remove ?tmp f = (r1, f1)" by fastforce
  have e1: "evolves ?P f f1"
    using os_remove_cases [OF f1] by (auto intro!: evolves_commit simp: switching_def map_of_delete)
  have P1: "?P (fs_tree f1)" by (rule evolves_end [OF e1 base])
  obtain r2 f2 where f2: "os_symlink target ?tmp f1 = (r2, f2)" by fastforce
  have "evolves ?P f g \<and> (r = None \<longrightarrow> map_of (fs_tree g) name = Some (Symlink target))"
    using os_symlink_cases [OF f2]
  proof (elim disjE conjE exE)
    fix e assume "r2 = Some (LinkError ''symlink'' target ?tmp e)" "f2 = f1"
    then have "r = Some (LinkError ''symlink'' target ?tmp e)" "g = f1"
      using assms f1 f2 by (simp_all add: replaceSymlink_def Let_def)
    then show ?thesis using e1 by simp
  next
    assume l: "r2 = None" "f2 = put ?tmp (Symlink target) f1"
    have e2: "evolves ?P f f2"
      using e1 P1 unfolding l(2)
      by (elim evolves_trans) (auto intro!: evolves_put simp: switching_def map_of_update)
    have P2: "?P (fs_tree f2)" by (rule evolves_end [OF e2 base])
    have "os_rename ?tmp name f2 = (r, g)" using assms f1 f2 l(1) by (simp add: replaceSymlink_def)
    moreover have "map_of (fs_tree f2) ?tmp = Some (Symlink target)" by (simp add: l)
    ultimately have "r = None \<and> g = commit (AList.update name (Symlink target) (AList.delete ?tmp (fs_tree f2))) f2 \<or>
        (\<exists>e. r = Some (LinkError ''rename'' ?tmp name e)) \<and> g = f2"
      by (intro os_rename_cases) simp_all
    then show ?thesis
    proof (elim disjE conjE exE)
      assume g: "r = None" "g = commit (AList.update name (Symlink target) (AList.delete ?tmp (fs_tree f2))) f2"
      have "evolves ?P f2 g" using P2 unfolding g(2)
        by (intro evolves_commit) (auto simp: switching_def map_of_update map_of_delete)
      then show ?thesis using evolves_trans [OF e2] by (simp add: g map_of_update)
    qed (use e2 in auto)
  qed
  then show "evolves ?P f g" and "r = None \<Longrightarrow> map_of (fs_tree g) name = Some (Symlink target)" by simp_all
qed

end
