(* ===== verification/Publish.thy ===== *)
theory Publish
  imports Store
begin

text \<open>
  The loop of \<open>Execute\<close> that makes the written files current.  With symlinks a name is switched
  over by \<open>replaceSymlink\<close>, without them by \<open>os.Rename\<close>; the two share a contract, stated as the
  locale \<open>publisher\<close>: nobody ever sees anything at the name but the old or the new file.  The
  lemmas on the loop are proved once from the contract.
\<close>

section \<open>The loop\<close>

type_synonym infixed = "(string \<times> string) list"

definition infixed_of :: "infixed \<Rightarrow> string \<Rightarrow> string" where
  "infixed_of inx name = (case map_of inx name of None \<Rightarrow> [] | Some n \<Rightarrow> n)"

definition publish_name :: "bool \<Rightarrow> string \<Rightarrow> string \<Rightarrow> fs \<Rightarrow> go_error option \<times> fs" where
  "publish_name symlinks name dated =
     (if symlinks then replaceSymlink name (path_base dated) else os_rename dated name)"

fun link_items ::
    "(string \<Rightarrow> string \<Rightarrow> fs \<Rightarrow> go_error option \<times> fs) \<Rightarrow> infixed \<Rightarrow> string list \<Rightarrow> fs \<Rightarrow> go_error option \<times> fs" where
  "link_items pub inx [] f = (None, f)"
| "link_items pub inx (name # names) f =
     (case pub name (infixed_of inx name) f of
        (Some err, f1) \<Rightarrow> (Some err, f1)
      | (None, f1) \<Rightarrow> link_items pub inx names f1)"

section \<open>The contract\<close>

text \<open>At \<open>name\<close> a reader finds the contents \<open>d\<close> with mode \<open>m\<close>, in the file itself or through a
  link to the dated file.\<close>

definition shows_file :: "tree \<Rightarrow> string \<Rightarrow> string \<Rightarrow> mode \<Rightarrow> string \<Rightarrow> bool" where
  "shows_file t name dated m d \<longleftrightarrow>
     (\<exists>s. map_of t name = Some (RegFile m s d)) \<or>
     (\<exists>l s. map_of t name = Some (Symlink l) \<and> link_target name l = dated \<and>
        map_of t dated = Some (RegFile m s d))"

lemma shows_file_read: "shows_file t name dated m d \<Longrightarrow> read_name t name = Some (m, d)"
  by (auto simp: shows_file_def read_name_reg read_name_link)

lemma shows_file_frame:
  "shows_file t name dated m d \<Longrightarrow> map_of t' name = map_of t name \<Longrightarrow>
     map_of t' dated = map_of t dated \<Longrightarrow> shows_file t' name dated m d"
  by (auto simp: shows_file_def)

locale publisher =
  fixes pub :: "string \<Rightarrow> string \<Rightarrow> fs \<Rightarrow> go_error option \<times> fs"
    and scratch :: "string \<Rightarrow> string \<Rightarrow> string"
  assumes pub_steps:
    "link_target name (path_base dated) = dated \<Longrightarrow> dated \<noteq> name \<Longrightarrow> dated \<noteq> tmp_name name \<Longrightarrow>
     map_of (fs_tree f) dated = Some (RegFile m s d) \<Longrightarrow> pub name dated f = (r, g) \<Longrightarrow>
     evolves (\<lambda>t. (map_of t name = map_of (fs_tree f) name \<or> shows_file t name dated m d) \<and>
        (\<forall>q. q \<noteq> name \<and> q \<noteq> scratch name dated \<longrightarrow> map_of t q = map_of (fs_tree f) q)) f g"
    and pub_done:
    "link_target name (path_base dated) = dated \<Longrightarrow> dated \<noteq> name \<Longrightarrow> dated \<noteq> tmp_name name \<Longrightarrow>
     map_of (fs_tree f) dated = Some (RegFile m s d) \<Longrightarrow> pub name dated f = (None, g) \<Longrightarrow>
     shows_file (fs_tree g) name dated m d"
    and scratch_names: "scratch name dated = tmp_name name \<or> scratch name dated = dated"
begin

text \<open>A table of names in which no entry gets in the way of another.\<close>

definition apart :: "string list \<Rightarrow> (string \<Rightarrow> string) \<Rightarrow> bool" where
  "apart names dated \<longleftrightarrow> distinct names \<and>
     (\<forall>n\<in>set names. link_target n (path_base (dated n)) = dated n) \<and>
     (\<forall>n\<in>set names. \<forall>k\<in>set names. dated n \<noteq> k \<and> dated n \<noteq> tmp_name k \<and> tmp_name n \<noteq> k \<and>
        (dated n = dated k \<longrightarrow> n = k))"

lemma apart_Cons: "apart (n # ns) dated \<Longrightarrow> apart ns dated"
  by (auto simp: apart_def)

lemma apart_scratch: "apart names dated \<Longrightarrow> n \<in> set names \<Longrightarrow> k \<in> set names \<Longrightarrow> n \<noteq> k \<Longrightarrow>
    scratch n (dated n) \<noteq> k \<and> scratch n (dated n) \<noteq> dated k"
  using scratch_names [of n "dated n"] unfolding apart_def by metis

text \<open>What the trees look like on the way: every name is old or new, nothing else but the
  scratch names changes.\<close>

definition halfway :: "string list \<Rightarrow> (string \<Rightarrow> string) \<Rightarrow> (string \<Rightarrow> mode) \<Rightarrow> (string \<Rightarrow> string) \<Rightarrow>
    tree \<Rightarrow> tree \<Rightarrow> bool" where
  "halfway names dated m d t0 t \<longleftrightarrow>
     (\<forall>n\<in>set names. map_of t n = map_of t0 n \<or> shows_file t n (dated n) (m n) (d n)) \<and>
     (\<forall>q. q \<notin> set names \<and> (\<forall>n\<in>set names. q \<noteq> scratch n (dated n)) \<longrightarrow> map_of t q = map_of t0 q)"

lemma link_items_steps:
  assumes "apart names dated" and "\<forall>n\<in>set names. infixed_of inx n = dated n"
    and "\<forall>n\<in>set names. \<exists>s. map_of (fs_tree f) (dated n) = Some (RegFile (m n) s (d n))"
    and "link_items pub inx names f = (r, g)"
  shows "evolves (halfway names dated m d (fs_tree f)) f g \<and>
    (r = None \<longrightarrow> (\<forall>n\<in>set names. shows_file (fs_tree g) n (dated n) (m n) (d n)))"
  using assms
proof (induction names arbitrary: f)
  case Nil
  then show ?case by simp
next
  case (Cons n ns)
  note ap = Cons.prems(1) and inx = Cons.prems(2) and files = Cons.prems(3) and run = Cons.prems(4)
  obtain s where s: "map_of (fs_tree f) (dated n) = Some (RegFile (m n) s (d n))" using files by auto
  obtain r1 f1 where f1: "pub n (dated n) f = (r1, f1)" by fastforce
  let ?P = "\<lambda>t. (map_of t n = map_of (fs_tree f) n \<or> shows_file t n (dated n) (m n) (d n)) \<and>
        (\<forall>q. q \<noteq> n \<and> q \<noteq> scratch n (dated n) \<longrightarrow> map_of t q = map_of (fs_tree f) q)"
  have nm: "link_target n (path_base (dated n)) = dated n" "dated n \<noteq> n" "dated n \<noteq> tmp_name n"
    using ap by (auto simp: apart_def)
  have e1: "evolves ?P f f1" by (rule pub_steps [OF nm s f1])
  have other: "scratch n (dated n) \<noteq> k \<and> scratch n (dated n) \<noteq> dated k \<and> scratch k (dated k) \<noteq> n \<and>
      scratch k (dated k) \<noteq> dated n \<and> n \<noteq> k \<and> n \<noteq> dated k"
    if "k \<in> set ns" for k
  proof -
    have nk: "n \<noteq> k" using that ap by (auto simp: apart_def)
    have in_set: "n \<in> set (n # ns)" "k \<in> set (n # ns)" using that by simp_all
    have "dated k \<noteq> n" using ap in_set unfolding apart_def by blast
    then show ?thesis
      using apart_scratch [OF ap in_set nk] apart_scratch [OF ap in_set(2,1)] nk by metis
  qed
  have weaken: "evolves (halfway (n # ns) dated m d (fs_tree f)) f f1"
  proof (rule evolves_mono [OF e1])
    fix t assume t: "?P t"
    have "map_of t k = map_of (fs_tree f) k \<or> shows_file t k (dated k) (m k) (d k)" if "k \<in> set (n # ns)" for k
      using t that other [of k] by (cases "k = n") auto
    then show "halfway (n # ns) dated m d (fs_tree f) t" using t by (auto simp: halfway_def)
  qed
  show ?case
  proof (cases r1)
    case (Some err)
    then have "r = Some err" "g = f1" using run f1 inx by simp_all
    then show ?thesis using weaken by simp
  next
    case None
    then have run': "link_items pub inx ns f1 = (r, g)" using run f1 inx by simp
    have P1: "?P (fs_tree f1)" by (rule evolves_end [OF e1]) simp
    have keep: "map_of (fs_tree f1) k = map_of (fs_tree f) k" "map_of (fs_tree f1) (dated k) = map_of (fs_tree f) (dated k)"
      if "k \<in> set ns" for k
      using P1 other [OF that] by auto
    have IH: "evolves (halfway ns dated m d (fs_tree f1)) f1 g \<and>
        (r = None \<longrightarrow> (\<forall>k\<in>set ns. shows_file (fs_tree g) k (dated k) (m k) (d k)))"
      using inx files keep by (intro Cons.IH [OF apart_Cons [OF ap] _ _ run']) auto
    have new: "shows_file (fs_tree f1) n (dated n) (m n) (d n)"
      using pub_done [OF nm s] f1 None by simp
    have later: "shows_file t n (dated n) (m n) (d n) \<and> halfway (n # ns) dated m d (fs_tree f) t"
      if t: "halfway ns dated m d (fs_tree f1) t" for t
    proof -
      have "n \<notin> set ns" "dated n \<notin> set ns" using ap by (auto simp: apart_def)
      then have "map_of t n = map_of (fs_tree f1) n" "map_of t (dated n) = map_of (fs_tree f1) (dated n)"
        using t other unfolding halfway_def by metis+
      then have n: "shows_file t n (dated n) (m n) (d n)" using shows_file_frame [OF new] by simp
      moreover have "map_of t k = map_of (fs_tree f) k \<or> shows_file t k (dated k) (m k) (d k)" if "k \<in> set ns" for k
        using t that keep(1) [OF that] by (auto simp: halfway_def)
      moreover have "map_of t q = map_of (fs_tree f) q"
        if "q \<notin> set (n # ns)" "\<forall>k\<in>set (n # ns). q \<noteq> scratch k (dated k)" for q
        using t that P1 by (auto simp: halfway_def)
      ultimately show ?thesis by (auto simp: halfway_def)
    qed
    have "evolves (halfway (n # ns) dated m d (fs_tree f)) f1 g"
      using IH later by (blast intro: evolves_mono)
    moreover have "halfway ns dated m d (fs_tree f1) (fs_tree g)"
      using IH by (elim conjE evolves_end) (simp add: halfway_def)
    ultimately show ?thesis using evolves_trans [OF weaken] IH later by auto
  qed
qed

end

section \<open>The two ways to publish\<close>

lemma switching_shows:
  assumes "switching t0 name (path_base dated) t" and "link_target name (path_base dated) = dated"
    and "dated \<noteq> name" "dated \<noteq> tmp_name name" and "map_of t0 dated = Some (RegFile m s d)"
  shows "(map_of t name = map_of t0 name \<or> shows_file t name dated m d) \<and>
    (\<forall>q. q \<noteq> name \<and> q \<noteq> tmp_name name \<longrightarrow> map_of t q = map_of t0 q)"
  using assms by (auto simp: switching_def shows_file_def)

interpretation by_symlink: publisher "publish_name True" "\<lambda>name dated. tmp_name name"
proof
  fix name dated f m s d r g
  assume l: "link_target name (path_base dated) = dated" "dated \<noteq> name" "dated \<noteq> tmp_name name"
    and s: "map_of (fs_tree f) dated = Some (RegFile m s d)" and p: "publish_name True name dated f = (r, g)"
  from p have p': "replaceSymlink name (path_base dated) f = (r, g)" by (simp add: publish_name_def)
  show "evolves (\<lambda>t. (map_of t name = map_of (fs_tree f) name \<or> shows_file t name dated m d) \<and>
        (\<forall>q. q \<noteq> name \<and> q \<noteq> tmp_name name \<longrightarrow> map_of t q = map_of (fs_tree f) q)) f g"
    by (rule evolves_mono [OF replaceSymlink_effect(1) [OF p']]) (rule switching_shows [OF _ l s])
next
  fix name dated f m s d g
  assume l: "link_target name (path_base dated) = dated" "dated \<noteq> name" "dated \<noteq> tmp_name name"
    and s: "map_of (fs_tree f) dated = Some (RegFile m s d)" and p: "publish_name True name dated f = (None, g)"
  from p have p': "replaceSymlink name (path_base dated) f = (None, g)" by (simp add: publish_name_def)
  have "switching (fs_tree f) name (path_base dated) (fs_tree g)"
    by (rule evolves_end [OF replaceSymlink_effect(1) [OF p']]) (simp add: switching_def)
  then have "map_of (fs_tree g) dated = Some (RegFile m s d)" using l s by (simp add: switching_def)
  then show "shows_file (fs_tree g) name dated m d"
    using replaceSymlink_effect(2) [OF p'] l by (simp add: shows_file_def)
qed simp

interpretation by_rename: publisher "publish_name False" "\<lambda>name dated. dated"
proof
  fix name dated f m s d r g
  assume l: "dated \<noteq> name" and s: "map_of (fs_tree f) dated = Some (RegFile m s d)"
    and p: "publish_name False name dated f = (r, g)"
  from p have "os_rename dated name f = (r, g)" by (simp add: publish_name_def)
  from os_rename_cases [OF this s l]
  show "evolves (\<lambda>t. (map_of t name = map_of (fs_tree f) name \<or> shows_file t name dated m d) \<and>
        (\<forall>q. q \<noteq> name \<and> q \<noteq> dated \<longrightarrow> map_of t q = map_of (fs_tree f) q)) f g"
    by (auto intro!: evolves_commit simp: map_of_update map_of_delete shows_file_def)
next
  fix name dated f m s d g
  assume l: "dated \<noteq> name" and s: "map_of (fs_tree f) dated = Some (RegFile m s d)"
    and p: "publish_name False name dated f = (None, g)"
  from p have "os_rename dated name f = (None, g)" by (simp add: publish_name_def)
  from os_rename_cases [OF this s l] show "shows_file (fs_tree g) name dated m d"
    by (auto simp: map_of_update shows_file_def)
qed simp

end
