(* ===== verification/Execute.thy ===== *)
theory Execute
  imports CertReq Publish
begin

text \<open>
  \<open>Req.Execute\<close> of \<open>cert.go\<close>: fetch all files of a domain, write them under names with a
  timestamp, switch the links over, run the hook.  Parameters of a run: \<open>ex_do\<close> is
  \<open>http.Client.Do\<close>, \<open>ex_order\<close> the order in which \<open>range\<close> visits the map of written names,
  \<open>ex_run\<close> the execution of the hook, the two readings of the clock and the process
  environment.  The mutex around the hook belongs to the worker pool.
\<close>

section \<open>Replies and environment\<close>

record reply =
  rp_code :: nat
  rp_status :: string
  rp_headers :: "(string \<times> string) list"
  rp_body :: reader

record command =
  cmd_path :: string
  cmd_args :: "string list"
  cmd_env :: "string list"

record exec_env =
  ex_force :: bool
  ex_use_symlink :: bool
  ex_ip6 :: "string \<Rightarrow> bool"
  ex_do :: "client_request \<Rightarrow> go_error + reply"
  ex_order :: "string list \<Rightarrow> string list"
  ex_format_time :: "int \<Rightarrow> string"
  ex_write_time :: int
  ex_hook_time :: int
  ex_environ :: "string list"
  ex_run :: "command \<Rightarrow> fs \<Rightarrow> go_error option \<times> fs"

record world =
  w_fs :: fs
  w_log :: logger

definition say :: "string \<Rightarrow> world \<Rightarrow> world" where
  "say t w = w\<lparr>w_log := Verbose t (w_log w)\<rparr>"

definition on_fs :: "(fs \<Rightarrow> 'a \<times> fs) \<Rightarrow> world \<Rightarrow> 'a \<times> world" where
  "on_fs op w = (case op (w_fs w) of (r, f) \<Rightarrow> (r, w\<lparr>w_fs := f\<rparr>))"

section \<open>Fetching\<close>

definition with_ims :: "exec_env \<Rightarrow> fs \<Rightarrow> cert_item \<Rightarrow> cert_item" where
  "with_ims env f item =
     (if ex_force env then item
      else (case os_stat f (ci_local item) of Inl _ \<Rightarrow> item
        | Inr fi \<Rightarrow> item\<lparr>ci_remote := request_header_set ''If-Modified-Since''
            (ex_format_time env (mod_time fi)) (ci_remote item)\<rparr>))"

definition request_url :: "cert_item \<Rightarrow> string" where
  "request_url item = RedactedURL (Some (cq_url (ci_remote item))) [''pass'']"

text \<open>One turn of the loop: the item with its data, or the error that ends \<open>Execute\<close>.\<close>

definition fetch_one :: "exec_env \<Rightarrow> cert_item \<Rightarrow> world \<Rightarrow> (go_error + cert_item) \<times> world" where
  "fetch_one env item0 w =
     (let item = with_ims env (w_fs w) item0;
          requestURL = request_url item;
          w1 = say (''Requesting '' @ requestURL @ '' ims:'' @
            request_header_get (ci_remote item) ''If-Modified-Since'') w in
      case ex_do env (ci_remote item) of
        Inl err \<Rightarrow> (Inl (redactRequestError (ex_ip6 env) err), w1)
      | Inr resp \<Rightarrow>
        (if rp_code resp = 200 then
           (case rp_body resp of
              (d, Some err) \<Rightarrow> (Inl err, w1)
            | (d, None) \<Rightarrow> (Inr (item\<lparr>ci_data := d\<rparr>), w1))
         else if rp_code resp = 304 then (Inr item, say (rp_status resp) w1)
         else (Inl (Msg (requestURL @ '': '' @ rp_status resp)), w1)))"

fun fetch_items :: "exec_env \<Rightarrow> cert_item list \<Rightarrow> world \<Rightarrow> (go_error + cert_item list) \<times> world" where
  "fetch_items env [] w = (Inr [], w)"
| "fetch_items env (item # items) w =
     (case fetch_one env item w of
        (Inl err, w1) \<Rightarrow> (Inl err, w1)
      | (Inr it, w1) \<Rightarrow>
        (case fetch_items env items w1 of
           (Inl err, w2) \<Rightarrow> (Inl err, w2)
         | (Inr its, w2) \<Rightarrow> (Inr (it # its), w2)))"

section \<open>Writing\<close>

definition infixed_name :: "string \<Rightarrow> string \<Rightarrow> string outcome" where
  "infixed_name stamp s =
     (case last_index CHR ''.'' s of None \<Rightarrow> Panicked ''should not happen''
      | Some i \<Rightarrow> Returned (take i s @ ''-'' @ stamp @ drop i s))"

text \<open>The second \<open>writeFile\<close> error handling, the removal of the name just written to, is best
  effort: its own error is dropped.\<close>

fun write_items :: "string \<Rightarrow> cert_item list \<Rightarrow> infixed \<Rightarrow> world \<Rightarrow> (go_error + infixed) outcome \<times> world" where
  "write_items stamp [] inx w = (Returned (Inr inx), w)"
| "write_items stamp (item # items) inx w =
     (if ci_data item = [] then write_items stamp items inx w
      else let w1 = say (''Write '' @ ci_local item) w in
        (case infixed_name stamp (ci_local item) of
           Panicked m \<Rightarrow> (Panicked m, w1)
         | Returned n \<Rightarrow>
             (case on_fs (writeFile n (ci_data item) (ci_private item)) w1 of
                (Some err, w2) \<Rightarrow> (Returned (Inl err), snd (on_fs (os_remove n) w2))
              | (None, w2) \<Rightarrow> write_items stamp items (AList.update (ci_local item) n inx) w2)))"

section \<open>The hook\<close>

text \<open>\<open>cmd.Args\<close> of the PEM format: a list of length 8 with empty strings at the positions not
  mentioned in the literal.\<close>

fun fill_args :: "cert_item list \<Rightarrow> string list \<Rightarrow> string list" where
  "fill_args [] args = args"
| "fill_args (i # items) args =
     fill_args items (case ci_role i of
         RoleKEY \<Rightarrow> args[3 := ci_local i]
       | RoleCRT \<Rightarrow> args[4 := ci_local i]
       | RoleFULLCHAIN \<Rightarrow> args[5 := ci_local i]
       | RoleCHAIN \<Rightarrow> args[6 := ci_local i]
       | RoleBUNDLE \<Rightarrow> args)"

definition hook_args :: "cert_req \<Rightarrow> cert_item list \<Rightarrow> string \<Rightarrow> string list" where
  "hook_args req items timestamp =
     (if length items = 1 \<and> ci_role (items ! 0) = RoleBUNDLE
      then [req_hook req, ''deploy_cert'', req_domain req, ci_local (items ! 0), timestamp]
      else fill_args items [req_hook req, ''deploy_cert'', req_domain req, [], [], [], [], timestamp])"

definition hook_command :: "exec_env \<Rightarrow> cert_req \<Rightarrow> cert_item list \<Rightarrow> command" where
  "hook_command env req items =
     \<lparr>cmd_path = req_hook req,
      cmd_args = hook_args req items (format_int (ex_hook_time env)),
      cmd_env = ex_environ env @ req_env req @ map ci_env items\<rparr>"

definition run_hook :: "exec_env \<Rightarrow> cert_req \<Rightarrow> cert_item list \<Rightarrow> world \<Rightarrow> go_error option \<times> world" where
  "run_hook env req items w =
     (if req_hook req = [] then (None, w)
      else on_fs (ex_run env (hook_command env req items))
        (say (''Hook '' @ req_hook req @ '' for '' @ req_domain req) w))"

section \<open>Execute\<close>

definition Execute :: "exec_env \<Rightarrow> cert_req \<Rightarrow> world \<Rightarrow> go_error option outcome \<times> world" where
  "Execute env req w =
     (case fetch_items env (req_items req) w of
        (Inl err, w1) \<Rightarrow> (Returned (Some err), w1)
      | (Inr items, w1) \<Rightarrow>
        (case write_items (format_int (ex_write_time env)) items [] w1 of
           (Panicked m, w2) \<Rightarrow> (Panicked m, w2)
         | (Returned (Inl err), w2) \<Rightarrow> (Returned (Some err), w2)
         | (Returned (Inr inx), w2) \<Rightarrow>
           (case on_fs (link_items (publish_name (ex_use_symlink env)) inx (ex_order env (map fst inx))) w2 of
              (Some err, w3) \<Rightarrow> (Returned (Some err), w3)
            | (None, w3) \<Rightarrow>
              (case run_hook env req items w3 of (r, w4) \<Rightarrow> (Returned r, w4)))))"

end
