(* ===== verification/ExecuteProps.thy ===== *)
theory ExecuteProps
  imports Execute
begin

text \<open>
  What \<open>Execute\<close> does to the certificate store: nothing before every file is fetched, never
  anything but complete files under the current names, and key files readable by their owner
  only at every moment.
\<close>

section \<open>File names\<close>

definition stem :: "role \<Rightarrow> string" where
  "stem r = (case r of RoleCRT \<Rightarrow> ''cert'' | RoleKEY \<Rightarrow> ''privkey'' | RoleCHAIN \<Rightarrow> ''chain''
     | RoleFULLCHAIN \<Rightarrow> ''fullchain'' | RoleBUNDLE \<Rightarrow> ''bundle'')"

definition suffix :: "role \<Rightarrow> string" where
  "suffix r = (if r = RoleBUNDLE then ''.pfx'' else ''.pem'')"

definition current_file :: "role \<Rightarrow> string" where
  "current_file r = stem r @ suffix r"

definition dated_file :: "string \<Rightarrow> role \<Rightarrow> string" where
  "dated_file stamp r = stem r @ ''-'' @ stamp @ suffix r"

definition key_item :: "role \<Rightarrow> bool" where
  "key_item r \<longleftrightarrow> r = RoleKEY \<or> r = RoleBUNDLE"

text \<open>The items of a request for domain \<open>d\<close> below \<open>base\<close>.\<close>

definition item_placed :: "string \<Rightarrow> string \<Rightarrow> cert_item \<Rightarrow> bool" where
  "item_placed base d i \<longleftrightarrow> ci_local i = path_below base [d, current_file (ci_role i)] \<and>
     ci_private i = key_item (ci_role i)"

definition items_placed :: "string \<Rightarrow> string \<Rightarrow> cert_item list \<Rightarrow> bool" where
  "items_placed base d its \<longleftrightarrow> list_all (item_placed base d) its \<and> distinct (map ci_role its)"

definition stamp_ok :: "string \<Rightarrow> bool" where
  "stamp_ok s \<longleftrightarrow> CHR ''/'' \<notin> set s \<and> CHR ''.'' \<notin> set s"

lemma dec_nat_digits: "c \<in> set (dec_nat n) \<Longrightarrow> is_digit c"
proof (induction n arbitrary: c rule: dec_nat.induct)
  case (1 n)
  have d: "is_digit (char_of (48 + m))" if "m < 10" for m :: nat
    using that by (simp add: is_digit_def)
  show ?case using 1 d [of "n mod 10"] d [of n] by (subst (asm) dec_nat.simps) (auto split: if_splits)
qed

lemma format_int_stamp: "stamp_ok (format_int i)"
proof -
  have d: "is_digit c \<Longrightarrow> c \<noteq> CHR ''/'' \<and> c \<noteq> CHR ''.''" for c
    by (auto simp: is_digit_def)
  have "c \<in> set (format_int i) \<Longrightarrow> is_digit c \<or> c = CHR ''-''" for c
    by (auto simp: format_int_def dest: dec_nat_digits split: if_splits)
  then show ?thesis using d unfolding stamp_ok_def by fastforce
qed

lemmas file_defs = current_file_def dated_file_def stem_def suffix_def

lemma current_plain [simp]: "plain (current_file r)"
  by (cases r) (simp_all add: file_defs plain_def)

lemma dated_plain: "stamp_ok s \<Longrightarrow> plain (dated_file s r)"
  by (cases r) (simp_all add: file_defs plain_def stamp_ok_def)

lemma tmp_plain: "plain (current_file r @ ''.tmp'')"
  by (cases r) (simp_all add: file_defs plain_def)

lemma current_inj: "current_file r = current_file r' \<longleftrightarrow> r = r'"
  by (cases r; cases r') (simp_all add: file_defs)

lemma dated_inj: "dated_file s r = dated_file s r' \<longleftrightarrow> r = r'"
  by (cases r; cases r') (simp_all add: file_defs)

lemma files_differ:
  "dated_file s r \<noteq> current_file r'" "dated_file s r \<noteq> current_file r' @ ''.tmp''"
  "current_file r @ ''.tmp'' \<noteq> current_file r'"
  by (cases r; cases r'; simp add: file_defs)+

text \<open>The names in the domain's directory.\<close>

definition in_domain :: "string \<Rightarrow> string \<Rightarrow> string \<Rightarrow> string" where
  "in_domain base d file = path_below base [d, file]"

lemma in_domain_inj:
  "plain d \<Longrightarrow> plain e \<Longrightarrow> plain e' \<Longrightarrow> in_domain base d e = in_domain base d e' \<longleftrightarrow> e = e'"
  using path_below_inj [of base "[d, e]" "[d, e']"] by (auto simp: in_domain_def)

lemma in_domain_snoc: "in_domain base d (x @ y) = in_domain base d x @ y"
  using path_below_snoc [of base "[d]"] by (simp add: in_domain_def)

lemma in_domain_tmp: "tmp_name (in_domain base d x) = in_domain base d (x @ ''.tmp'')"
  by (simp add: tmp_name_def in_domain_snoc)

lemma dir_in_domain: "plain d \<Longrightarrow> plain e \<Longrightarrow> path_dir (in_domain base d e) = path_below base [d]"
  by (simp add: in_domain_def dir_of_file)

lemma last_index_append:
  "c \<notin> set b \<Longrightarrow> last_index c (a @ c # b) = Some (length a)"
  by (simp add: last_index_def takeWhile_append)

lemma infixed_current:
  "infixed_name s (in_domain base d (current_file r)) = Returned (in_domain base d (dated_file s r))"
proof -
  obtain x where x: "suffix r = CHR ''.'' # x" "CHR ''.'' \<notin> set x" by (cases "r = RoleBUNDLE") (auto simp: suffix_def)
  let ?a = "in_domain base d (stem r)"
  have "in_domain base d (current_file r) = ?a @ CHR ''.'' # x"
    using in_domain_snoc by (simp add: current_file_def x)
  moreover have "in_domain base d (dated_file s r) = ?a @ ''-'' @ s @ CHR ''.'' # x"
    using in_domain_snoc by (simp add: dated_file_def x)
  ultimately show ?thesis using last_index_append [OF x(2), of ?a] by (simp add: infixed_name_def)
qed

section \<open>Writing the files\<close>

text \<open>The trees while the items are written: the tree before plus dated files and the directory,
  the private ones for their owner only.\<close>

definition dated_name :: "string \<Rightarrow> string \<Rightarrow> string \<Rightarrow> cert_item \<Rightarrow> string" where
  "dated_name s base d i = in_domain base d (dated_file s (ci_role i))"

definition adds_dated :: "string \<Rightarrow> string \<Rightarrow> string \<Rightarrow> cert_item list \<Rightarrow> tree \<Rightarrow> tree \<Rightarrow> bool" where
  "adds_dated s base d its t0 t \<longleftrightarrow>
     (\<forall>i\<in>set its. under_way (ci_private i) (map_of t (dated_name s base d i))) \<and>
     (\<forall>q. q \<notin> dated_name s base d ` set its \<longrightarrow>
        map_of t q = map_of t0 q \<or> q = path_below base [d] \<and> map_of t0 q = None)"

lemma on_fs_simps: "on_fs op w = (r, w') \<longleftrightarrow> op (w_fs w) = (r, w_fs w') \<and> w' = w\<lparr>w_fs := w_fs w'\<rparr>"
  by (cases w'; cases w) (auto simp: on_fs_def split: prod.splits)

lemma say_fs [simp]: "w_fs (say t w) = w_fs w"
  by (simp add: say_def)

lemma dated_dir:
  assumes "plain d" "stamp_ok s"
  shows "path_dir (dated_name s base d i) = path_below base [d]" "dated_name s base d i \<noteq> path_below base [d]"
proof -
  show "path_dir (dated_name s base d i) = path_below base [d]"
    using dir_in_domain [OF assms(1) dated_plain [OF assms(2)]] by (simp add: dated_name_def)
  have "path_elems (dated_name s base d i) = path_elems base @ [d, dated_file s (ci_role i)]"
    "path_elems (path_below base [d]) = path_elems base @ [d]"
    using assms dated_plain by (simp_all add: dated_name_def in_domain_def elems_path_below)
  then show "dated_name s base d i \<noteq> path_below base [d]" by auto
qed

lemma dated_name_inj:
  "plain d \<Longrightarrow> stamp_ok s \<Longrightarrow> dated_name s base d i = dated_name s base d j \<longleftrightarrow> ci_role i = ci_role j"
  by (simp add: dated_name_def in_domain_inj dated_plain dated_inj)

text \<open>The table of names the loop builds.\<close>

definition written :: "cert_item list \<Rightarrow> cert_item list" where
  "written its = filter (\<lambda>i. ci_data i \<noteq> []) its"

lemma update_new: "k \<notin> fst ` set al \<Longrightarrow> AList.update k v al = al @ [(k, v)]"
  by (induction al) auto

definition table_of :: "string \<Rightarrow> string \<Rightarrow> string \<Rightarrow> cert_item list \<Rightarrow> infixed" where
  "table_of s base d its = map (\<lambda>i. (ci_local i, dated_name s base d i)) (written its)"

definition stored :: "string \<Rightarrow> string \<Rightarrow> string \<Rightarrow> cert_item \<Rightarrow> tree \<Rightarrow> bool" where
  "stored s base d i t \<longleftrightarrow>
     (\<exists>m. map_of t (dated_name s base d i) = Some (RegFile (file_mode (ci_private i)) m (ci_data i)))"

lemma placed_names:
  "item_placed base d i \<Longrightarrow> infixed_name s (ci_local i) = Returned (dated_name s base d i)"
  using infixed_current by (simp add: item_placed_def dated_name_def in_domain_def)

lemma placed_locals:
  "plain d \<Longrightarrow> item_placed base d i \<Longrightarrow> item_placed base d j \<Longrightarrow> ci_local i = ci_local j \<longleftrightarrow> ci_role i = ci_role j"
  by (simp add: item_placed_def in_domain_inj current_inj flip: in_domain_def)

lemma under_way_file: "under_way p (Some (RegFile (file_mode p) m x))"
  by (simp add: under_way_def file_mode_def owner_only_private)

text \<open>One file: how the trees on the way relate to the tree before.\<close>

lemma adds_dated_one:
  assumes "plain d" "stamp_ok s" "i \<in> set its" "\<forall>j\<in>set its. map_of t0 (dated_name s base d j) = None"
    and "writing t0 (dated_name s base d i) (ci_private i) t" and pl: "list_all (item_placed base d) its"
  shows "adds_dated s base d its t0 t"
  unfolding adds_dated_def
proof (intro conjI ballI allI impI)
  fix j assume j: "j \<in> set its"
  show "under_way (ci_private j) (map_of t (dated_name s base d j))"
  proof (cases "dated_name s base d j = dated_name s base d i")
    case True
    then have "ci_private j = ci_private i"
      using dated_name_inj [OF assms(1,2)] pl j assms(3) by (simp add: list_all_iff item_placed_def)
    then show ?thesis using assms(5) True by (auto simp: writing_def)
  next
    case False
    then show ?thesis using assms j dated_dir [OF assms(1,2)] by (auto simp: writing_def under_way_def)
  qed
next
  fix q assume "q \<notin> dated_name s base d ` set its"
  then show "map_of t q = map_of t0 q \<or> q = path_below base [d] \<and> map_of t0 q = None"
    using assms(3,5) dated_dir(1) [OF assms(1,2)] by (auto simp: writing_def)
qed

lemma adds_dated_Cons:
  assumes "plain d" "stamp_ok s" and t0: "map_of t0 (dated_name s base d i) = None"
    and pl: "list_all (item_placed base d) (i # its)" "distinct (map ci_role (i # its))"
    and t1: "writing t0 (dated_name s base d i) (ci_private i) t1"
    and t: "adds_dated s base d its t1 t"
  shows "adds_dated s base d (i # its) t0 t"
  unfolding adds_dated_def
proof (intro conjI ballI allI impI)
  have n: "dated_name s base d i \<notin> dated_name s base d ` set its"
    using dated_name_inj [OF assms(1,2)] pl(2) by auto
  have i: "map_of t (dated_name s base d i) = map_of t1 (dated_name s base d i)"
    using t n dated_dir(2) [OF assms(1,2)] by (auto simp: adds_dated_def)
  fix j assume "j \<in> set (i # its)"
  then show "under_way (ci_private j) (map_of t (dated_name s base d j))"
    using t t1 i by (auto simp: adds_dated_def writing_def)
next
  fix q assume q: "q \<notin> dated_name s base d ` set (i # its)"
  then have "map_of t q = map_of t1 q \<or> q = path_below base [d] \<and> map_of t1 q = None"
    using t by (auto simp: adds_dated_def)
  moreover have "map_of t1 q = map_of t0 q \<or> q = path_below base [d] \<and> map_of t0 q = None"
    using t1 q dated_dir(1) [OF assms(1,2)] by (auto simp: writing_def)
  ultimately show "map_of t q = map_of t0 q \<or> q = path_below base [d] \<and> map_of t0 q = None" by auto
qed

lemma adds_dated_weaken:
  assumes "adds_dated s base d its t0 t" and "map_of t0 (dated_name s base d i) = None"
    and "plain d" "stamp_ok s" and "ci_role i \<notin> ci_role ` set its"
  shows "adds_dated s base d (i # its) t0 t"
proof -
  have "dated_name s base d i \<notin> dated_name s base d ` set its"
    using assms(5) dated_name_inj [OF assms(3,4)] by auto
  then have "map_of t (dated_name s base d i) = None"
    using assms(1,2) dated_dir(2) [OF assms(3,4)] by (auto simp: adds_dated_def)
  then show ?thesis using assms(1) by (auto simp: adds_dated_def under_way_def)
qed

lemma on_fsE: "on_fs op w = (r, w1) \<Longrightarrow> op (w_fs w) = (r, w_fs w1)"
  by (auto simp: on_fs_def split: prod.splits)

lemma written_Cons: "written (i # its) = (if ci_data i = [] then written its else i # written its)"
  by (simp add: written_def)

lemma write_items_effect:
  assumes "plain d" "stamp_ok s"
  shows "list_all (item_placed base d) its \<Longrightarrow> distinct (map ci_role its) \<Longrightarrow>
    \<forall>i\<in>set its. map_of (fs_tree (w_fs w)) (dated_name s base d i) = None \<Longrightarrow>
    \<forall>i\<in>set its. ci_local i \<notin> fst ` set inx \<Longrightarrow>
    write_items s its inx w = (res, w') \<Longrightarrow>
    evolves (adds_dated s base d its (fs_tree (w_fs w))) (w_fs w) (w_fs w') \<and>
    (case res of Panicked m \<Rightarrow> False | Returned (Inl e) \<Rightarrow> True
     | Returned (Inr inx') \<Rightarrow> inx' = inx @ table_of s base d its \<and>
         (\<forall>i\<in>set (written its). stored s base d i (fs_tree (w_fs w'))))"
proof (induction its arbitrary: inx w)
  case Nil
  then show ?case by (auto simp: table_of_def written_def)
next
  case (Cons i its)
  let ?n = "dated_name s base d i" and ?t0 = "fs_tree (w_fs w)"
  have role: "ci_role i \<notin> ci_role ` set its" using Cons.prems(2) by simp
  have new: "map_of ?t0 ?n = None" using Cons.prems(3) by simp
  show ?case
  proof (cases "ci_data i = []")
    case True
    have "evolves (adds_dated s base d its ?t0) (w_fs w) (w_fs w') \<and>
      (case res of Panicked m \<Rightarrow> False | Returned (Inl e) \<Rightarrow> True
       | Returned (Inr inx') \<Rightarrow> inx' = inx @ table_of s base d its \<and>
           (\<forall>i\<in>set (written its). stored s base d i (fs_tree (w_fs w'))))"
      using Cons.prems True by (intro Cons.IH) simp_all
    moreover have "table_of s base d (i # its) = table_of s base d its" "written (i # its) = written its"
      using True by (simp_all add: table_of_def written_Cons)
    moreover from calculation(1) have "evolves (adds_dated s base d (i # its) ?t0) (w_fs w) (w_fs w')"
      using adds_dated_weaken [OF _ new assms role] by (elim conjE evolves_mono) blast
    ultimately show ?thesis by (simp split: outcome.splits sum.splits)
  next
    case False
    define w1 where "w1 = say (''Write '' @ ci_local i) w"
    have w1: "w_fs w1 = w_fs w" by (simp add: w1_def)
    obtain r2 w2 where w2: "on_fs (writeFile ?n (ci_data i) (ci_private i)) w1 = (r2, w2)" by fastforce
    then have wf: "writeFile ?n (ci_data i) (ci_private i) (w_fs w) = (r2, w_fs w2)"
      using on_fsE w1 by metis
    have dir: "path_dir ?n \<noteq> ?n" using dated_dir [OF assms] by metis
    have e1: "evolves (writing ?t0 ?n (ci_private i)) (w_fs w) (w_fs w2)"
      by (rule writeFile_effect(1) [OF wf new dir])
    have one: "writing ?t0 ?n (ci_private i) t \<Longrightarrow> adds_dated s base d (i # its) ?t0 t" for t
      using Cons.prems(1,3) by (intro adds_dated_one [OF assms]) auto
    have E1: "evolves (adds_dated s base d (i # its) ?t0) (w_fs w) (w_fs w2)"
      by (rule evolves_mono [OF e1 one])
    have base: "writing ?t0 ?n (ci_private i) ?t0" using new by (simp add: writing_def under_way_def)
    have t2: "writing ?t0 ?n (ci_private i) (fs_tree (w_fs w2))" by (rule evolves_end [OF e1 base])
    have nm: "infixed_name s (ci_local i) = Returned ?n"
      using Cons.prems(1) by (intro placed_names) simp
    have run: "write_items s (i # its) inx w = (case (r2, w2) of
        (Some err, w2) \<Rightarrow> (Returned (Inl err), snd (on_fs (os_remove ?n) w2))
      | (None, w2) \<Rightarrow> write_items s its (AList.update (ci_local i) ?n inx) w2)"
      using False nm w2 by (simp add: Let_def w1_def)
    show ?thesis
    proof (cases r2)
      case (Some err)
      then have res: "res = Returned (Inl err)" "w' = snd (on_fs (os_remove ?n) w2)"
        using Cons.prems(5) run by simp_all
      obtain r3 f3 where f3: "os_remove ?n (w_fs w2) = (r3, f3)" by fastforce
      then have "w_fs w' = f3" using res(2) by (simp add: on_fs_def)
      moreover have "evolves (writing ?t0 ?n (ci_private i)) (w_fs w2) f3"
        using os_remove_cases [OF f3] t2
        by (auto intro!: evolves_commit simp: writing_def map_of_delete under_way_def)
      ultimately have "evolves (writing ?t0 ?n (ci_private i)) (w_fs w) (w_fs w')"
        using evolves_trans [OF e1] by simp
      then have "evolves (adds_dated s base d (i # its) ?t0) (w_fs w) (w_fs w')"
        by (rule evolves_mono) (rule one)
      then show ?thesis using res(1) by simp
    next
      case None
      have st: "stored s base d i (fs_tree (w_fs w2))"
        using writeFile_effect(2) [OF wf new dir None] by (auto simp: stored_def)
      have fresh: "ci_local i \<notin> fst ` set inx" using Cons.prems(4) by simp
      have run': "write_items s its (inx @ [(ci_local i, ?n)]) w2 = (res, w')"
        using Cons.prems(5) run None update_new [OF fresh] by simp
      have pend: "map_of (fs_tree (w_fs w2)) (dated_name s base d j) = None" if "j \<in> set its" for j
      proof -
        have "ci_role j \<noteq> ci_role i" using role that by (metis image_eqI)
        then have "dated_name s base d j \<noteq> ?n" by (simp add: dated_name_inj [OF assms])
        then show ?thesis using t2 that Cons.prems(3) dated_dir [OF assms] by (auto simp: writing_def)
      qed
      have loc: "ci_local j \<notin> fst ` set (inx @ [(ci_local i, ?n)])" if "j \<in> set its" for j
      proof -
        have "ci_role j \<noteq> ci_role i" using role that by (metis image_eqI)
        then have "ci_local j \<noteq> ci_local i"
          using that Cons.prems(1) placed_locals [OF assms(1), of base j i] by (simp add: list_all_iff)
        then show ?thesis using that Cons.prems(4) by simp
      qed
      have IH: "evolves (adds_dated s base d its (fs_tree (w_fs w2))) (w_fs w2) (w_fs w') \<and>
        (case res of Panicked m \<Rightarrow> False | Returned (Inl e) \<Rightarrow> True
         | Returned (Inr inx') \<Rightarrow> inx' = (inx @ [(ci_local i, ?n)]) @ table_of s base d its \<and>
             (\<forall>i\<in>set (written its). stored s base d i (fs_tree (w_fs w'))))"
        using Cons.prems(1,2) pend loc run' by (intro Cons.IH) simp_all
      have step: "adds_dated s base d its (fs_tree (w_fs w2)) t \<Longrightarrow> adds_dated s base d (i # its) ?t0 t" for t
        by (rule adds_dated_Cons [OF assms new Cons.prems(1,2) t2])
      have E2: "evolves (adds_dated s base d (i # its) ?t0) (w_fs w2) (w_fs w')"
        using IH step by (blast intro: evolves_mono)
      have "adds_dated s base d its (fs_tree (w_fs w2)) (fs_tree (w_fs w'))"
        using IH pend by (elim conjE evolves_end) (auto simp: adds_dated_def under_way_def)
      moreover have "?n \<notin> dated_name s base d ` set its" using dated_name_inj [OF assms] role by auto
      ultimately have "stored s base d i (fs_tree (w_fs w'))"
        using st dated_dir(2) [OF assms] by (auto simp: stored_def adds_dated_def)
      moreover have "table_of s base d (i # its) = (ci_local i, ?n) # table_of s base d its"
        using False by (simp add: table_of_def written_Cons)
      ultimately show ?thesis using evolves_trans [OF E1 E2] IH False
        by (auto simp: written_Cons split: outcome.splits sum.splits)
    qed
  qed
qed

section \<open>Fetching\<close>

text \<open>Fetching only fills in data and headers.\<close>

definition same_item :: "cert_item \<Rightarrow> cert_item \<Rightarrow> bool" where
  "same_item i j \<longleftrightarrow> ci_role j = ci_role i \<and> ci_local j = ci_local i \<and> ci_private j = ci_private i \<and>
     ci_env j = ci_env i"

lemma with_ims_same: "same_item i (with_ims env f i)"
  by (simp add: with_ims_def same_item_def split: sum.splits)

lemma fetch_one_fs: "fetch_one env i w = (res, w') \<Longrightarrow> w_fs w' = w_fs w"
  by (auto simp: fetch_one_def Let_def split: sum.splits if_splits prod.splits option.splits)

lemma fetch_one_same: "fetch_one env i w = (Inr j, w') \<Longrightarrow> same_item i j"
  using with_ims_same [of i env "w_fs w"]
  by (auto simp: fetch_one_def Let_def same_item_def split: sum.splits if_splits prod.splits option.splits)

lemma fetch_items_effect:
  "fetch_items env its w = (res, w') \<Longrightarrow>
     w_fs w' = w_fs w \<and> (case res of Inl e \<Rightarrow> True | Inr its' \<Rightarrow> list_all2 same_item its its')"
proof (induction its arbitrary: w w' res)
  case Nil
  then show ?case by auto
next
  case (Cons i its)
  obtain r1 w1 where o: "fetch_one env i w = (r1, w1)" by fastforce
  show ?case
  proof (cases r1)
    case (Inl e)
    then show ?thesis using Cons.prems o fetch_one_fs [OF o] by auto
  next
    case r1: (Inr j)
    have same: "same_item i j" using fetch_one_same o r1 by simp
    obtain r2 w2 where t: "fetch_items env its w1 = (r2, w2)" by fastforce
    have w2: "w_fs w2 = w_fs w" using Cons.IH [OF t] fetch_one_fs [OF o] by simp
    show ?thesis
    proof (cases r2)
      case (Inl e)
      then show ?thesis using Cons.prems o r1 t w2 by auto
    next
      case (Inr js)
      then have "list_all2 same_item its js" using Cons.IH [OF t] by simp
      then show ?thesis using Cons.prems o r1 t w2 Inr same by auto
    qed
  qed
qed

lemma placed_same: "items_placed base d its \<Longrightarrow> list_all2 same_item its its' \<Longrightarrow> items_placed base d its'"
proof -
  have "list_all2 same_item its its' \<Longrightarrow> list_all (item_placed base d) its \<Longrightarrow>
      list_all (item_placed base d) its' \<and> map ci_role its' = map ci_role its"
    by (induction rule: list_all2_induct) (auto simp: item_placed_def same_item_def)
  then show "items_placed base d its \<Longrightarrow> list_all2 same_item its its' \<Longrightarrow> items_placed base d its'"
    by (auto simp: items_placed_def)
qed

text \<open>A reply that ends the fetching: no reply, an unexpected status, or a body that breaks off.\<close>

definition failed_reply :: "go_error + reply \<Rightarrow> bool" where
  "failed_reply r = (case r of Inl e \<Rightarrow> True
     | Inr resp \<Rightarrow> (if rp_code resp = 200 then snd (rp_body resp) \<noteq> None else rp_code resp \<noteq> 304))"

lemma fetch_one_failed:
  "failed_reply (ex_do env (ci_remote (with_ims env (w_fs w) i))) \<longleftrightarrow> (\<exists>e w'. fetch_one env i w = (Inl e, w'))"
  by (auto simp: failed_reply_def fetch_one_def Let_def split: sum.splits prod.splits option.splits)

lemma fetch_items_failed:
  "i \<in> set its \<Longrightarrow> failed_reply (ex_do env (ci_remote (with_ims env (w_fs w) i))) \<Longrightarrow>
     \<exists>e w'. fetch_items env its w = (Inl e, w')"
proof (induction its arbitrary: w)
  case Nil
  then show ?case by simp
next
  case (Cons j its)
  obtain r1 w1 where o: "fetch_one env j w = (r1, w1)" by fastforce
  show ?case
  proof (cases r1)
    case (Inl e)
    then show ?thesis using o by simp
  next
    case (Inr it)
    then have "\<not> failed_reply (ex_do env (ci_remote (with_ims env (w_fs w) j)))"
      using o fetch_one_failed [of env w j] by simp
    then have i: "i \<in> set its" using Cons.prems by auto
    then have "\<exists>e w'. fetch_items env its w1 = (Inl e, w')"
      using Cons.IH [OF i, of w1] Cons.prems(2) fetch_one_fs [OF o] by simp
    then show ?thesis using o Inr by auto
  qed
qed

section \<open>An example run\<close>

text \<open>A store with an older certificate, a server with a new certificate and a new key, and
  nothing new for the two chains.\<close>

definition example_store :: fs where
  "example_store = \<lparr>fs_tree =
     [(''/s'', Directory 493 1), (''/s/example.org'', Directory 493 1),
      (''/s/example.org/cert.pem'', Symlink ''cert-100.pem''),
      (''/s/example.org/cert-100.pem'', RegFile 420 100 ''old cert''),
      (''/s/example.org/chain.pem'', RegFile 420 100 ''chain'')],
     fs_deny = (\<lambda>_ _. None), fs_partial = 0, fs_umask = 63, fs_clock = 200, fs_past = []\<rparr>"

definition example_do :: "client_request \<Rightarrow> go_error + reply" where
  "example_do r =
     (let ok = (\<lambda>d. Inr \<lparr>rp_code = 200, rp_status = ''200 OK'', rp_headers = [], rp_body = (d, None)\<rparr>);
          p = u_path (cq_url r) in
      if p = ''/v1/cert/example.org'' then ok ''new cert''
      else if p = ''/v1/privkey/example.org'' then ok ''new key''
      else if p = ''/v1/cert/example.net'' then Inl (UrlError ''Get'' ''https://proxy/v1/cert/example.net'' (Msg ''timeout''))
      else Inr \<lparr>rp_code = 304, rp_status = ''304 Not Modified'', rp_headers = [], rp_body = ([], None)\<rparr>)"

definition example_exec :: exec_env where
  "example_exec = \<lparr>ex_force = False, ex_use_symlink = True, ex_ip6 = (\<lambda>_. False), ex_do = example_do,
     ex_order = rev, ex_format_time = format_int, ex_write_time = 200, ex_hook_time = 201,
     ex_environ = [''HOME=/root''], ex_run = (\<lambda>c f. (None, f))\<rparr>"

definition example_world :: world where
  "example_world = \<lparr>w_fs = example_store, w_log = \<lparr>log_debug = True, log_lines = []\<rparr>\<rparr>"

definition example_req :: "string \<Rightarrow> cert_req" where
  "example_req name =
     (case NewReq (\<lambda>_. False) ''v1.22.0'' name ''https://proxy'' ''/s'' [] FormatPEM [] [] of
        Returned (Inr req) \<Rightarrow> req
      | _ \<Rightarrow> \<lparr>req_domain = [], req_items = [], req_hook = [], req_env = []\<rparr>)"

text \<open>C17. All or nothing per domain: if any file of a domain cannot be fetched, \<open>Execute\<close> returns
  an error and has not touched the file system.\<close>

theorem failed_fetch_changes_nothing:
  assumes "i \<in> set (req_items req)"
    and "failed_reply (ex_do env (ci_remote (with_ims env (w_fs w) i)))"
  shows "\<exists>e w'. Execute env req w = (Returned (Some e), w') \<and> w_fs w' = w_fs w"
proof -
  obtain e w' where f: "fetch_items env (req_items req) w = (Inl e, w')"
    using fetch_items_failed [OF assms] by blast
  then show ?thesis using fetch_items_effect [OF f] by (simp add: Execute_def)
qed

theorem failed_fetch_changes_nothing_witness:
  "\<exists>e w'. Execute example_exec (example_req ''example.net'') example_world = (Returned (Some e), w') \<and>
    w_fs w' = w_fs example_world"
proof -
  have "req_items (example_req ''example.net'') \<noteq> []"
    "failed_reply (ex_do example_exec (ci_remote (with_ims example_exec (w_fs example_world)
       (hd (req_items (example_req ''example.net''))))))" by code_simp+
  then show ?thesis by (intro failed_fetch_changes_nothing) auto
qed

end
