(* ===== verification/Requests.thy ===== *)
theory Requests
  imports Endpoint ExecuteProps
begin

text \<open>
  What \<open>NewReq\<close> builds: one item per role of the format, placed below the certificate store for
  any server address; and for plain server addresses, the exact URL each item is fetched from.
\<close>

section \<open>Local files\<close>

lemma join_path_file: "path_join [base, d @ CHR ''/'' # file] = path_join [base, d, file]"
  if "base \<noteq> []"
  using that by (simp add: path_join_def)

lemma local_template:
  "TEMPLATES r = Some ts \<Longrightarrow> mustExpand (t_local ts) ctx = tc_domain ctx @ CHR ''/'' # current_file r"
  by (cases r) (auto simp: TEMPLATES_def mustExpand_def file_defs)

lemma local_path:
  assumes "base \<noteq> []" and "plain d" and "TEMPLATES r = Some ts" and "tc_domain ctx = d"
  shows "path_join [base, mustExpand (t_local ts) ctx] = in_domain base d (current_file r)"
  using assms path_join_plain [OF assms(1), of "[d, current_file r]"]
  by (simp add: local_template join_path_file in_domain_def)

text \<open>The environment variable that names the file of a role.\<close>

definition env_name :: "role \<Rightarrow> string" where
  "env_name r = (case r of RoleCRT \<Rightarrow> ''CERTFILE'' | RoleKEY \<Rightarrow> ''KEYFILE'' | RoleCHAIN \<Rightarrow> ''CHAINFILE''
     | RoleFULLCHAIN \<Rightarrow> ''FULLCHAINFILE'' | RoleBUNDLE \<Rightarrow> ''BUNDLEFILE'')"

lemma env_template:
  "TEMPLATES r = Some ts \<Longrightarrow> mustExpand (t_env ts) ctx = env_name r @ ''='' @ tc_local ctx"
  by (cases r) (auto simp: TEMPLATES_def mustExpand_def env_name_def)

lemma new_item_Inr:
  assumes "new_item ip6 version base pass compt role ts ctx = (Inr item, ctx')"
    and "TEMPLATES role = Some ts" and "base \<noteq> []" and "plain d" and "tc_domain ctx = d"
  shows "item_placed base d item \<and> ci_role item = role \<and> ci_data item = [] \<and> tc_domain ctx' = d \<and>
    ci_env item = env_name role @ ''='' @ ci_local item"
  using assms local_path [OF assms(3,4,2,5)] env_template [OF assms(2)]
  by (auto simp: new_item_def Let_def item_placed_def in_domain_def key_item_def split: sum.splits)

lemma newreq_loop_Inr:
  assumes "base \<noteq> []" and "plain d"
  shows "newreq_loop ip6 version base pass compt roles ctx req = Returned (Inr req') \<Longrightarrow> tc_domain ctx = d \<Longrightarrow>
    \<exists>its. req' = req\<lparr>req_items := req_items req @ its\<rparr> \<and> map ci_role its = roles \<and>
      list_all (item_placed base d) its \<and> list_all (\<lambda>i. ci_data i = []) its \<and>
      list_all (\<lambda>i. ci_env i = env_name (ci_role i) @ ''='' @ ci_local i) its"
proof (induction roles arbitrary: ctx req)
  case Nil
  then show ?case by auto
next
  case (Cons role roles)
  from Cons.prems obtain ts item ctx' where ts: "TEMPLATES role = Some ts"
    and item: "new_item ip6 version base pass compt role ts ctx = (Inr item, ctx')"
    and rest: "newreq_loop ip6 version base pass compt roles ctx'
      (req\<lparr>req_items := req_items req @ [item]\<rparr>) = Returned (Inr req')"
    by (auto split: option.splits prod.splits sum.splits)
  note placed = new_item_Inr [OF item ts assms Cons.prems(2)]
  obtain its where "req' = req\<lparr>req_items := req_items req @ [item] @ its\<rparr>" "map ci_role its = roles"
    "list_all (item_placed base d) its" "list_all (\<lambda>i. ci_data i = []) its"
    "list_all (\<lambda>i. ci_env i = env_name (ci_role i) @ ''='' @ ci_local i) its"
    using Cons.IH [OF rest] placed by auto
  with placed show ?case by (intro exI [of _ "item # its"]) simp
qed

lemma ROLES_distinct: "distinct (ROLES format)"
  by (simp add: ROLES_def)

lemma NewReq_Inr:
  assumes "NewReq ip6 version d remote base hook format pass compt = Returned (Inr req)" and "base \<noteq> []"
  shows "domain_name d \<and> items_placed base d (req_items req) \<and> map ci_role (req_items req) = ROLES format \<and>
    list_all (\<lambda>i. ci_data i = []) (req_items req) \<and> req_domain req = d \<and> req_hook req = hook"
proof -
  have d: "domain_name d" using assms(1) by (simp add: NewReq_def ValidateDomain_None [symmetric] split: option.splits)
  note loop = assms(1) [unfolded NewReq_def ValidateDomain_None [THEN iffD2, OF d] option.case]
  from newreq_loop_Inr [OF assms(2) domain_name_plain [OF d] loop] show ?thesis
    using d ROLES_distinct [of format] by (auto simp: items_placed_def)
qed

lemma NewReq_env:
  assumes "NewReq ip6 version d remote base hook format pass compt = Returned (Inr req)" and "base \<noteq> []"
  shows "list_all (\<lambda>i. ci_env i = env_name (ci_role i) @ ''='' @ ci_local i) (req_items req) \<and>
    req_env req = [''DOMAIN='' @ d]"
proof -
  have d: "domain_name d" using assms(1) by (simp add: NewReq_def ValidateDomain_None [symmetric] split: option.splits)
  note loop = assms(1) [unfolded NewReq_def ValidateDomain_None [THEN iffD2, OF d] option.case]
  from newreq_loop_Inr [OF assms(2) domain_name_plain [OF d] loop] show ?thesis by auto
qed

section \<open>Remote URLs\<close>

definition item_request :: "string \<Rightarrow> string \<Rightarrow> string \<Rightarrow> string \<Rightarrow> string \<Rightarrow> string \<Rightarrow> role \<Rightarrow> client_request" where
  "item_request version a b d pass compt r =
     (let q = \<lparr>cq_url = plain_url a (endpoint_path b r d), cq_headers = []\<rparr> in
      request_header_add ''X-Version'' version (if r = RoleBUNDLE then with_bundle_query pass compt q else q))"

lemma new_item_plain:
  assumes "plain_authority a" and "base_path b" and "domain_name d"
    and "TEMPLATES role = Some ts" and "tc_domain ctx = d" and "tc_proxy ctx = ''https://'' @ a @ b"
  shows "\<exists>item ctx'. new_item ip6 version base pass compt role ts ctx = (Inr item, ctx') \<and>
    ci_remote item = item_request version a b d pass compt role \<and>
    tc_domain ctx' = d \<and> tc_proxy ctx' = ''https://'' @ a @ b"
proof -
  let ?l = "path_join [base, mustExpand (t_local ts) ctx]"
  have "mustExpand (t_remote ts) (ctx\<lparr>tc_local := ?l\<rparr>) =
      (''https://'' @ a @ b) @ ''/v1/'' @ endpoint_of role @ CHR ''/'' # d"
    using remote_template [OF assms(4)] assms(5,6) by simp
  then have "new_request ip6 (mustExpand (t_remote ts) (ctx\<lparr>tc_local := ?l\<rparr>)) =
      Inr \<lparr>cq_url = plain_url a (endpoint_path b role d), cq_headers = []\<rparr>"
    using new_request_endpoint [OF assms(1-3), of ip6 role] no_empty_port [OF assms(1)]
    by (simp add: plain_url_def)
  then show ?thesis using assms(5,6) by (simp add: new_item_def Let_def item_request_def)
qed

lemma newreq_loop_plain:
  assumes "plain_authority a" and "base_path b" and "domain_name d"
  shows "tc_domain ctx = d \<Longrightarrow> tc_proxy ctx = ''https://'' @ a @ b \<Longrightarrow>
    \<exists>its. newreq_loop ip6 version base pass compt roles ctx req =
        Returned (Inr (req\<lparr>req_items := req_items req @ its\<rparr>)) \<and>
      map ci_remote its = map (item_request version a b d pass compt) roles"
proof (induction roles arbitrary: ctx req)
  case (Cons role roles)
  obtain ts where ts: "TEMPLATES role = Some ts" by (cases role) (simp_all add: TEMPLATES_def)
  obtain item ctx' where item: "new_item ip6 version base pass compt role ts ctx = (Inr item, ctx')"
      "ci_remote item = item_request version a b d pass compt role"
    and ctx': "tc_domain ctx' = d" "tc_proxy ctx' = ''https://'' @ a @ b"
    using new_item_plain [OF assms ts Cons.prems] by blast
  obtain its where "newreq_loop ip6 version base pass compt roles ctx' (req\<lparr>req_items := req_items req @ [item]\<rparr>) =
        Returned (Inr (req\<lparr>req_items := req_items req @ [item] @ its\<rparr>))"
      "map ci_remote its = map (item_request version a b d pass compt) roles"
    using Cons.IH [OF ctx', of "req\<lparr>req_items := req_items req @ [item]\<rparr>"] by auto
  with ts item show ?case by (intro exI [of _ "item # its"]) simp
qed auto

lemma NewReq_plain:
  assumes "plain_authority a" and "base_path b" and "domain_name d"
  shows "\<exists>req. NewReq ip6 version d (''https://'' @ a @ b) base hook format pass compt = Returned (Inr req) \<and>
    map ci_remote (req_items req) = map (item_request version a b d pass compt) (ROLES format)"
  using newreq_loop_plain [OF assms, of "\<lparr>tc_domain = d, tc_proxy = ''https://'' @ a @ b, tc_local = []\<rparr>"
      ip6 version base pass compt "ROLES format"
      "\<lparr>req_domain = d, req_items = [], req_hook = hook, req_env = [''DOMAIN='' @ d]\<rparr>"]
    ValidateDomain_None [THEN iffD2, OF assms(3)]
  by (auto simp: NewReq_def)

section \<open>The query of a bundle request\<close>

lemma plain_url_query: "url_query (plain_url a p) = []"
  by (simp add: url_query_def plain_url_def empty_url_def parse_query_def max_params_def parse_pair_def)

lemma length_values_pairs:
  "length (values_pairs v) = (\<Sum>k\<leftarrow>map fst v. length (case map_of v k of None \<Rightarrow> [] | Some xs \<Rightarrow> xs))"
proof -
  let ?g = "\<lambda>k. length (case map_of v k of None \<Rightarrow> [] | Some xs \<Rightarrow> xs)"
  have "length (values_pairs v) = sum_list (map ?g (sort (map fst v)))"
    by (simp add: values_pairs_def length_concat comp_def)
  also have "\<dots> = sum_mset (mset (map ?g (sort (map fst v))))" by (rule sum_mset_sum_list [symmetric])
  also have "mset (map ?g (sort (map fst v))) = mset (map ?g (map fst v))" by (simp only: mset_map mset_sort)
  also have "sum_mset (mset (map ?g (map fst v))) = sum_list (map ?g (map fst v))" by (rule sum_mset_sum_list)
  finally show ?thesis by simp
qed

lemma wf_bundle_query: "wf_values (bundle_query pass compt [])"
  by (simp add: bundle_query_def Let_def wf_values_set)

lemma short_bundle_query: "length (values_pairs (bundle_query pass compt [])) \<le> max_params"
  by (simp add: length_values_pairs bundle_query_def Let_def values_set_def max_params_def)

lemma bundle_values:
  "map_of (url_query (cq_url (with_bundle_query pass compt \<lparr>cq_url = plain_url a p, cq_headers = h\<rparr>))) =
     map_of (bundle_query pass compt [])"
  using parse_encode(2) [OF wf_bundle_query short_bundle_query, of pass compt]
  by (simp add: with_bundle_query_def Let_def plain_url_query url_query_def [of "_\<lparr>u_raw_query := _\<rparr>"])

lemma bundle_query_values:
  "map_of (bundle_query pass compt []) = [''format'' \<mapsto> [''PKCS12''], ''pass'' \<mapsto> [pass]] ++
     (if compt = [] then Map.empty else [''pkcs12-compat'' \<mapsto> [compt]])"
  by (auto simp: bundle_query_def Let_def map_of_values_set map_add_def fun_eq_iff)

text \<open>An encoded query is harmless text in a URL.\<close>

lemma component_text: "component_char c \<or> c = CHR ''&'' \<or> c = CHR ''='' \<Longrightarrow>
    c \<noteq> CHR ''#'' \<and> c \<noteq> CHR ''?'' \<and> \<not> is_ctl c"
  by (auto simp: component_char_def alnum_def is_lower_def is_upper_def is_digit_def is_ctl_def)

lemma encode_query_text: "query_text (values_encode v)"
proof -
  have pair: "set (encode_pair p) \<subseteq> {c. component_char c \<or> c = CHR ''=''}" for p
    using escape_chars [of "fst p"] escape_chars [of "snd p"]
    by (auto simp: encode_pair_def list_all_iff)
  have "c \<in> set (values_encode v) \<Longrightarrow> component_char c \<or> c = CHR ''&'' \<or> c = CHR ''=''" for c
    using set_join [of "''&''" "map encode_pair (values_pairs v)"] pair
    unfolding values_encode_def by fastforce
  then show ?thesis unfolding query_text_def list_all_iff using component_text by blast
qed

lemma bundle_query_pass_last:
  "values_encode (bundle_query pass compt []) =
     values_encode (values_set ''pass'' pass (bundle_query [] compt []))"
proof (rule values_encode_cong)
  show "wf_values (bundle_query pass compt [])" by (rule wf_bundle_query)
  show "wf_values (values_set ''pass'' pass (bundle_query [] compt []))"
    by (rule wf_values_set [OF wf_bundle_query])
  show "map_of (bundle_query pass compt []) = map_of (values_set ''pass'' pass (bundle_query [] compt []))"
    by (auto simp: bundle_query_def Let_def map_of_values_set)
qed

lemma bundle_url:
  "cq_url (with_bundle_query pass compt \<lparr>cq_url = plain_url a p, cq_headers = h\<rparr>) =
     (plain_url a p)\<lparr>u_raw_query := values_encode (values_set ''pass'' pass (bundle_query [] compt []))\<rparr>"
  by (simp add: with_bundle_query_def Let_def plain_url_query bundle_query_pass_last)

section \<open>Properties\<close>

text \<open>C30. A request that \<open>NewReq\<close> builds is one \<open>Execute\<close> can work with: its domain is valid, it has
  exactly one item per role of the format, in the order of the format, and every item goes to
  its own file directly in the domain's directory below the certificate store, the private key
  and the bundle being marked as private.\<close>

theorem requests_are_placed:
  assumes "NewReq ip6 version d remote base hook format pass compt = Returned (Inr req)" and "base \<noteq> []"
  shows "ValidateDomain d = None \<and> map ci_role (req_items req) = ROLES format \<and>
    items_placed base d (req_items req) \<and> req_domain req = d \<and> req_hook req = hook"
  using NewReq_Inr [OF assms] by (simp add: ValidateDomain_None)

definition built_req :: "string \<Rightarrow> (go_error + cert_req) outcome" where
  "built_req d = NewReq (\<lambda>_. False) ''v1'' d ''https://certs.example:4433'' ''/s'' [] FormatPEM [] []"

lemma built_req_ok: "case built_req ''a.example'' of Returned (Inr r) \<Rightarrow> True | _ \<Rightarrow> False"
  by code_simp

theorem requests_are_placed_witness:
  "\<exists>req. built_req ''a.example'' = Returned (Inr req) \<and> items_placed ''/s'' ''a.example'' (req_items req)"
proof -
  obtain req where r: "built_req ''a.example'' = Returned (Inr req)"
    using built_req_ok by (auto split: outcome.splits sum.splits)
  have "(''/s'' :: string) \<noteq> []" by simp
  from r requests_are_placed [OF r [unfolded built_req_def] this] show ?thesis by blast
qed


lemma plain_example: "plain_authority ''h'' \<and> plain_path ''/v1/bundle/a''"
proof -
  have "plain_authority ''h''"
    unfolding plain_authority_def
    by (rule exI [of _ "''h''"], rule exI [of _ "[]"]) (simp add: host_char_def domain_char_def is_lower_def)
  then show ?thesis
    by (simp add: plain_path_def url_char_def domain_char_def is_lower_def is_digit_def)
qed


end
