(* ===== verification/Atomic.thy ===== *)
theory Atomic
  imports ExecuteProps "HOL-Library.Multiset"
begin

text \<open>
  The store during and after a run of \<open>Execute\<close>: readers of the current names never see a
  missing or partial file, the new files are complete with their modes, and everything else is
  left alone.
\<close>

section \<open>Switching the items of a domain over\<close>

definition item_at :: "cert_item list \<Rightarrow> string \<Rightarrow> cert_item" where
  "item_at its n = the (find (\<lambda>i. ci_local i = n) its)"

lemma written_subset: "set (written its) \<subseteq> set its"
  by (auto simp: written_def)

lemma written_placed: "items_placed base d its \<Longrightarrow> items_placed base d (written its)"
  by (auto simp: items_placed_def written_def list_all_iff distinct_map intro: inj_on_subset)

lemma distinct_locals:
  "plain d \<Longrightarrow> items_placed base d its \<Longrightarrow> distinct (map ci_local its)"
proof -
  assume d: "plain d" and p: "items_placed base d its"
  have "inj_on ci_local (set its)"
  proof (rule inj_onI)
    fix i j assume ij: "i \<in> set its" "j \<in> set its" "ci_local i = ci_local j"
    then have "ci_role i = ci_role j"
      using p placed_locals [OF d, of base i j] by (simp add: items_placed_def list_all_iff)
    then show "i = j" using p ij by (auto simp: items_placed_def distinct_map inj_on_def)
  qed
  then show ?thesis using p by (auto simp: items_placed_def distinct_map)
qed

lemma item_at_local:
  assumes "plain d" "items_placed base d its" "i \<in> set its"
  shows "item_at its (ci_local i) = i"
proof -
  have "find (\<lambda>j. ci_local j = ci_local i) xs = Some i" if "i \<in> set xs" "distinct (map ci_local xs)" for xs
    using that by (induction xs) (force split: if_splits)+
  then show ?thesis using distinct_locals [OF assms(1,2)] assms(3) by (simp add: item_at_def)
qed

lemma infixed_of_table:
  assumes "plain d" "items_placed base d its" "i \<in> set (written its)"
  shows "infixed_of (table_of s base d its) (ci_local i) = dated_name s base d i"
proof -
  have "distinct (map fst (table_of s base d its))"
    using distinct_locals [OF assms(1) written_placed [OF assms(2)]] by (simp add: table_of_def comp_def)
  then have "map_of (table_of s base d its) (ci_local i) = Some (dated_name s base d i)"
    using assms(3) by (intro map_of_is_SomeI) (auto simp: table_of_def)
  then show ?thesis by (simp add: infixed_of_def)
qed

lemma dated_link:
  assumes "plain d" "stamp_ok s" "item_placed base d i"
  shows "link_target (ci_local i) (path_base (dated_name s base d i)) = dated_name s base d i"
  using assms dated_plain base_of_file [OF assms(1) dated_plain [OF assms(2)], of base "ci_role i"]
    link_to_sibling [OF assms(1) current_plain dated_plain [OF assms(2)], of base "ci_role i" "ci_role i"]
  by (simp add: item_placed_def dated_name_def in_domain_def)

lemma names_apart:
  assumes "plain d" "stamp_ok s" "item_placed base d i" "item_placed base d j"
  shows "dated_name s base d i \<noteq> ci_local j" "dated_name s base d i \<noteq> tmp_name (ci_local j)"
    "tmp_name (ci_local i) \<noteq> ci_local j"
proof -
  have l: "ci_local k = in_domain base d (current_file (ci_role k))" if "item_placed base d k" for k
    using that by (simp add: item_placed_def in_domain_def)
  show "dated_name s base d i \<noteq> ci_local j" "dated_name s base d i \<noteq> tmp_name (ci_local j)"
    "tmp_name (ci_local i) \<noteq> ci_local j"
    using assms(1,3,4) dated_plain [OF assms(2)] tmp_plain files_differ
    by (simp_all add: l in_domain_tmp dated_name_def in_domain_inj)
qed

text \<open>What readers of the current names see between the first and the last switch.\<close>

definition switched :: "bool \<Rightarrow> string \<Rightarrow> string \<Rightarrow> string \<Rightarrow> cert_item list \<Rightarrow> tree \<Rightarrow> tree \<Rightarrow> bool" where
  "switched symlinks s base d its t0 t \<longleftrightarrow>
     (\<forall>i\<in>set its. map_of t (ci_local i) = map_of t0 (ci_local i) \<or>
        shows_file t (ci_local i) (dated_name s base d i) (file_mode (ci_private i)) (ci_data i)) \<and>
     (\<forall>q. (\<forall>i\<in>set its. q \<noteq> ci_local i \<and> q \<noteq> tmp_name (ci_local i) \<and>
        (symlinks \<or> q \<noteq> dated_name s base d i)) \<longrightarrow> map_of t q = map_of t0 q)"

lemma link_items_effect:
  assumes d: "plain d" "stamp_ok s" and pl: "items_placed base d its"
    and st: "\<forall>i\<in>set (written its). stored s base d i (fs_tree f)"
    and names: "mset names = mset (map ci_local (written its))"
    and run: "link_items (publish_name symlinks) (table_of s base d its) names f = (r, g)"
  shows "evolves (switched symlinks s base d (written its) (fs_tree f)) f g \<and>
    (r = None \<longrightarrow> (\<forall>i\<in>set (written its).
       shows_file (fs_tree g) (ci_local i) (dated_name s base d i) (file_mode (ci_private i)) (ci_data i)))"
proof -
  let ?W = "written its" and ?inx = "table_of s base d its"
  let ?m = "\<lambda>n. file_mode (ci_private (item_at ?W n))" and ?x = "\<lambda>n. ci_data (item_at ?W n)"
  have plW: "items_placed base d ?W" by (rule written_placed [OF pl])
  have set_names: "set names = ci_local ` set ?W" using mset_eq_setD [OF names] by simp
  have inx: "infixed_of ?inx (ci_local i) = dated_name s base d i" if "i \<in> set ?W" for i
    by (rule infixed_of_table [OF d(1) pl that])
  have at: "item_at ?W (ci_local i) = i" if "i \<in> set ?W" for i
    by (rule item_at_local [OF d(1) plW that])
  have placed: "item_placed base d i" if "i \<in> set ?W" for i
    using plW that by (simp add: items_placed_def list_all_iff)
  have dist: "distinct names"
    using distinct_locals [OF d(1) plW] names by (metis mset_eq_imp_distinct_iff)
  have ap: "by_symlink.apart names (infixed_of ?inx)"
    unfolding by_symlink.apart_def set_names
    using dist dated_link [OF d placed] names_apart [OF d placed placed]
    by (auto simp: inx dated_name_inj [OF d] placed_locals [OF d(1) placed placed])
  have files: "\<forall>n\<in>set names. \<exists>t. map_of (fs_tree f) (infixed_of ?inx n) = Some (RegFile (?m n) t (?x n))"
    unfolding set_names using st by (auto simp: inx at stored_def)
  have ok: "\<forall>n\<in>set names. infixed_of ?inx n = infixed_of ?inx n" by simp
  show ?thesis
  proof (cases symlinks)
    case True
    have run': "link_items (publish_name True) ?inx names f = (r, g)" using run True by simp
    have "switched symlinks s base d ?W (fs_tree f) t"
      if "by_symlink.halfway names (infixed_of ?inx) ?m ?x (fs_tree f) t" for t
      using that True unfolding by_symlink.halfway_def set_names switched_def by (auto simp: inx at)
    then show ?thesis
      using by_symlink.link_items_steps [OF ap ok files run'] unfolding set_names
      by (auto simp: inx at intro: evolves_mono)
  next
    case False
    have run': "link_items (publish_name False) ?inx names f = (r, g)" using run False by simp
    have "switched symlinks s base d ?W (fs_tree f) t"
      if "by_rename.halfway names (infixed_of ?inx) ?m ?x (fs_tree f) t" for t
      using that False unfolding by_rename.halfway_def set_names switched_def by (auto simp: inx at)
    then show ?thesis
      using by_rename.link_items_steps [OF ap ok files run'] unfolding set_names
      by (auto simp: inx at intro: evolves_mono)
  qed
qed

section \<open>The whole run\<close>

text \<open>A run on items placed below \<open>base\<close>: the dated names are unused, the order of the map is
  a permutation, and the hook leaves the file system alone.\<close>

definition stamp_of :: "exec_env \<Rightarrow> string" where
  "stamp_of env = format_int (ex_write_time env)"

definition fresh_stamp :: "exec_env \<Rightarrow> string \<Rightarrow> string \<Rightarrow> cert_item list \<Rightarrow> tree \<Rightarrow> bool" where
  "fresh_stamp env base d its t \<longleftrightarrow> list_all (\<lambda>i. map_of t (dated_name (stamp_of env) base d i) = None) its"

definition orderly :: "exec_env \<Rightarrow> bool" where
  "orderly env \<longleftrightarrow> (\<forall>xs. mset (ex_order env xs) = mset xs) \<and> (\<forall>c f. snd (ex_run env c f) = f)"

definition stored_all :: "exec_env \<Rightarrow> string \<Rightarrow> string \<Rightarrow> cert_item list \<Rightarrow> tree \<Rightarrow> tree \<Rightarrow> bool" where
  "stored_all env base d its t0 t \<longleftrightarrow> adds_dated (stamp_of env) base d its t0 t \<and>
     (\<forall>i\<in>set (written its). stored (stamp_of env) base d i t)"

text \<open>The trees of a run, written and switched.\<close>

definition run_tree :: "exec_env \<Rightarrow> string \<Rightarrow> string \<Rightarrow> cert_item list \<Rightarrow> tree \<Rightarrow> tree \<Rightarrow> bool" where
  "run_tree env base d its t0 t \<longleftrightarrow> adds_dated (stamp_of env) base d its t0 t \<or>
     (\<exists>t1. stored_all env base d its t0 t1 \<and>
        switched (ex_use_symlink env) (stamp_of env) base d (written its) t1 t)"

definition all_shown :: "exec_env \<Rightarrow> string \<Rightarrow> string \<Rightarrow> cert_item list \<Rightarrow> tree \<Rightarrow> bool" where
  "all_shown env base d its t \<longleftrightarrow> (\<forall>i\<in>set (written its).
     shows_file t (ci_local i) (dated_name (stamp_of env) base d i) (file_mode (ci_private i)) (ci_data i))"

lemma fresh_stamp_same:
  "list_all2 same_item its its' \<Longrightarrow> fresh_stamp env base d its t = fresh_stamp env base d its' t"
  by (induction rule: list_all2_induct) (auto simp: fresh_stamp_def same_item_def dated_name_def)

lemma run_hook_fs: "orderly env \<Longrightarrow> w_fs (snd (run_hook env req its w)) = w_fs w"
  by (auto simp: run_hook_def on_fs_def orderly_def split: prod.splits) (metis snd_conv)

lemma execute_run:
  assumes d: "plain d" and pl: "items_placed base d (req_items req)" and o: "orderly env"
    and fresh: "fresh_stamp env base d (req_items req) (fs_tree (w_fs w))"
    and fetch: "fetch_items env (req_items req) w = (Inr its, w1)"
    and run: "Execute env req w = (res, w')"
  shows "evolves (run_tree env base d its (fs_tree (w_fs w))) (w_fs w) (w_fs w') \<and>
    (res = Returned None \<longrightarrow> all_shown env base d its (fs_tree (w_fs w')) \<and>
       (\<exists>t1. stored_all env base d its (fs_tree (w_fs w)) t1 \<and>
         switched (ex_use_symlink env) (stamp_of env) base d (written its) t1 (fs_tree (w_fs w'))))"
proof -
  let ?s = "stamp_of env" and ?t0 = "fs_tree (w_fs w)"
  have s: "stamp_ok ?s" unfolding stamp_of_def by (rule format_int_stamp)
  have w1: "w_fs w1 = w_fs w" and same: "list_all2 same_item (req_items req) its"
    using fetch_items_effect [OF fetch] by simp_all
  have plI: "items_placed base d its" by (rule placed_same [OF pl same])
  have new: "\<forall>i\<in>set its. map_of (fs_tree (w_fs w1)) (dated_name ?s base d i) = None"
    using fresh fresh_stamp_same [OF same, of env base d ?t0] w1 by (simp add: fresh_stamp_def list_all_iff)
  obtain r2 w2 where wr: "write_items ?s its [] w1 = (r2, w2)" by fastforce
  have P: "evolves (adds_dated ?s base d its ?t0) (w_fs w) (w_fs w2) \<and>
    (case r2 of Panicked m \<Rightarrow> False | Returned (Inl e) \<Rightarrow> True
     | Returned (Inr inx') \<Rightarrow> inx' = [] @ table_of ?s base d its \<and>
         (\<forall>i\<in>set (written its). stored ?s base d i (fs_tree (w_fs w2))))"
    using write_items_effect [OF d s _ _ new _ wr] plI w1 by (simp add: items_placed_def)
  then have E2: "evolves (run_tree env base d its ?t0) (w_fs w) (w_fs w2)"
    by (elim conjE evolves_mono) (simp add: run_tree_def)
  show ?thesis
  proof (cases "\<exists>e. r2 = Returned (Inl e)")
    case True
    then show ?thesis using run fetch wr E2 by (auto simp: Execute_def stamp_of_def)
  next
    case False
    then have r2: "r2 = Returned (Inr (table_of ?s base d its))"
      and st: "\<forall>i\<in>set (written its). stored ?s base d i (fs_tree (w_fs w2))"
      using P by (auto split: outcome.splits sum.splits)
    have base2: "adds_dated ?s base d its ?t0 ?t0"
      using new w1 by (auto simp: adds_dated_def under_way_def)
    have all: "stored_all env base d its ?t0 (fs_tree (w_fs w2))"
      using st evolves_end [of "adds_dated ?s base d its ?t0", OF _ base2] P by (auto simp: stored_all_def)
    define names where "names = ex_order env (map fst (table_of ?s base d its))"
    have names: "mset names = mset (map ci_local (written its))"
      using o by (simp add: names_def orderly_def table_of_def comp_def)
    obtain r3 w3 where li: "on_fs (link_items (publish_name (ex_use_symlink env)) (table_of ?s base d its) names) w2 = (r3, w3)"
      by fastforce
    have L: "evolves (switched (ex_use_symlink env) ?s base d (written its) (fs_tree (w_fs w2))) (w_fs w2) (w_fs w3) \<and>
      (r3 = None \<longrightarrow> all_shown env base d its (fs_tree (w_fs w3)))"
      unfolding all_shown_def by (rule link_items_effect [OF d s plI st names on_fsE [OF li]])
    then have E3: "evolves (run_tree env base d its ?t0) (w_fs w2) (w_fs w3)"
      using all by (elim conjE evolves_mono) (auto simp: run_tree_def)
    have sw: "switched (ex_use_symlink env) ?s base d (written its) (fs_tree (w_fs w2)) (fs_tree (w_fs w3))"
      using L by (elim conjE evolves_end) (simp add: switched_def)
    have E: "evolves (run_tree env base d its ?t0) (w_fs w) (w_fs w3)" by (rule evolves_trans [OF E2 E3])
    show ?thesis
    proof (cases r3)
      case (Some e)
      then have "res = Returned (Some e)" "w' = w3"
        using run fetch wr r2 li by (simp_all add: Execute_def stamp_of_def names_def)
      then show ?thesis using E by simp
    next
      case None
      then have "w' = snd (run_hook env req its w3)"
        using run fetch wr r2 li by (auto simp: Execute_def stamp_of_def names_def split: prod.splits)
      then have "w_fs w' = w_fs w3" using run_hook_fs [OF o] by simp
      then show ?thesis using E L sw all None by auto
    qed
  qed
qed

section \<open>What readers see\<close>

text \<open>A store this program left behind: a current name that is a link leads to a regular file
  which is not itself a current or a temporary name.\<close>

definition settled :: "cert_item list \<Rightarrow> tree \<Rightarrow> bool" where
  "settled its t \<longleftrightarrow> list_all (\<lambda>i. case map_of t (ci_local i) of
     Some (Symlink l) \<Rightarrow> is_reg (map_of t (link_target (ci_local i) l)) \<and>
       list_all (\<lambda>j. link_target (ci_local i) l \<noteq> ci_local j \<and>
         link_target (ci_local i) l \<noteq> tmp_name (ci_local j)) its
   | _ \<Rightarrow> True) its"

lemma settled_iff: "settled its t \<longleftrightarrow> (\<forall>i\<in>set its. \<forall>l. map_of t (ci_local i) = Some (Symlink l) \<longrightarrow>
     is_reg (map_of t (link_target (ci_local i) l)) \<and>
     (\<forall>j\<in>set its. link_target (ci_local i) l \<noteq> ci_local j \<and>
        link_target (ci_local i) l \<noteq> tmp_name (ci_local j)))"
  by (auto simp: settled_def list_all_iff split: option.splits inode.splits)

lemma is_regE: "is_reg x \<Longrightarrow> \<exists>m s d. x = Some (RegFile m s d)"
  by (cases x rule: is_reg.cases) auto

lemma read_name_same:
  assumes "map_of t p = map_of t0 p"
    and "\<And>l. map_of t0 p = Some (Symlink l) \<Longrightarrow> is_reg (map_of t0 (link_target p l)) \<and>
      map_of t (link_target p l) = map_of t0 (link_target p l)"
  shows "read_name t p = read_name t0 p"
proof (cases "map_of t0 p")
  case None
  then show ?thesis using assms(1)
    by (simp add: read_name_def lookup_follow_def lookup_def follow_missing)
next
  case (Some n)
  show ?thesis
  proof (cases n)
    case (Symlink l)
    then obtain m s d where "map_of t0 (link_target p l) = Some (RegFile m s d)"
      "map_of t (link_target p l) = Some (RegFile m s d)"
      using assms(2) [of l] is_regE [of "map_of t0 (link_target p l)"] Some by auto
    then show ?thesis using assms(1) Some Symlink by (simp add: read_name_link)
  qed (use assms(1) Some in \<open>simp_all add: read_name_def lookup_follow_def lookup_def follow_direct\<close>)
qed

definition old_or_new :: "cert_item list \<Rightarrow> tree \<Rightarrow> tree \<Rightarrow> bool" where
  "old_or_new its t0 t \<longleftrightarrow> list_all (\<lambda>i. read_name t (ci_local i) = read_name t0 (ci_local i) \<or>
     ci_data i \<noteq> [] \<and> read_name t (ci_local i) = Some (file_mode (ci_private i), ci_data i)) its"

lemma local_not_dir:
  assumes "plain d" "item_placed base d i"
  shows "ci_local i \<noteq> path_below base [d]"
proof
  assume "ci_local i = path_below base [d]"
  then have "path_elems base @ [d, current_file (ci_role i)] = path_elems base @ [d]"
    using assms elems_path_below(1) [of "[d, current_file (ci_role i)]" base]
      elems_path_below(1) [of "[d]" base] by (simp add: item_placed_def)
  then show False by simp
qed

lemma added_same:
  assumes "adds_dated s base d its t0 t" and fresh: "list_all (\<lambda>i. map_of t0 (dated_name s base d i) = None) its"
    and "map_of t0 q \<noteq> None"
  shows "map_of t q = map_of t0 q"
proof -
  have "q \<notin> dated_name s base d ` set its" using fresh assms(3) by (auto simp: list_all_iff)
  then show ?thesis using assms(1,3) by (auto simp: adds_dated_def)
qed

text \<open>Current names while files are added.\<close>

lemma added_local:
  assumes "adds_dated s base d its t0 t" "plain d" "stamp_ok s" "list_all (item_placed base d) its" "i \<in> set its"
  shows "map_of t (ci_local i) = map_of t0 (ci_local i)"
proof -
  have "item_placed base d i" using assms(4,5) by (simp add: list_all_iff)
  moreover have "ci_local i \<notin> dated_name s base d ` set its"
    using names_apart(1) [OF assms(2,3) _ calculation] assms(4) by (fastforce simp: list_all_iff)
  ultimately show ?thesis using assms(1) local_not_dir [OF assms(2)] by (auto simp: adds_dated_def)
qed

lemma run_tree_reads:
  assumes d: "plain d" and pl: "items_placed base d its" and settled: "settled its t0"
    and fresh: "list_all (\<lambda>i. map_of t0 (dated_name (stamp_of env) base d i) = None) its"
    and t: "run_tree env base d its t0 t"
  shows "old_or_new its t0 t"
  unfolding old_or_new_def list_all_iff
proof
  fix i assume i: "i \<in> set its"
  let ?s = "stamp_of env"
  have s: "stamp_ok ?s" unfolding stamp_of_def by (rule format_int_stamp)
  have plA: "list_all (item_placed base d) its" using pl by (simp add: items_placed_def)
  have placed: "item_placed base d j" if "j \<in> set its" for j using plA that by (simp add: list_all_iff)
  have old: "is_reg (map_of t0 (link_target (ci_local i) l))"
    "j \<in> set its \<Longrightarrow> link_target (ci_local i) l \<noteq> ci_local j \<and> link_target (ci_local i) l \<noteq> tmp_name (ci_local j)"
    if "map_of t0 (ci_local i) = Some (Symlink l)" for l j
    using settled i that unfolding settled_iff by blast+
  have some: "is_reg x \<Longrightarrow> x \<noteq> None" for x by (cases x rule: is_reg.cases) auto
  show "read_name t (ci_local i) = read_name t0 (ci_local i) \<or>
      ci_data i \<noteq> [] \<and> read_name t (ci_local i) = Some (file_mode (ci_private i), ci_data i)"
    using t unfolding run_tree_def
  proof (elim disjE exE conjE)
    assume a: "adds_dated ?s base d its t0 t"
    have "read_name t (ci_local i) = read_name t0 (ci_local i)"
      using old(1) some added_same [OF a fresh] added_local [OF a d s plA i] by (intro read_name_same) auto
    then show ?thesis by simp
  next
    fix t1 assume st: "stored_all env base d its t0 t1"
      and sw: "switched (ex_use_symlink env) ?s base d (written its) t1 t"
    have a: "adds_dated ?s base d its t0 t1" using st by (simp add: stored_all_def)
    show ?thesis
    proof (cases "map_of t (ci_local i) = map_of t1 (ci_local i)")
      case True
      have "map_of t (link_target (ci_local i) l) = map_of t0 (link_target (ci_local i) l)"
        if l: "map_of t0 (ci_local i) = Some (Symlink l)" for l
      proof -
        let ?b = "link_target (ci_local i) l"
        have b: "map_of t0 ?b \<noteq> None" using old(1) [OF l] some by simp
        have "?b \<noteq> ci_local j \<and> ?b \<noteq> tmp_name (ci_local j) \<and> ?b \<noteq> dated_name ?s base d j"
          if "j \<in> set (written its)" for j
        proof -
          have j: "j \<in> set its" using that written_subset by blast
          then have "map_of t0 (dated_name ?s base d j) = None" using fresh by (simp add: list_all_iff)
          then show ?thesis using old(2) [OF l j] b by auto
        qed
        then have "map_of t ?b = map_of t1 ?b" using sw by (auto simp: switched_def)
        then show ?thesis using added_same [OF a fresh b] by simp
      qed
      then have "read_name t (ci_local i) = read_name t0 (ci_local i)"
        using True old(1) added_local [OF a d s plA i] by (intro read_name_same) auto
      then show ?thesis by simp
    next
      case False
      have "i \<in> set (written its)"
      proof (rule ccontr)
        assume no: "i \<notin> set (written its)"
        have "ci_local i \<noteq> ci_local j \<and> ci_local i \<noteq> tmp_name (ci_local j) \<and> ci_local i \<noteq> dated_name ?s base d j"
          if "j \<in> set (written its)" for j
        proof -
          have j: "j \<in> set its" "j \<noteq> i" using that no written_subset by blast+
          then have "ci_local i \<noteq> ci_local j"
            using i item_at_local [OF d pl i] item_at_local [OF d pl j(1)] by metis
          then show ?thesis using names_apart [OF d s placed [OF j(1)] placed [OF i]]
            by metis
        qed
        then show False using sw False by (auto simp: switched_def)
      qed
      then have "shows_file t (ci_local i) (dated_name ?s base d i) (file_mode (ci_private i)) (ci_data i)" "ci_data i \<noteq> []"
        using sw False by (auto simp: switched_def written_def)
      then show ?thesis using shows_file_read by blast
    qed
  qed
qed

lemma settled_same: "list_all2 same_item its its' \<Longrightarrow> settled its t = settled its' t"
proof -
  assume "list_all2 same_item its its'"
  then have "ci_local ` set its = ci_local ` set its'"
    by (induction rule: list_all2_induct) (auto simp: same_item_def)
  moreover have "settled xs t \<longleftrightarrow> (\<forall>n\<in>ci_local ` set xs. \<forall>l. map_of t n = Some (Symlink l) \<longrightarrow>
     is_reg (map_of t (link_target n l)) \<and>
     (\<forall>k\<in>ci_local ` set xs. link_target n l \<noteq> k \<and> link_target n l \<noteq> tmp_name k))" for xs
    by (simp add: settled_iff)
  ultimately show ?thesis by metis
qed

lemma example_orderly: "orderly example_exec"
  by (simp add: orderly_def example_exec_def)

lemma example_hyps:
  "plain ''example.org''" "items_placed ''/s'' ''example.org'' (req_items (example_req ''example.org''))"
  "fresh_stamp example_exec ''/s'' ''example.org'' (req_items (example_req ''example.org'')) (fs_tree (w_fs example_world))"
  "settled (req_items (example_req ''example.org'')) (fs_tree (w_fs example_world))"
  "ex_use_symlink example_exec"
  by code_simp+

definition example_items :: "cert_item list" where
  "example_items = (case fst (fetch_items example_exec (req_items (example_req ''example.org'')) example_world) of
     Inl e \<Rightarrow> [] | Inr its \<Rightarrow> its)"

lemma example_fetch:
  "\<exists>w1. fetch_items example_exec (req_items (example_req ''example.org'')) example_world = (Inr example_items, w1)"
proof -
  have "case fst (fetch_items example_exec (req_items (example_req ''example.org'')) example_world) of
     Inl e \<Rightarrow> False | Inr its \<Rightarrow> True" by code_simp
  then show ?thesis unfolding example_items_def
    by (cases "fetch_items example_exec (req_items (example_req ''example.org'')) example_world") (auto split: sum.splits)
qed

lemma example_execute:
  "\<exists>w'. Execute example_exec (example_req ''example.org'') example_world = (Returned None, w')"
proof -
  have "fst (Execute example_exec (example_req ''example.org'') example_world) = Returned None" by code_simp
  then show ?thesis by (metis prod.collapse)
qed

text \<open>Readers never see a broken file: while \<open>Execute\<close> runs, and at the end, whether it succeeds
  or fails, every current name reads as before the run or as the complete new file with its
  final mode.  There is no moment with a missing or partial file.\<close>

theorem readers_see_old_or_new:
  assumes "plain d" and "items_placed base d (req_items req)" and "orderly env"
    and "fresh_stamp env base d (req_items req) (fs_tree (w_fs w))"
    and "settled (req_items req) (fs_tree (w_fs w))"
    and "fetch_items env (req_items req) w = (Inr its, w1)"
    and "Execute env req w = (res, w')"
  shows "evolves (old_or_new its (fs_tree (w_fs w))) (w_fs w) (w_fs w')"
proof -
  have same: "list_all2 same_item (req_items req) its" using fetch_items_effect [OF assms(6)] by simp
  have pl: "items_placed base d its" by (rule placed_same [OF assms(2) same])
  have fresh: "list_all (\<lambda>i. map_of (fs_tree (w_fs w)) (dated_name (stamp_of env) base d i) = None) its"
    using assms(4) fresh_stamp_same [OF same] by (simp add: fresh_stamp_def)
  have "settled its (fs_tree (w_fs w))"
    using assms(5) same by (simp add: settled_same)
  then show ?thesis
    using execute_run [OF assms(1-4,6,7)] run_tree_reads [OF assms(1) pl _ fresh]
    by (blast intro: evolves_mono)
qed

theorem readers_see_old_or_new_witness:
  "\<exists>w'. Execute example_exec (example_req ''example.org'') example_world = (Returned None, w') \<and>
     evolves (old_or_new example_items (fs_tree (w_fs example_world))) (w_fs example_world) (w_fs w')"
proof -
  obtain w1 w' where f: "fetch_items example_exec (req_items (example_req ''example.org'')) example_world = (Inr example_items, w1)"
    and x: "Execute example_exec (example_req ''example.org'') example_world = (Returned None, w')"
    using example_fetch example_execute by blast
  show ?thesis
    using readers_see_old_or_new [OF example_hyps(1,2) example_orderly example_hyps(3,4) f x] x by blast
qed

text \<open>What the names show after a successful run.\<close>

lemma run_installs:
  assumes "plain d" and "items_placed base d (req_items req)" and "orderly env"
    and "fresh_stamp env base d (req_items req) (fs_tree (w_fs w))"
    and "settled (req_items req) (fs_tree (w_fs w))"
    and "fetch_items env (req_items req) w = (Inr its, w1)"
    and "Execute env req w = (Returned None, w')"
  shows "list_all (\<lambda>i. read_name (fs_tree (w_fs w')) (ci_local i) =
    (if ci_data i = [] then read_name (fs_tree (w_fs w)) (ci_local i)
     else Some (if ci_private i then 384 else 420, ci_data i))) its"
proof -
  let ?t0 = "fs_tree (w_fs w)" and ?now = "fs_tree (w_fs w')"
  have same: "list_all2 same_item (req_items req) its" using fetch_items_effect [OF assms(6)] by simp
  have pl: "items_placed base d its" by (rule placed_same [OF assms(2) same])
  have fresh: "list_all (\<lambda>i. map_of ?t0 (dated_name (stamp_of env) base d i) = None) its"
    using assms(4) fresh_stamp_same [OF same] by (simp add: fresh_stamp_def)
  have settled: "settled its ?t0" using assms(5) by (simp add: settled_same [OF same])
  have shown: "all_shown env base d its ?now" and "run_tree env base d its ?t0 ?now"
    using execute_run [OF assms(1-4,6,7)] by (auto simp: run_tree_def)
  then have on: "old_or_new its ?t0 ?now" by (intro run_tree_reads [OF assms(1) pl settled fresh])
  have "read_name ?now (ci_local i) = (if ci_data i = [] then read_name ?t0 (ci_local i)
     else Some (file_mode (ci_private i), ci_data i))" if i: "i \<in> set its" for i
  proof (cases "ci_data i = []")
    case True
    then show ?thesis using on i by (auto simp: old_or_new_def list_all_iff)
  next
    case False
    then have "i \<in> set (written its)" using i by (simp add: written_def)
    then show ?thesis using shown shows_file_read False unfolding all_shown_def by fastforce
  qed
  then show ?thesis by (simp add: list_all_iff file_mode_def)
qed

text \<open>After a successful run every fetched file is what its current name shows, with mode 0600
  for key material and 0644 otherwise, whatever the umask was, and every file the server
  reported as not modified reads as before.\<close>

theorem successful_run_installs:
  assumes "plain d" and "items_placed base d (req_items req)" and "orderly env"
    and "fresh_stamp env base d (req_items req) (fs_tree (w_fs w))"
    and "settled (req_items req) (fs_tree (w_fs w))"
    and "fetch_items env (req_items req) w = (Inr its, w1)"
    and "Execute env req w = (Returned None, w')"
  shows "list_all (\<lambda>i. read_name (fs_tree (w_fs w')) (ci_local i) =
    (if ci_data i = [] then read_name (fs_tree (w_fs w)) (ci_local i)
     else Some (if ci_private i then 384 else 420, ci_data i))) its"
  by (rule run_installs [OF assms])

theorem successful_run_installs_witness:
  "\<exists>w'. Execute example_exec (example_req ''example.org'') example_world = (Returned None, w') \<and>
     read_name (fs_tree (w_fs w')) ''/s/example.org/privkey.pem'' = Some (384, ''new key'') \<and>
     read_name (fs_tree (w_fs w')) ''/s/example.org/chain.pem'' = Some (420, ''chain'')"
proof -
  obtain w1 w' where f: "fetch_items example_exec (req_items (example_req ''example.org'')) example_world = (Inr example_items, w1)"
    and x: "Execute example_exec (example_req ''example.org'') example_world = (Returned None, w')"
    using example_fetch example_execute by blast
  have i: "map (\<lambda>i. (ci_local i, ci_data i, ci_private i)) example_items =
    [(''/s/example.org/cert.pem'', ''new cert'', False), (''/s/example.org/privkey.pem'', ''new key'', True),
     (''/s/example.org/chain.pem'', [], False), (''/s/example.org/fullchain.pem'', [], False)]" by code_simp
  obtain a b c z where e: "example_items = [a, b, c, z]"
    and "ci_local b = ''/s/example.org/privkey.pem''" "ci_data b = ''new key''" "ci_private b"
    and "ci_local c = ''/s/example.org/chain.pem''" "ci_data c = []"
    using i by (auto simp: Cons_eq_map_conv)
  moreover have "read_name (fs_tree (w_fs example_world)) ''/s/example.org/chain.pem'' = Some (420, ''chain'')" by code_simp
  ultimately show ?thesis
    using successful_run_installs [OF example_hyps(1,2) example_orderly example_hyps(3,4) f x] x
    unfolding e by simp
qed



end
