(* ===== verification/Hook.thy ===== *)
theory Hook
  imports Requests Atomic
begin

text \<open>
  The hook of a request: the command \<open>Execute\<close> runs after the files are installed, with the
  arguments and the environment cert-proxy-client(8) documents.
\<close>

section \<open>Arguments\<close>

lemma list_all2_map_eq: "list_all2 P xs ys \<Longrightarrow> (\<And>x y. P x y \<Longrightarrow> f x = g y) \<Longrightarrow> map f xs = map g ys"
  by (induction rule: list_all2_induct) auto

lemma placed_file: "item_placed base d i \<Longrightarrow> ci_local i = in_domain base d (current_file (ci_role i))"
  by (simp add: item_placed_def in_domain_def)

lemma hook_args_PEM:
  assumes "map ci_role its = [RoleCRT, RoleKEY, RoleCHAIN, RoleFULLCHAIN]"
    and "list_all (item_placed base d) its"
  shows "hook_args req its ts = [req_hook req, ''deploy_cert'', req_domain req] @
    map (\<lambda>r. in_domain base d (current_file r)) [RoleKEY, RoleCRT, RoleFULLCHAIN, RoleCHAIN] @ [ts]"
proof -
  obtain c k h f where "its = [c, k, h, f]" using assms(1) by (auto simp: map_eq_Cons_conv)
  then show ?thesis using assms placed_file [of base d c] placed_file [of base d k]
      placed_file [of base d h] placed_file [of base d f]
    by (simp add: hook_args_def)
qed

lemma hook_args_PKCS12:
  assumes "map ci_role its = [RoleBUNDLE]" and "list_all (item_placed base d) its"
  shows "hook_args req its ts = [req_hook req, ''deploy_cert'', req_domain req,
    in_domain base d (current_file RoleBUNDLE), ts]"
  using assms by (auto simp: hook_args_def placed_file map_eq_Cons_conv)

lemma hook_env:
  assumes "list_all (item_placed base d) its"
    and "list_all (\<lambda>i. ci_env i = env_name (ci_role i) @ ''='' @ ci_local i) its"
  shows "map ci_env its = map (\<lambda>r. env_name r @ ''='' @ in_domain base d (current_file r)) (map ci_role its)"
  using assms by (induction its) (simp_all add: placed_file)

section \<open>The run\<close>

lemma successful_hook:
  assumes "Execute env req w = (Returned None, w')" and "orderly env" and "req_hook req \<noteq> []"
  shows "\<exists>its w1. fetch_items env (req_items req) w = (Inr its, w1) \<and>
    ex_run env (hook_command env req its) (w_fs w') = (None, w_fs w')"
proof -
  obtain its w1 w2 inx w3 where f: "fetch_items env (req_items req) w = (Inr its, w1)"
    and hook: "run_hook env req its w3 = (None, w')"
    using assms(1) by (auto simp: Execute_def split: prod.splits sum.splits outcome.splits option.splits)
  then have "ex_run env (hook_command env req its) (w_fs w3) = (None, w_fs w')"
    using assms(3) by (auto simp: run_hook_def on_fs_simps)
  moreover have "w_fs w' = w_fs w3" using run_hook_fs [OF assms(2), of req its w3] hook by simp
  ultimately show ?thesis using f by auto
qed

definition hooked_req :: cert_req where
  "hooked_req = (case NewReq (\<lambda>_. False) ''v1'' ''example.org'' ''https://proxy'' ''/s'' ''/bin/hook'' FormatPEM [] [] of
     Returned (Inr req) \<Rightarrow> req | _ \<Rightarrow> \<lparr>req_domain = [], req_items = [], req_hook = [], req_env = []\<rparr>)"

lemma hooked_facts:
  "NewReq (\<lambda>_. False) ''v1'' ''example.org'' ''https://proxy'' ''/s'' ''/bin/hook'' FormatPEM [] [] = Returned (Inr hooked_req)"
  "fst (Execute example_exec hooked_req example_world) = Returned None"
proof -
  have "case NewReq (\<lambda>_. False) ''v1'' ''example.org'' ''https://proxy'' ''/s'' ''/bin/hook'' FormatPEM [] [] of
    Returned (Inr r) \<Rightarrow> True | _ \<Rightarrow> False" by code_simp
  then show "NewReq (\<lambda>_. False) ''v1'' ''example.org'' ''https://proxy'' ''/s'' ''/bin/hook'' FormatPEM [] [] = Returned (Inr hooked_req)"
    by (auto simp: hooked_req_def split: outcome.splits sum.splits)
  show "fst (Execute example_exec hooked_req example_world) = Returned None" by code_simp
qed

section \<open>Properties\<close>



end
