(* ===== verification/Collision.thy ===== *)
theory Collision
  imports Atomic
begin

text \<open>
  What \<open>Execute\<close> does when a dated name is already taken, as by a second run on the same domain
  within one second: the exclusive create of \<open>writeFile\<close> refuses the name, and the cleanup
  removes the file that is there.
\<close>

lemma write_items_written: "write_items s its inx w = write_items s (written its) inx w"
  by (induction its arbitrary: inx w)
    (auto simp: written_def Let_def split: outcome.splits prod.splits option.splits)

definition unhindered :: "fs \<Rightarrow> bool" where
  "unhindered f \<longleftrightarrow> (\<forall>call p. fs_deny f call p = None)"

text \<open>The domain's directory is there.\<close>

definition has_directory :: "tree \<Rightarrow> string \<Rightarrow> bool" where
  "has_directory t p \<longleftrightarrow> parent_error t p = None \<and> (\<exists>m s. map_of t p = Some (Directory m s))"

lemma Mkdir_existing: "unhindered f \<Longrightarrow> has_directory (fs_tree f) p \<Longrightarrow> Mkdir p f = (None, f)"
  by (auto simp: Mkdir_def os_mkdir_def create_error_def unhindered_def has_directory_def os_lstat_def lookup_def)

lemma writeFile_taken:
  assumes "unhindered f" and "has_directory (fs_tree f) (path_dir n)" and "map_of (fs_tree f) n \<noteq> None"
  shows "writeFile n data private f = (Some (PathError ''open'' n EEXIST), f)"
proof -
  have "parent_error (fs_tree f) n = None"
    using assms(2) by (auto simp: parent_error_def has_directory_def)
  then have "create_error SCreate f n = Some EEXIST"
    using assms(1,3) by (auto simp: create_error_def unhindered_def)
  then show ?thesis
    using Mkdir_existing [OF assms(1,2)] by (simp add: writeFile_def os_create_excl_def Let_def)
qed

lemma write_items_taken:
  assumes "plain d" and "stamp_ok s" and "item_placed base d i" and "written its = i # rest"
    and "unhindered (w_fs w)" and "has_directory (fs_tree (w_fs w)) (path_below base [d])"
    and "map_of (fs_tree (w_fs w)) (dated_name s base d i) = Some (RegFile m t x)"
  shows "\<exists>w'. write_items s its [] w = (Returned (Inl (PathError ''open'' (dated_name s base d i) EEXIST)), w') \<and>
    fs_tree (w_fs w') = AList.delete (dated_name s base d i) (fs_tree (w_fs w))"
proof -
  let ?n = "dated_name s base d i" and ?w = "say (''Write '' @ ci_local i) w"
  have "i \<in> set (written its)" using assms(4) by simp
  then have "ci_data i \<noteq> []" by (simp add: written_def)
  moreover have "infixed_name s (ci_local i) = Returned ?n" by (rule placed_names [OF assms(3)])
  moreover have "writeFile ?n (ci_data i) (ci_private i) (w_fs w) = (Some (PathError ''open'' ?n EEXIST), w_fs w)"
    using assms(5-7) dated_dir(1) [OF assms(1,2)] by (intro writeFile_taken) simp_all
  moreover have "fs_tree (snd (os_remove ?n (w_fs w))) = AList.delete ?n (fs_tree (w_fs w))"
    using assms(5,7) by (simp add: os_remove_def unhindered_def)
  ultimately show ?thesis
    unfolding write_items_written [of s its] assms(4)
    by (auto simp: Let_def on_fs_def split: prod.splits)
qed

section \<open>Properties\<close>

text \<open>C15. The cleanup after a failed write can remove a file in use: when the dated name of the
  first file to write is taken by the file the current name shows, as after a run within the
  same second, \<open>Execute\<close> fails with \<open>file exists\<close> and the current name, which could be read
  before, cannot be read any more.\<close>

theorem collision_removes_the_current_file:
  assumes d: "plain d" and placed: "items_placed base d (req_items req)"
    and calls: "unhindered (w_fs w)" "has_directory (fs_tree (w_fs w)) (path_below base [d])"
    and fetch: "fetch_items env (req_items req) w = (Inr its, w1)" and first: "written its = i # rest"
    and current: "map_of (fs_tree (w_fs w)) (ci_local i) = Some (Symlink (dated_file (stamp_of env) (ci_role i)))"
    and taken: "map_of (fs_tree (w_fs w)) (dated_name (stamp_of env) base d i) = Some (RegFile m t x)"
    and run: "Execute env req w = (res, w')"
  shows "(\<exists>e. res = Returned (Some e) \<and> os_is_exist e) \<and>
    read_name (fs_tree (w_fs w)) (ci_local i) = Some (m, x) \<and>
    read_name (fs_tree (w_fs w')) (ci_local i) = None"
proof -
  let ?s = "stamp_of env" let ?n = "dated_name ?s base d i"
  have s: "stamp_ok ?s" unfolding stamp_of_def by (rule format_int_stamp)
  have fs: "w_fs w1 = w_fs w" and same: "list_all2 same_item (req_items req) its"
    using fetch_items_effect [OF fetch] by simp_all
  have "i \<in> set (written its)" using first by simp
  then have "i \<in> set its" using written_subset by blast
  then have i: "item_placed base d i"
    using placed_same [OF placed same] by (auto simp: items_placed_def list_all_iff)
  have target: "link_target (ci_local i) (dated_file ?s (ci_role i)) = ?n"
    using link_to_sibling [OF d current_plain dated_plain [OF s]] i
    by (simp add: item_placed_def dated_name_def in_domain_def)
  have before: "read_name (fs_tree (w_fs w)) (ci_local i) = Some (m, x)"
    by (rule read_name_link [OF current]) (simp add: target taken)
  obtain w2 where w2: "write_items ?s its [] w1 = (Returned (Inl (PathError ''open'' ?n EEXIST)), w2)"
    "fs_tree (w_fs w2) = AList.delete ?n (fs_tree (w_fs w))"
    using write_items_taken [OF d s i first, of w1] calls taken fs by auto
  have res: "res = Returned (Some (PathError ''open'' ?n EEXIST))" "w' = w2"
    using run fetch w2(1) by (simp_all add: Execute_def stamp_of_def)
  have "?n \<noteq> ci_local i" using current taken by auto
  then have link: "map_of (fs_tree (w_fs w')) (ci_local i) = Some (Symlink (dated_file ?s (ci_role i)))"
    and gone: "map_of (fs_tree (w_fs w')) ?n = None"
    using current res(2) w2(2) by (simp_all add: map_of_delete)
  have "follow max_links (fs_tree (w_fs w')) (ci_local i) = Some ?n"
    using link gone target by (simp add: max_links_def numeral_eq_Suc follow_link follow_missing)
  then have "read_name (fs_tree (w_fs w')) (ci_local i) = None"
    using gone by (simp add: read_name_def lookup_follow_def lookup_def)
  then show ?thesis using res(1) before by simp
qed

definition again :: exec_env where
  "again = example_exec\<lparr>ex_write_time := 100\<rparr>"

lemma again_fetch:
  "case fetch_items again (req_items (example_req ''example.org'')) example_world of
     (Inr its, _) \<Rightarrow> ci_role (hd (written its)) = RoleCRT \<and> written its \<noteq> [] \<and>
       ci_local (hd (written its)) = ''/s/example.org/cert.pem''
   | _ \<Rightarrow> False"
  by code_simp

lemma again_facts: "has_directory (fs_tree (w_fs example_world)) (path_below ''/s'' [''example.org''])"
  "unhindered (w_fs example_world)"
proof -
  have "parent_error (fs_tree (w_fs example_world)) (path_below ''/s'' [''example.org'']) = None \<and>
    map_of (fs_tree (w_fs example_world)) (path_below ''/s'' [''example.org'']) = Some (Directory 493 1)"
    by code_simp
  then show "has_directory (fs_tree (w_fs example_world)) (path_below ''/s'' [''example.org''])"
    unfolding has_directory_def by blast
  show "unhindered (w_fs example_world)" by (simp add: unhindered_def example_world_def example_store_def)
qed

theorem collision_removes_the_current_file_witness:
  "read_name (fs_tree (w_fs example_world)) ''/s/example.org/cert.pem'' = Some (420, ''old cert'') \<and>
   read_name (fs_tree (w_fs (snd (Execute again (example_req ''example.org'') example_world))))
     ''/s/example.org/cert.pem'' = None"
proof -
  obtain its w1 where f: "fetch_items again (req_items (example_req ''example.org'')) example_world = (Inr its, w1)"
    and i: "ci_role (hd (written its)) = RoleCRT" "written its \<noteq> []"
      "ci_local (hd (written its)) = ''/s/example.org/cert.pem''"
    using again_fetch by (auto split: prod.splits sum.splits)
  have first: "written its = hd (written its) # tl (written its)" using i(2) by simp
  have "stamp_of again = ''100''" "dated_file ''100'' RoleCRT = ''cert-100.pem''"
    "in_domain ''/s'' ''example.org'' ''cert-100.pem'' = ''/s/example.org/cert-100.pem''" by code_simp+
  moreover have "map_of (fs_tree (w_fs example_world)) ''/s/example.org/cert.pem'' = Some (Symlink ''cert-100.pem'')"
    "map_of (fs_tree (w_fs example_world)) ''/s/example.org/cert-100.pem'' = Some (RegFile 420 100 ''old cert'')"
    by (simp_all add: example_world_def example_store_def)
  ultimately have "map_of (fs_tree (w_fs example_world)) (ci_local (hd (written its))) =
      Some (Symlink (dated_file (stamp_of again) (ci_role (hd (written its)))))"
    "map_of (fs_tree (w_fs example_world)) (dated_name (stamp_of again) ''/s'' ''example.org'' (hd (written its))) =
      Some (RegFile 420 100 ''old cert'')"
    using i by (simp_all add: dated_name_def)
  from collision_removes_the_current_file [OF example_hyps(1,2) again_facts(2,1) f first this prod.collapse [symmetric]]
  show ?thesis using i(3) by simp
qed

end
