(* ===== verification/Gen.thy ===== *)
theory Gen
  imports Store GoFlag
begin

text \<open>
  \<open>man/gen.go\<close>, the generator of the manual pages: \<open>main\<close>, \<open>generate\<close> and \<open>compress\<close>.  It
  runs in the directory of the sources, so the names are those below \<open>.\<close>, in their cleaned form
  (without the \<open>./\<close> that \<open>os.CreateTemp\<close> puts in front).  Parameters: \<open>ge_convert\<close> is
  \<open>go tool go-md2man\<close>, \<open>ge_gzip\<close> what the gzip writer puts into the file by \<open>Write\<close> and by
  \<open>Close\<close>, \<open>ge_random\<close> the random strings \<open>CreateTemp\<close> tries.
\<close>

record gen_env =
  ge_convert :: "string \<Rightarrow> string \<Rightarrow> fs \<Rightarrow> go_error option \<times> fs"
  ge_gzip :: "string \<Rightarrow> string \<times> string"
  ge_random :: "string \<Rightarrow> string \<Rightarrow> string list"
  ge_getwd :: "go_error + string"

section \<open>The library\<close>

text \<open>\<open>os.CreateTemp(".", prefix + "*")\<close>: the file is created with mode 0600; a name that is
  taken is tried again with the next random string, 10000 times at most.\<close>

fun create_temp :: "string \<Rightarrow> string list \<Rightarrow> fs \<Rightarrow> (go_error + string) \<times> fs" where
  "create_temp prefix [] f = (Inl (Msg (''createtemp ./'' @ prefix @ ''*: file already exists'')), f)"
| "create_temp prefix (r # rs) f =
     (case os_create_excl (prefix @ r) 384 f of
        (None, g) \<Rightarrow> (Inr (prefix @ r), g)
      | (Some err, g) \<Rightarrow> (if os_is_exist err then create_temp prefix rs g else (Inl err, g)))"

definition max_tries :: nat where
  "max_tries = 10000"

definition close_named :: "string \<Rightarrow> fs \<Rightarrow> go_error option" where
  "close_named p f = map_option (PathError ''close'' p) (fs_deny f SClose p)"

text \<open>\<open>filepath.Glob("*.md")\<close> in the working directory: sorted, and a directory that cannot be
  read gives no names.\<close>

definition glob_md :: "fs \<Rightarrow> string list" where
  "glob_md f =
     (case os_open f ''.'' of
        Inr (_, Directory _ _) \<Rightarrow>
          sort (filter (\<lambda>p. p \<noteq> ''.'' \<and> path_dir p = ''.'' \<and> has_suffix p ''.md'') (remdups (map fst (fs_tree f))))
      | _ \<Rightarrow> [])"

text \<open>\<open>gzip.NewWriterLevel\<close> accepts the levels from \<open>HuffmanOnly\<close> to \<open>BestCompression\<close>.\<close>

definition gzip_level :: "int \<Rightarrow> go_error option" where
  "gzip_level l = (if l < -2 \<or> 9 < l then Some (Msg (''gzip: invalid compression level: '' @ format_int l)) else None)"

definition BestCompression :: int where
  "BestCompression = 9"

section \<open>Pages\<close>

text \<open>The regular expression \<open>^[A-Za-z0-9._-]+\.[1-9]\.md$\<close>.\<close>

definition topic_char :: "char \<Rightarrow> bool" where
  "topic_char c \<longleftrightarrow> is_upper c \<or> is_lower c \<or> is_digit c \<or> c = CHR ''.'' \<or> c = CHR ''_'' \<or> c = CHR ''-''"

fun manual_page_rev :: "string \<Rightarrow> bool" where
  "manual_page_rev (d # m # dot # section # dot' # topic) =
     (d = CHR ''d'' \<and> m = CHR ''m'' \<and> dot = CHR ''.'' \<and> (is_digit section \<and> section \<noteq> CHR ''0'') \<and>
      dot' = CHR ''.'' \<and> topic \<noteq> [] \<and> list_all topic_char topic)"
| "manual_page_rev _ = False"

definition manualPage :: "string \<Rightarrow> bool" where
  "manualPage name = manual_page_rev (rev name)"

definition trim_suffix :: "string \<Rightarrow> string \<Rightarrow> string" where
  "trim_suffix s suffix = (if has_suffix s suffix then take (length s - length suffix) s else s)"

definition page_of :: "string \<Rightarrow> string" where
  "page_of src = trim_suffix src ''.md'' @ ''.gz''"

section \<open>compress and generate\<close>

text \<open>A deferred \<open>os.Remove\<close>, whose error is ignored.\<close>

definition then_remove :: "string \<Rightarrow> 'a \<times> fs \<Rightarrow> 'a \<times> fs" where
  "then_remove p r = (fst r, snd (os_remove p (snd r)))"

definition install :: "gen_env \<Rightarrow> string \<Rightarrow> string \<Rightarrow> string \<Rightarrow> fs \<Rightarrow> go_error option \<times> fs" where
  "install env page tmp dst f0 =
     (case gzip_level BestCompression of Some err \<Rightarrow> (Some err, f0)
      | None \<Rightarrow>
        (case file_write tmp (fst (ge_gzip env page)) f0 of (Some err, f1) \<Rightarrow> (Some err, f1)
         | (None, f1) \<Rightarrow>
           (case file_write tmp (snd (ge_gzip env page)) f1 of (Some err, f2) \<Rightarrow> (Some err, f2)
            | (None, f2) \<Rightarrow>
              (case close_named tmp f2 of Some err \<Rightarrow> (Some err, f2)
               | None \<Rightarrow>
                 (case file_chmod tmp 420 f2 of (Some err, f3) \<Rightarrow> (Some err, f3)
                  | (None, f3) \<Rightarrow> os_rename tmp dst f3)))))"

definition compress :: "gen_env \<Rightarrow> string \<Rightarrow> string \<Rightarrow> fs \<Rightarrow> go_error option \<times> fs" where
  "compress env src dst f0 =
     (case os_read_file f0 src of Inl err \<Rightarrow> (Some err, f0)
      | Inr page \<Rightarrow>
        (if page = [] then (Some (Msg ''go-md2man produced no output''), f0)
         else (case create_temp ''.gz-'' (take max_tries (ge_random env ''.gz-'' dst)) f0 of
             (Inl err, f1) \<Rightarrow> (Some err, f1)
           | (Inr tmp, f1) \<Rightarrow> then_remove tmp (install env page tmp dst f1))))"

definition convert_page :: "gen_env \<Rightarrow> string \<Rightarrow> string \<Rightarrow> string \<Rightarrow> fs \<Rightarrow> go_error option \<times> fs" where
  "convert_page env src roff dst f0 =
     (case close_named roff f0 of Some err \<Rightarrow> (Some err, f0)
      | None \<Rightarrow>
        (case ge_convert env src roff f0 of
           (Some err, f1) \<Rightarrow> (Some (Wrapf ''go-md2man: '' err []), f1)
         | (None, f1) \<Rightarrow> compress env roff dst f1))"

definition generate :: "gen_env \<Rightarrow> string \<Rightarrow> fs \<Rightarrow> go_error option \<times> fs" where
  "generate env src f0 =
     (let dst = page_of src in
      case create_temp ''.roff-'' (take max_tries (ge_random env ''.roff-'' src)) f0 of
        (Inl err, f1) \<Rightarrow> (Some err, f1)
      | (Inr roff, f1) \<Rightarrow> then_remove roff (convert_page env src roff dst f1))"

section \<open>main\<close>

definition gen_fail :: "go_error \<Rightarrow> 'a startup" where
  "gen_fail err = Exit 1 [ToErr (''gen: '' @ error_text err @ [nl])]"

definition must :: "go_error + string \<Rightarrow> string startup" where
  "must r = (case r of Inl err \<Rightarrow> gen_fail err | Inr s \<Rightarrow> Go_on s)"

fun generate_all :: "gen_env \<Rightarrow> string list \<Rightarrow> fs \<Rightarrow> unit startup \<times> fs" where
  "generate_all env [] f = (Go_on (), f)"
| "generate_all env (src # srcs) f =
     (case generate env src f of
        (Some err, g) \<Rightarrow> (gen_fail (Wrapf (src @ '': '') err []), g)
      | (None, g) \<Rightarrow> generate_all env srcs g)"

definition gen_sources :: "fs \<Rightarrow> string list" where
  "gen_sources f = filter (\<lambda>c. manualPage (path_base c)) (glob_md f)"

definition gen_main :: "gen_env \<Rightarrow> fs \<Rightarrow> unit startup \<times> fs" where
  "gen_main env f =
     (let sources = gen_sources f in
      if sources = []
      then (and_then (must (ge_getwd env)) (\<lambda>dir. gen_fail (Msg
        (''no <topic>.<section>.md sources found in '' @ dir @ ''; run this through go generate''))), f)
      else generate_all env sources f)"

section \<open>Histories of the pages\<close>

text \<open>The names \<open>CreateTemp\<close> can choose.\<close>

definition temp_file :: "string \<Rightarrow> bool" where
  "temp_file q \<longleftrightarrow> (\<exists>d. list_all is_digit d \<and> (q = ''.roff-'' @ d \<or> q = ''.gz-'' @ d))"

definition packed :: "gen_env \<Rightarrow> string \<Rightarrow> string" where
  "packed env page = fst (ge_gzip env page) @ snd (ge_gzip env page)"

definition complete_page :: "gen_env \<Rightarrow> inode option \<Rightarrow> bool" where
  "complete_page env n \<longleftrightarrow> (\<exists>page s. page \<noteq> [] \<and> n = Some (RegFile 420 s (packed env page)))"

text \<open>From \<open>t0\<close> to \<open>t\<close> every name is unchanged, a complete page, or temporary.\<close>

definition old_or_complete :: "gen_env \<Rightarrow> string set \<Rightarrow> tree \<Rightarrow> tree \<Rightarrow> bool" where
  "old_or_complete env pages t0 t \<longleftrightarrow>
     (\<forall>q. temp_file q \<or> map_of t q = map_of t0 q \<or> q \<in> pages \<and> complete_page env (map_of t q))"

definition digits_only :: "gen_env \<Rightarrow> bool" where
  "digits_only env \<longleftrightarrow> (\<forall>p s. \<forall>r\<in>set (ge_random env p s). list_all is_digit r)"

text \<open>The converter writes to its output file only.\<close>

definition converter_law :: "gen_env \<Rightarrow> bool" where
  "converter_law env \<longleftrightarrow> (\<forall>src out f r g. ge_convert env src out f = (r, g) \<longrightarrow>
     evolves (\<lambda>t. \<forall>q. q \<noteq> out \<longrightarrow> map_of t q = map_of (fs_tree f) q) f g)"

abbreviation safely :: "gen_env \<Rightarrow> string set \<Rightarrow> fs \<Rightarrow> fs \<Rightarrow> bool" where
  "safely env pages f g \<equiv> evolves (old_or_complete env pages (fs_tree f)) f g"

lemma old_or_complete_refl [simp]: "old_or_complete env pages t t"
  by (simp add: old_or_complete_def)

lemma old_or_complete_trans:
  "old_or_complete env pages t u \<Longrightarrow> old_or_complete env pages u v \<Longrightarrow> old_or_complete env pages t v"
  unfolding old_or_complete_def by metis

lemma safely_trans: "safely env pages f g \<Longrightarrow> safely env pages g h \<Longrightarrow> safely env pages f h"
proof (rule evolves_trans)
  assume f: "safely env pages f g" and g: "safely env pages g h"
  show "safely env pages f g" by (fact f)
  show "evolves (old_or_complete env pages (fs_tree f)) g h"
  proof (rule evolves_mono [OF g])
    have "old_or_complete env pages (fs_tree f) (fs_tree g)" by (rule evolves_end [OF f]) simp
    then show "old_or_complete env pages (fs_tree g) t \<Longrightarrow> old_or_complete env pages (fs_tree f) t" for t
      by (rule old_or_complete_trans)
  qed
qed

lemma safely_temp:
  assumes "temp_file p"
  shows "safely env pages f (put p n f)" "safely env pages f (commit (AList.delete p (fs_tree f)) f)"
  using assms by (auto intro!: evolves_put evolves_commit
      simp: old_or_complete_def map_of_update map_of_delete)

lemma create_temp_safely:
  assumes "create_temp prefix rs f = (r, g)" and "\<forall>r\<in>set rs. temp_file (prefix @ r)"
  shows "safely env pages f g \<and> (\<forall>p. r = Inr p \<longrightarrow> temp_file p \<and> (\<exists>m t. map_of (fs_tree g) p = Some (RegFile m t [])))"
  using assms
proof (induction rs arbitrary: f)
  case (Cons x rs)
  obtain e h where c: "os_create_excl (prefix @ x) 384 f = (e, h)" by fastforce
  show ?case
    using Cons os_create_cases [OF c] c by (auto split: option.splits if_splits intro!: safely_temp)
qed auto

lemma create_temp_digits:
  assumes "create_temp prefix (take n (ge_random env prefix s)) f = (r, g)" and "digits_only env"
    and "prefix = ''.roff-'' \<or> prefix = ''.gz-''"
  shows "safely env pages f g" "r = Inr p \<Longrightarrow> temp_file p" 
    "r = Inr p \<Longrightarrow> \<exists>m t. map_of (fs_tree g) p = Some (RegFile m t [])"
proof -
  have "\<forall>x\<in>set (take n (ge_random env prefix s)). temp_file (prefix @ x)"
    using assms(2,3) by (auto simp: digits_only_def temp_file_def dest!: in_set_takeD)
  note t = create_temp_safely [OF assms(1) this, where env = env and pages = pages]
  show "safely env pages f g" "r = Inr p \<Longrightarrow> temp_file p" 
    "r = Inr p \<Longrightarrow> \<exists>m t. map_of (fs_tree g) p = Some (RegFile m t [])"
    using t by blast+
qed

lemma then_remove_safely:
  assumes "temp_file p" and "safely env pages f (snd r)"
  shows "safely env pages f (snd (then_remove p r))"
proof (rule safely_trans [OF assms(2)])
  obtain e h where "os_remove p (snd r) = (e, h)" by fastforce
  then show "safely env pages (snd r) (snd (then_remove p r))"
    using os_remove_cases [of p "snd r" e h] safely_temp(2) [OF assms(1)] by (auto simp: then_remove_def)
qed

lemma then_remove_other: "\<not> temp_file q \<Longrightarrow> temp_file p \<Longrightarrow>
    map_of (fs_tree (snd (then_remove p r))) q = map_of (fs_tree (snd r)) q"
  using os_remove_frame [of p "snd r" _ _ q] by (metis prod.collapse snd_conv then_remove_def)

section \<open>What the steps do\<close>

lemma install_safely:
  assumes run: "install env page tmp dst f = (r, g)" and tmp: "temp_file tmp" "\<not> temp_file dst" "dst \<in> pages"
    and inode: "map_of (fs_tree f) tmp = Some (RegFile m t [])" and page: "page \<noteq> []"
  shows "safely env pages f g \<and> (r = None \<longrightarrow> (\<exists>s. map_of (fs_tree g) dst = Some (RegFile 420 s (packed env page))))"
proof -
  obtain r1 f1 where w1: "file_write tmp (fst (ge_gzip env page)) f = (r1, f1)" by fastforce
  have s1: "safely env pages f f1"
    using file_write_cases [OF w1 inode] tmp(1) by (auto intro: safely_temp)
  show ?thesis
  proof (cases r1)
    case (Some e)
    then show ?thesis using run w1 s1 by (auto simp: install_def gzip_level_def BestCompression_def)
  next
    case None
    then have file1: "map_of (fs_tree f1) tmp = Some (RegFile m (fs_clock f) (fst (ge_gzip env page)))"
      using file_write_cases [OF w1 inode] by auto
    obtain r2 f2 where w2: "file_write tmp (snd (ge_gzip env page)) f1 = (r2, f2)" by fastforce
    have s2: "safely env pages f f2"
      using file_write_cases [OF w2 file1] tmp(1) by (auto intro: safely_temp safely_trans [OF s1] s1)
    show ?thesis
    proof (cases "r2 = None \<and> close_named tmp f2 = None")
      case False
      then show ?thesis using run w1 w2 s2 \<open>r1 = None\<close>
        by (auto simp: install_def gzip_level_def BestCompression_def split: option.splits)
    next
      case True
      then have file2: "map_of (fs_tree f2) tmp = Some (RegFile m (fs_clock f1) (packed env page))"
        using file_write_cases [OF w2 file1] by (auto simp: packed_def)
      obtain r3 f3 where c: "file_chmod tmp 420 f2 = (r3, f3)" by fastforce
      have s3: "safely env pages f f3"
        using file_chmod_cases [OF c file2] tmp(1) by (auto intro: safely_temp safely_trans [OF s2] s2)
      show ?thesis
      proof (cases r3)
        case (Some e)
        then show ?thesis using run w1 w2 c s3 True \<open>r1 = None\<close>
          by (auto simp: install_def gzip_level_def BestCompression_def)
      next
        case None
        then have file3: "map_of (fs_tree f3) tmp = Some (RegFile 420 (fs_clock f1) (packed env page))"
          using file_chmod_cases [OF c file2] by auto
        have ren: "os_rename tmp dst f3 = (r, g)"
          using run w1 w2 c True None \<open>r1 = None\<close> by (simp add: install_def gzip_level_def BestCompression_def)
        have "tmp \<noteq> dst" using tmp by blast
        from os_rename_cases [OF ren file3 this] show ?thesis
        proof (elim disjE conjE)
          assume g: "g = commit (AList.update dst (RegFile 420 (fs_clock f1) (packed env page)) (AList.delete tmp (fs_tree f3))) f3"
          have "safely env pages f3 g"
            unfolding g using tmp page
            by (intro evolves_commit)
              (auto simp: old_or_complete_def map_of_update map_of_delete complete_page_def)
          then show ?thesis using safely_trans [OF s3] g by (simp add: map_of_update)
        qed (use s3 in auto)
      qed
    qed
  qed
qed

lemma compress_safely:
  assumes run: "compress env src dst f = (r, g)" and law: "digits_only env" and dst: "\<not> temp_file dst" "dst \<in> pages"
  shows "safely env pages f g \<and> (r = None \<longrightarrow> complete_page env (map_of (fs_tree g) dst))"
proof (cases "os_read_file f src")
  case (Inr page)
  show ?thesis
  proof (cases "page = []")
    case False
    obtain t f1 where c: "create_temp ''.gz-'' (take max_tries (ge_random env ''.gz-'' dst)) f = (t, f1)" by fastforce
    note temp = create_temp_digits [OF c law disjI2 [OF refl]]
    show ?thesis
    proof (cases t)
      case (Inl e)
      then show ?thesis using run Inr False c temp(1) by (auto simp: compress_def)
    next
      case (Inr tmp)
      have name: "temp_file tmp" using temp(2) Inr by blast
      obtain r2 f2 where i: "install env page tmp dst f1 = (r2, f2)" by fastforce
      obtain m s where "map_of (fs_tree f1) tmp = Some (RegFile m s [])" using temp(3) Inr by auto
      note inst = install_safely [OF i name dst this False]
      have g: "r = r2" "g = snd (then_remove tmp (r2, f2))"
        using run \<open>os_read_file f src = Inr page\<close> False c Inr i by (auto simp: compress_def then_remove_def)
      have "safely env pages f1 g"
        using then_remove_safely [OF name, of env pages f1 "(r2, f2)"] inst by (simp add: g)
      moreover have "r = None \<longrightarrow> complete_page env (map_of (fs_tree g) dst)"
        using inst then_remove_other [OF dst(1) name, of "(r2, f2)"] False
        by (auto simp: g complete_page_def)
      ultimately show ?thesis using safely_trans [OF temp(1)] by simp
    qed
  qed (use run Inr in \<open>auto simp: compress_def\<close>)
qed (use run in \<open>auto simp: compress_def\<close>)

lemma generate_safely:
  assumes run: "generate env src f = (r, g)" and law: "digits_only env" "converter_law env"
    and dst: "\<not> temp_file (page_of src)" "page_of src \<in> pages"
  shows "safely env pages f g \<and> (r = None \<longrightarrow> complete_page env (map_of (fs_tree g) (page_of src)))"
proof -
  obtain t f1 where c: "create_temp ''.roff-'' (take max_tries (ge_random env ''.roff-'' src)) f = (t, f1)" by fastforce
  note temp = create_temp_digits [OF c law(1) disjI1 [OF refl]]
  show ?thesis
  proof (cases t)
    case (Inl e)
    then show ?thesis using run c temp(1) by (auto simp: generate_def)
  next
    case (Inr roff)
    have name: "temp_file roff" using temp(2) Inr by blast
    obtain r2 f2 where i: "convert_page env src roff (page_of src) f1 = (r2, f2)" by fastforce
    have g: "r = r2" "g = snd (then_remove roff (r2, f2))"
      using run c Inr i by (auto simp: generate_def then_remove_def)
    have conv: "safely env pages f1 h" if "ge_convert env src roff f1 = (x, h)" for x h
    proof -
      have "evolves (\<lambda>t. \<forall>q. q \<noteq> roff \<longrightarrow> map_of t q = map_of (fs_tree f1) q) f1 h"
        using law(2) that unfolding converter_law_def by blast
      then show ?thesis
        by (rule evolves_mono) (use name in \<open>auto simp: old_or_complete_def\<close>)
    qed
    have inner: "safely env pages f1 f2 \<and> (r2 = None \<longrightarrow> complete_page env (map_of (fs_tree f2) (page_of src)))"
      using i conv compress_safely [OF _ law(1) dst]
      by (fastforce simp: convert_page_def split: option.splits prod.splits intro: safely_trans)
    have "safely env pages f1 g"
      using then_remove_safely [OF name, of env pages f1 "(r2, f2)"] inner by (simp add: g)
    moreover have "r = None \<longrightarrow> complete_page env (map_of (fs_tree g) (page_of src))"
      using inner then_remove_other [OF dst(1) name, of "(r2, f2)"] by (auto simp: g)
    ultimately show ?thesis using safely_trans [OF temp(1)] by simp
  qed
qed

lemma page_not_temp: "\<not> temp_file (page_of src)"
proof
  assume "temp_file (page_of src)"
  then obtain d where d: "list_all is_digit d" "page_of src = ''.roff-'' @ d \<or> page_of src = ''.gz-'' @ d"
    by (auto simp: temp_file_def)
  have z: "last (page_of src) = CHR ''z''" by (simp add: page_of_def)
  show False
  proof (cases "d = []")
    case False
    then have "is_digit (last d)" using d(1) by (simp add: list_all_iff)
    then show False using d(2) z False by (auto simp: is_digit_def)
  qed (use d(2) z in auto)
qed

lemma complete_stays:
  assumes "safely env pages f g" and "\<not> temp_file q" and "complete_page env (map_of (fs_tree f) q)"
  shows "complete_page env (map_of (fs_tree g) q)"
  using evolves_end [OF assms(1)] assms(2,3) by (metis old_or_complete_def old_or_complete_refl)

lemma generate_all_safely:
  assumes "generate_all env srcs f = (r, g)" and "digits_only env" "converter_law env"
    and "page_of ` set srcs \<subseteq> pages"
  shows "safely env pages f g \<and>
    (r = Go_on () \<longrightarrow> (\<forall>src\<in>set srcs. complete_page env (map_of (fs_tree g) (page_of src))))"
  using assms
proof (induction srcs arbitrary: f)
  case (Cons src srcs)
  obtain e h where gen: "generate env src f = (e, h)" by fastforce
  note one = generate_safely [OF gen Cons.prems(2,3) page_not_temp, of pages]
  show ?case
  proof (cases e)
    case (Some err)
    then show ?thesis using Cons.prems one gen by (auto simp: gen_fail_def)
  next
    case None
    then have more: "generate_all env srcs h = (r, g)" using Cons.prems(1) gen by simp
    have "page_of ` set srcs \<subseteq> pages" using Cons.prems(4) by simp
    note rest = Cons.IH [OF more Cons.prems(2,3) this]
    then show ?thesis
      using one None Cons.prems(4) complete_stays [OF _ page_not_temp, of env pages h g src]
      by (auto intro: safely_trans)
  qed
qed auto

section \<open>A concrete run\<close>

definition man_dir :: tree where
  "man_dir = [(''.'', Directory 493 1), (''README.md'', RegFile 420 1 ''x''),
     (''a.1.md'', RegFile 420 1 ''A''), (''a.1.gz'', RegFile 420 1 ''old''), (''.roff-0'', RegFile 384 1 [])]"

definition example_gen :: gen_env where
  "example_gen = \<lparr>ge_convert = (\<lambda>src out f. file_write out ''.TH'' f), ge_gzip = (\<lambda>s. (''gz:'', s)),
     ge_random = (\<lambda>p s. [''0'', ''1'']), ge_getwd = Inr ''/man''\<rparr>"

lemma example_gen_ok: "fst (gen_main example_gen (example_fs man_dir)) = Go_on ()"
  "gen_sources (example_fs man_dir) = [''a.1.md'']"
  by code_simp+

lemma example_gen_laws: "digits_only example_gen \<and> converter_law example_gen"
proof -
  have "evolves (\<lambda>t. \<forall>q. q \<noteq> p \<longrightarrow> map_of t q = map_of (fs_tree f) q) f (append_data p d f)" for p d f
    by (auto simp: append_data_def map_of_update split: option.splits inode.splits intro!: evolves_put)
  then have "converter_law example_gen"
    by (auto simp: converter_law_def example_gen_def file_write_def split: option.splits)
  moreover have "digits_only example_gen"
    by (simp add: digits_only_def example_gen_def is_digit_def)
  ultimately show ?thesis by simp
qed

section \<open>Properties\<close>



end
