(* ===== verification/Frame.thy ===== *)
theory Frame
  imports Requests Atomic
begin

text \<open>
  Which names a run can touch: the directory of its domain and the files in it.  Runs for
  different domains, which the worker pool executes side by side, have no name in common.
\<close>

definition of_domain :: "string \<Rightarrow> string \<Rightarrow> string \<Rightarrow> bool" where
  "of_domain base d q \<longleftrightarrow> q = path_below base [d] \<or> (\<exists>file. plain file \<and> q = in_domain base d file)"

lemma of_domain_files:
  assumes "plain d" and "item_placed base d i" and "stamp_ok s"
  shows "of_domain base d (ci_local i)" "of_domain base d (tmp_name (ci_local i))"
    "of_domain base d (dated_name s base d i)"
proof -
  have l: "ci_local i = in_domain base d (current_file (ci_role i))"
    using assms(2) by (simp add: item_placed_def in_domain_def)
  show "of_domain base d (ci_local i)" unfolding l of_domain_def using current_plain by blast
  show "of_domain base d (tmp_name (ci_local i))" unfolding l in_domain_tmp of_domain_def using tmp_plain by blast
  show "of_domain base d (dated_name s base d i)"
    unfolding dated_name_def of_domain_def using dated_plain [OF assms(3)] by blast
qed

lemma of_domain_path:
  assumes "of_domain base d q"
  shows "\<exists>xs. list_all plain xs \<and> q = path_below base (d # xs)"
  using assms unfolding of_domain_def in_domain_def
  by (metis list.pred_inject(1,2))

lemma domains_apart:
  assumes "plain d" "plain e" "d \<noteq> e"
  shows "of_domain base d q \<Longrightarrow> \<not> of_domain base e q"
proof
  assume "of_domain base d q" "of_domain base e q"
  then obtain xs ys where q: "q = path_below base (d # xs)" "q = path_below base (e # ys)"
    and p: "list_all plain (d # xs)" "list_all plain (e # ys)"
    using of_domain_path assms(1,2) by (metis list.pred_inject(2))
  have "path_below base (d # xs) = path_below base (e # ys)" using q by metis
  then have "d # xs = e # ys" by (rule path_below_inj [OF _ p]) simp_all
  then show False using assms(3) by simp
qed

lemma run_tree_outside:
  assumes d: "plain d" and pl: "items_placed base d its" and t: "run_tree env base d its t0 t"
    and q: "\<not> of_domain base d q"
  shows "map_of t q = map_of t0 q"
proof -
  let ?s = "stamp_of env"
  have s: "stamp_ok ?s" unfolding stamp_of_def by (rule format_int_stamp)
  have placed: "item_placed base d i" if "i \<in> set its" for i
    using pl that by (simp add: items_placed_def list_all_iff)
  have apart: "q \<noteq> ci_local i \<and> q \<noteq> tmp_name (ci_local i) \<and> q \<noteq> dated_name ?s base d i" if "i \<in> set its" for i
    using of_domain_files [OF d placed [OF that] s] q by blast
  have dir: "q \<noteq> path_below base [d]" using q by (auto simp: of_domain_def)
  have added: "map_of u q = map_of t0 q" if "adds_dated ?s base d its t0 u" for u
    using that apart dir unfolding adds_dated_def by blast
  show ?thesis
    using t unfolding run_tree_def
  proof (elim disjE exE conjE)
    fix t1 assume st: "stored_all env base d its t0 t1"
      and sw: "switched (ex_use_symlink env) ?s base d (written its) t1 t"
    have "map_of t q = map_of t1 q"
      using sw apart written_subset unfolding switched_def by blast
    then show ?thesis using st added by (simp add: stored_all_def)
  qed (rule added)
qed

section \<open>Properties\<close>

text \<open>Downloads for different domains do not interfere: whatever its outcome, a run for one domain
  changes, in every state of the file system on the way, no name outside the directory of that
  domain, and no name is both in that directory and in the directory of another valid domain.\<close>

theorem domains_do_not_interfere:
  assumes new: "NewReq ip6 version d remote base hook format pass compt = Returned (Inr req)"
    and base: "base \<noteq> []" and env: "orderly env"
    and fresh: "fresh_stamp env base d (req_items req) (fs_tree (w_fs w))"
    and run: "Execute env req w = (res, w')"
    and other: "ValidateDomain e = None" "d \<noteq> e"
  shows "evolves (\<lambda>t. \<forall>q. \<not> of_domain base d q \<longrightarrow> map_of t q = map_of (fs_tree (w_fs w)) q) (w_fs w) (w_fs w') \<and>
    (\<forall>q. \<not> (of_domain base d q \<and> of_domain base e q))"
proof -
  note req = NewReq_Inr [OF new base]
  have d: "plain d" and e: "plain e"
    using req other(1) by (auto simp: ValidateDomain_None intro: domain_name_plain)
  have pl: "items_placed base d (req_items req)" using req by simp
  obtain r w1 where fetch: "fetch_items env (req_items req) w = (r, w1)" by fastforce
  have "evolves (\<lambda>t. \<forall>q. \<not> of_domain base d q \<longrightarrow> map_of t q = map_of (fs_tree (w_fs w)) q) (w_fs w) (w_fs w')"
  proof (cases r)
    case (Inl err)
    then have "w_fs w' = w_fs w"
      using run fetch fetch_items_effect [OF fetch] by (auto simp: Execute_def)
    then show ?thesis by simp
  next
    case (Inr its)
    have "list_all2 same_item (req_items req) its" using fetch_items_effect [OF fetch] Inr by simp
    then have its: "items_placed base d its" by (rule placed_same [OF pl])
    show ?thesis
      using execute_run [OF d pl env fresh fetch [unfolded Inr] run] run_tree_outside [OF d its]
      by (auto elim: evolves_mono)
  qed
  then show ?thesis using domains_apart [OF d e other(2)] by blast
qed

theorem domains_do_not_interfere_witness:
  "\<exists>w'. Execute example_exec (example_req ''example.org'') example_world = (Returned None, w') \<and>
     evolves (\<lambda>t. \<forall>q. \<not> of_domain ''/s'' ''example.org'' q \<longrightarrow> map_of t q = map_of (fs_tree (w_fs example_world)) q)
       (w_fs example_world) (w_fs w')"
proof -
  obtain w' where x: "Execute example_exec (example_req ''example.org'') example_world = (Returned None, w')"
    using example_execute by blast
  have "case NewReq (\<lambda>_. False) ''v1.22.0'' ''example.org'' ''https://proxy'' ''/s'' [] FormatPEM [] [] of
    Returned (Inr r) \<Rightarrow> True | _ \<Rightarrow> False" by code_simp
  then have new: "NewReq (\<lambda>_. False) ''v1.22.0'' ''example.org'' ''https://proxy'' ''/s'' [] FormatPEM [] [] =
      Returned (Inr (example_req ''example.org''))"
    by (auto simp: example_req_def split: outcome.splits sum.splits)
  have "(''/s'' :: string) \<noteq> []" "''example.org'' \<noteq> ''example.net''" by simp_all
  moreover have "ValidateDomain ''example.net'' = None" by code_simp
  ultimately show ?thesis
    using domains_do_not_interfere [OF new _ example_orderly example_hyps(3) x] x by blast
qed

end
