(* ===== verification/Parts.thy ===== *)
theory Parts
  imports Frame
begin

text \<open>
  The part of the file system a run for one domain depends on.  Runs for different domains are
  apart: a system call on a name of a domain's directory neither depends on the directories of
  other domains nor changes anything in them.
\<close>

section \<open>Names of other domains\<close>

text \<open>The names that are not below the directory of another domain.\<close>

definition watched :: "string \<Rightarrow> string \<Rightarrow> string \<Rightarrow> bool" where
  "watched base d q \<longleftrightarrow> \<not> (\<exists>e xs. plain e \<and> list_all plain xs \<and> e \<noteq> d \<and> q = path_below base (e # xs))"

lemma watchedI: "(\<And>e xs. path_elems q = path_elems base @ e # xs \<Longrightarrow> e = d) \<Longrightarrow> watched base d q"
  unfolding watched_def using elems_path_below(1) [of _ base] by (metis list.distinct(1) list.pred_inject(2))

lemma path_elems_clean: "path_elems (path_clean p) = path_elems p"
proof (cases "rooted p")
  case True
  then show ?thesis using path_elems_slash_join [OF rooted_elems_plain [OF True]] by (simp add: path_clean_def)
next
  case False
  show ?thesis
  proof (cases "path_elems p")
    case Nil
    then show ?thesis using False by (simp add: path_clean_def path_elems_def clean_stack_def clean_step_def rooted_def has_prefix_def)
  next
    case (Cons x xs)
    have x: "x \<noteq> []" "CHR ''/'' \<notin> set x" using path_elems_nonempty [of x p] path_elems_no_slash [of p] Cons by auto
    have "path_clean p = x @ (if xs = [] then [] else ''/'' @ join ''/'' xs)"
      using False Cons by (simp add: path_clean_def join_Cons)
    then have r: "\<not> rooted (path_clean p)" using rooted_elem [OF x] by simp
    have "split_on CHR ''/'' (path_clean p) = path_elems p"
      using False Cons path_elems_no_slash [of p] by (simp add: path_clean_def split_on_join)
    then show ?thesis using clean_elems [of p] r False unfolding path_elems_def [of "path_clean p"] by simp
  qed
qed

lemma path_elems_trailing: "p \<noteq> [] \<Longrightarrow> path_elems (p @ ''/'') = path_elems p"
  using split_on_append [of "CHR ''/''" p "[]"]
  by (simp add: path_elems_def rooted_append clean_stack_append clean_stack_Cons clean_step_def)

lemma path_clean_nonempty: "path_clean p \<noteq> []"
proof (cases "rooted p \<or> path_elems p = []")
  case False
  then obtain x xs where "path_elems p = x # xs" by (cases "path_elems p") auto
  then show ?thesis using False path_elems_nonempty [of x p] by (simp add: path_clean_def join_Cons)
qed (auto simp: path_clean_def)

lemma elems_dir_below:
  assumes "list_all plain es" and "plain x"
  shows "path_elems (path_dir (path_below base (es @ [x]))) = path_elems base @ es"
proof (cases "es = [] \<and> path_elems base = []")
  case True
  have x: "CHR ''/'' \<notin> set x" using assms(2) by (simp add: plain_def)
  then have "dropWhile (\<lambda>c. c \<noteq> CHR ''/'') (rev x) = []" by (simp add: dropWhile_eq_Nil_conv) (metis in_set_conv_nth)
  moreover have "path_below base [x] = (if rooted base then CHR ''/'' # x else x)"
    using path_below_snoc [of base "[]" x] True by simp
  ultimately have "path_dir (path_below base [x]) = path_clean (if rooted base then ''/'' else [])"
    using dropWhile_no_slash [OF x, of "[]"] by (simp add: path_dir_def del: dropWhile_eq_Nil_conv)
  moreover have "path_elems ''/'' = []" "path_elems [] = []"
    by (simp_all add: path_elems_def clean_stack_def clean_step_def)
  ultimately show ?thesis using True by (auto simp: path_elems_clean)
next
  case False
  have x: "CHR ''/'' \<notin> set x" using assms(2) by (simp add: plain_def)
  have "path_below base (es @ [x]) = path_below base es @ CHR ''/'' # x"
    using False by (auto simp: path_below_snoc)
  then have "path_dir (path_below base (es @ [x])) = path_clean (path_below base es @ ''/'')"
    unfolding path_dir_def by (simp only: dropWhile_no_slash [OF x])
  then show ?thesis
    using assms path_elems_trailing [OF path_clean_nonempty [of base]] elems_path_below(2) [of es base]
    by (cases "es = []") (simp_all add: path_elems_clean path_below_Nil)
qed

lemma elems_dir_Cons:
  assumes "plain e" and "list_all plain xs"
  shows "path_elems (path_dir (path_below base (e # xs))) = path_elems base @ butlast (e # xs)"
proof -
  have e: "e # xs = butlast (e # xs) @ [last (e # xs)]" by (rule append_butlast_last_id [symmetric]) simp
  have all: "\<forall>x\<in>set (e # xs). plain x" using assms by (simp add: list_all_iff)
  then have "list_all plain (butlast (e # xs))" unfolding list_all_iff by (blast dest: in_set_butlastD)
  moreover have "plain (last (e # xs))" using all last_in_set [of "e # xs"] by blast
  ultimately show ?thesis using elems_dir_below [of "butlast (e # xs)" "last (e # xs)" base]
    unfolding e [symmetric] by blast
qed

text \<open>A prefix of a clean path that ends before a slash has the first elements of it.\<close>

lemma updots_drop: "updots st \<Longrightarrow> updots (drop k st)"
proof -
  assume "updots st"
  then obtain a n where st: "st = a @ replicate n ''..''" and a: "list_all plain a" unfolding updots_def by blast
  have "drop k st = drop k a @ replicate (n - (k - length a)) ''..''" by (simp add: st)
  moreover have "list_all plain (drop k a)" using a by (auto simp: list_all_iff dest: in_set_dropD)
  ultimately show ?thesis unfolding updots_def by blast
qed

lemma clean_take:
  assumes "list_all plain es"
  shows "clean_stack (rooted base) (take n (path_elems base @ es)) [] = rev (take n (path_elems base @ es))"
proof (cases "rooted base")
  case True
  then have "list_all plain (path_elems base @ es)" using rooted_elems_plain assms by simp
  then have "list_all plain (take n (path_elems base @ es))" by (auto simp: list_all_iff dest: in_set_takeD)
  then show ?thesis by (simp add: plain_stack)
next
  case False
  have "updots (rev (path_elems base @ es))"
  proof -
    obtain a n where "rev (path_elems base) = a @ replicate n ''..''" "list_all plain a"
      using path_elems_updots [of base] unfolding updots_def by blast
    then have "rev (path_elems base @ es) = (rev es @ a) @ replicate n ''..''" "list_all plain (rev es @ a)"
      using assms by (auto simp: list_all_iff)
    then show ?thesis unfolding updots_def by blast
  qed
  then have "updots (rev (take n (path_elems base @ es)))" unfolding rev_take by (rule updots_drop)
  then show ?thesis using clean_updots [of "rev (take n (path_elems base @ es))"] False by simp
qed

lemma ancestor_elems:
  assumes "a \<in> set (ancestors (path_below base es))" and es: "es \<noteq> []" "list_all plain es"
  shows "\<exists>n. path_elems a = take n (path_elems base @ es)"
proof -
  let ?p = "path_below base es" and ?L = "path_elems base @ es"
  obtain i where i: "a = take i ?p" "?p ! i = CHR ''/''" "1 \<le> i" "i < length ?p"
    using assms(1) by (auto simp: ancestors_def)
  have p: "?p = a @ CHR ''/'' # drop (Suc i) ?p" using i by (metis id_take_nth_drop)
  have a: "a \<noteq> []" using i by (cases ?p) auto
  have r: "rooted a = rooted base"
    using below_rooted [OF es, of base "[]"] rooted_append [OF a, of "CHR ''/'' # drop (Suc i) ?p"] p by simp
  have "split_on CHR ''/'' a @ split_on CHR ''/'' (drop (Suc i) ?p) = (if rooted base then [[]] else []) @ ?L"
    using split_below [OF es, of base] split_on_append [of "CHR ''/''" a "drop (Suc i) ?p"] p by metis
  then have s: "split_on CHR ''/'' a = take (length (split_on CHR ''/'' a)) ((if rooted base then [[]] else []) @ ?L)"
    by (metis append_eq_conv_conj)
  let ?k = "length (split_on CHR ''/'' a)"
  have "path_elems a = rev (clean_stack (rooted base) (take ?k ((if rooted base then [[]] else []) @ ?L)) [])"
    unfolding path_elems_def [of a] r by (subst s) (rule refl)
  moreover have "clean_stack (rooted base) (take ?k ((if rooted base then [[]] else []) @ ?L)) [] =
      clean_stack (rooted base) (take (if rooted base then ?k - 1 else ?k) ?L) []"
    by (cases ?k) (auto simp: clean_stack_Cons clean_step_def)
  ultimately show ?thesis using clean_take [OF es(2)] by (metis rev_rev_ident)
qed

section \<open>Which names are watched\<close>

lemma domain_elems:
  assumes "plain d" and "of_domain base d p"
  shows "\<exists>xs. list_all plain xs \<and> p = path_below base (d # xs) \<and> path_elems p = path_elems base @ d # xs \<and>
    path_elems (path_dir p) = path_elems base @ butlast (d # xs)"
proof -
  obtain xs where xs: "list_all plain xs" "p = path_below base (d # xs)" using of_domain_path [OF assms(2)] by blast
  have "path_elems p = path_elems base @ d # xs" using elems_path_below(1) [of "d # xs" base] xs assms(1) by simp
  moreover have "path_elems (path_dir p) = path_elems base @ butlast (d # xs)"
    unfolding xs(2) by (rule elems_dir_Cons [OF assms(1) xs(1)])
  ultimately show ?thesis using xs by blast
qed

lemma watched_own: "plain d \<Longrightarrow> of_domain base d p \<Longrightarrow> watched base d p"
  using domain_elems [of d base p] by (intro watchedI) auto

lemma watched_parent: "plain d \<Longrightarrow> of_domain base d p \<Longrightarrow> watched base d (path_dir p)"
proof -
  assume "plain d" "of_domain base d p"
  then obtain xs where "path_elems (path_dir p) = path_elems base @ butlast (d # xs)" using domain_elems by blast
  then show ?thesis by (intro watchedI) (auto simp: Cons_eq_append_conv split: if_splits)
qed

lemma watched_ancestor: "plain d \<Longrightarrow> of_domain base d p \<Longrightarrow> a \<in> set (ancestors p) \<Longrightarrow> watched base d a"
proof -
  assume d: "plain d" "of_domain base d p" and a: "a \<in> set (ancestors p)"
  obtain xs where xs: "list_all plain xs" "p = path_below base (d # xs)" using of_domain_path [OF d(2)] by blast
  then obtain n where n: "path_elems a = take n (path_elems base @ d # xs)"
    using ancestor_elems [of a base "d # xs"] a d(1) by auto
  show ?thesis
  proof (rule watchedI)
    fix e ys assume "path_elems a = path_elems base @ e # ys"
    then have "take n (path_elems base @ d # xs) = path_elems base @ e # ys" using n by simp
    then have eq: "take n (path_elems base) @ take (n - length (path_elems base)) (d # xs) = path_elems base @ e # ys"
      by simp
    have "take n (path_elems base) = path_elems base"
    proof (rule ccontr)
      assume "take n (path_elems base) \<noteq> path_elems base"
      then have "n < length (path_elems base)" by (metis leI take_all)
      then show False using arg_cong [OF eq, of length] by simp
    qed
    then have "take (n - length (path_elems base)) (d # xs) = e # ys" using eq by simp
    then show "e = d" by (cases "n - length (path_elems base)") auto
  qed
qed

lemma watched_child: "plain d \<Longrightarrow> of_domain base d p \<Longrightarrow> path_dir q = p \<Longrightarrow> watched base d q"
  unfolding watched_def
proof
  assume d: "plain d" and p: "of_domain base d p" and q: "path_dir q = p"
  assume "\<exists>e xs. plain e \<and> list_all plain xs \<and> e \<noteq> d \<and> q = path_below base (e # xs)"
  then obtain e xs where e: "plain e" "list_all plain xs" "e \<noteq> d" "q = path_below base (e # xs)" by blast
  have "path_elems p = path_elems base @ butlast (e # xs)"
    using elems_dir_Cons [OF e(1,2), of base] unfolding e(4) [symmetric] q .
  moreover obtain ys where "path_elems p = path_elems base @ d # ys" using domain_elems [OF d p] by blast
  ultimately show False using e(3) by (auto split: if_splits)
qed

lemma not_watched: "plain d \<Longrightarrow> of_domain base d q \<Longrightarrow> e \<noteq> d \<Longrightarrow> \<not> watched base e q"
  unfolding watched_def using of_domain_path [of base d q] by blast

section \<open>The part of a domain\<close>

definition same_part :: "string \<Rightarrow> string \<Rightarrow> fs \<Rightarrow> fs \<Rightarrow> bool" where
  "same_part base d f g \<longleftrightarrow> same_env f g \<and>
     (\<forall>q. watched base d q \<longrightarrow> map_of (fs_tree f) q = map_of (fs_tree g) q)"

text \<open>The symbolic links of a domain's directory lead to names of that directory, as the ones the
  client creates do.\<close>

definition links_inside :: "string \<Rightarrow> string \<Rightarrow> tree \<Rightarrow> bool" where
  "links_inside base d t \<longleftrightarrow>
     (\<forall>q l. of_domain base d q \<longrightarrow> map_of t q = Some (Symlink l) \<longrightarrow> of_domain base d (link_target q l))"

lemma same_part_refl [simp]: "same_part base d f f"
  by (simp add: same_part_def)

lemma same_part_sym: "same_part base d f g \<Longrightarrow> same_part base d g f"
  by (simp add: same_part_def same_env_def)

lemma same_part_trans: "same_part base d f g \<Longrightarrow> same_part base d g h \<Longrightarrow> same_part base d f h"
  by (auto simp: same_part_def intro: same_env_trans)

lemma same_part_env:
  "same_part base d f g \<Longrightarrow> fs_deny g = fs_deny f \<and> fs_partial g = fs_partial f \<and> fs_umask g = fs_umask f \<and> fs_clock g = fs_clock f"
  by (simp add: same_part_def same_env_def)

lemma same_part_own: "same_part base d f g \<Longrightarrow> plain d \<Longrightarrow> of_domain base d q \<Longrightarrow>
    map_of (fs_tree g) q = map_of (fs_tree f) q"
  by (simp add: same_part_def watched_own)

lemma same_part_links: "same_part base d f g \<Longrightarrow> plain d \<Longrightarrow> links_inside base d (fs_tree f) \<Longrightarrow> links_inside base d (fs_tree g)"
  by (simp add: links_inside_def same_part_own)

text \<open>What the calls look up.\<close>

lemma missing_same: "same_part base d f g \<Longrightarrow> plain d \<Longrightarrow> of_domain base d p \<Longrightarrow> missing (fs_tree g) p = missing (fs_tree f) p"
proof -
  assume "same_part base d f g" "plain d" "of_domain base d p"
  then have "\<forall>a\<in>set (ancestors p). map_of (fs_tree g) a = map_of (fs_tree f) a"
    using watched_ancestor by (auto simp: same_part_def)
  then show ?thesis by (simp add: missing_def list_ex_iff)
qed

lemma lookup_same: "same_part base d f g \<Longrightarrow> plain d \<Longrightarrow> of_domain base d p \<Longrightarrow> lookup (fs_tree g) p = lookup (fs_tree f) p"
  using missing_same [of base d f g p] same_part_own [of base d f g p] by (simp add: lookup_def split: option.split)

lemma follow_own: "links_inside base d t \<Longrightarrow> of_domain base d p \<Longrightarrow> follow n t p = Some q \<Longrightarrow> of_domain base d q"
  by (induction n t p rule: follow.induct)
    (subst (asm) (2) follow.simps, auto simp: links_inside_def split: option.splits inode.splits nat.splits)

lemma follow_same: "same_part base d f g \<Longrightarrow> plain d \<Longrightarrow> links_inside base d (fs_tree f) \<Longrightarrow> of_domain base d p \<Longrightarrow>
    follow n (fs_tree g) p = follow n (fs_tree f) p"
proof (induction n arbitrary: p)
  case 0
  then show ?case using same_part_own [of base d f g p]
    by (simp add: follow.simps [of 0] split: option.splits inode.splits)
next
  case (Suc n)
  then have "map_of (fs_tree f) p = Some (Symlink l) \<Longrightarrow> follow n (fs_tree g) (link_target p l) = follow n (fs_tree f) (link_target p l)" for l
    by (simp add: links_inside_def)
  then show ?case using same_part_own [of base d f g p] Suc.prems
    by (simp add: follow.simps [of "Suc n"] split: option.splits inode.splits)
qed

lemma lookup_follow_same: "same_part base d f g \<Longrightarrow> plain d \<Longrightarrow> links_inside base d (fs_tree f) \<Longrightarrow> of_domain base d p \<Longrightarrow>
    lookup_follow (fs_tree g) p = lookup_follow (fs_tree f) p"
  unfolding lookup_follow_def using follow_same [of base d f g p max_links] lookup_same follow_own
  by (auto split: option.splits)

lemma create_error_same: "same_part base d f g \<Longrightarrow> plain d \<Longrightarrow> of_domain base d p \<Longrightarrow>
    create_error call g p = create_error call f p"
proof -
  assume a: "same_part base d f g" "plain d" "of_domain base d p"
  then have "map_of (fs_tree g) (path_dir p) = map_of (fs_tree f) (path_dir p)"
    using watched_parent by (simp add: same_part_def)
  then have "parent_error (fs_tree g) p = parent_error (fs_tree f) p"
    using missing_same [OF a] by (simp add: parent_error_def split: option.split inode.split)
  then show ?thesis using same_part_own [OF a] same_part_env [OF a(1)]
    by (simp add: create_error_def split: option.split)
qed

lemma has_children_same: "same_part base d f g \<Longrightarrow> plain d \<Longrightarrow> of_domain base d p \<Longrightarrow>
    has_children (fs_tree g) p = has_children (fs_tree f) p"
proof -
  assume a: "same_part base d f g" "plain d" "of_domain base d p"
  have dom: "has_children t p \<longleftrightarrow> (\<exists>q. map_of t q \<noteq> None \<and> q \<noteq> p \<and> path_dir q = p)" for t
    unfolding has_children_def list_ex_iff map_of_eq_None_iff by force
  show ?thesis unfolding dom using a watched_child [OF a(2,3)] unfolding same_part_def by metis
qed

lemma same_part_commit: "same_part base d f g \<Longrightarrow>
    (\<And>q. watched base d q \<Longrightarrow> map_of t q = map_of u q) \<Longrightarrow> same_part base d (commit t f) (commit u g)"
  by (simp add: same_part_def same_env_def)

section \<open>Calls on names of a domain\<close>

text \<open>The history gets longer.\<close>

definition grows :: "fs \<Rightarrow> fs \<Rightarrow> bool" where
  "grows f g \<longleftrightarrow> (\<exists>ts. trees g = ts @ trees f)"

lemma grows_refl [simp]: "grows f f"
  by (simp add: grows_def)

lemma grows_trans: "grows f g \<Longrightarrow> grows g h \<Longrightarrow> grows f h"
  by (auto simp: grows_def)

lemma grows_commit [simp]: "grows f (commit t f)"
  by (simp add: grows_def trees_def)

text \<open>A state on the way of an evolution.\<close>

lemma grows_between:
  assumes "evolves P f h" and "grows f g" and "grows g h" and "P (fs_tree f)"
  shows "P (fs_tree g)"
proof -
  obtain vs where vs: "trees h = vs @ trees f" "\<forall>t\<in>set vs. P t" using assms(1) by (auto simp: evolves_def)
  obtain ts us where ts: "trees g = ts @ trees f" and us: "trees h = us @ trees g"
    using assms(2,3) by (auto simp: grows_def)
  then have "vs = us @ ts" using vs(1) by simp
  moreover have "fs_tree g = hd (ts @ trees f)" unfolding ts [symmetric] by (simp add: trees_def)
  ultimately show ?thesis using vs(2) assms(4) by (cases ts) (auto simp: trees_def)
qed

text \<open>A call of a domain: its result and its effect are determined by the domain's part, nothing
  else is changed, and links keep leading to names of the domain.\<close>

definition own_op :: "string \<Rightarrow> string \<Rightarrow> (fs \<Rightarrow> 'r \<times> fs) \<Rightarrow> bool" where
  "own_op base d op \<longleftrightarrow> (\<forall>f r g. plain d \<longrightarrow> links_inside base d (fs_tree f) \<longrightarrow> op f = (r, g) \<longrightarrow>
     links_inside base d (fs_tree g) \<and> same_env f g \<and> grows f g \<and>
     (\<forall>q. \<not> of_domain base d q \<longrightarrow> map_of (fs_tree g) q = map_of (fs_tree f) q) \<and>
     (\<forall>f'. same_part base d f f' \<longrightarrow> (\<exists>g'. op f' = (r, g') \<and> same_part base d g g')))"

text \<open>Two states with the same part, and the call on both: nothing happens, or the same thing.\<close>

definition own_at :: "string \<Rightarrow> string \<Rightarrow> (fs \<Rightarrow> 'r \<times> fs) \<Rightarrow> fs \<Rightarrow> fs \<Rightarrow> bool" where
  "own_at base d op f f' \<longleftrightarrow> (\<exists>r. op f = (r, f) \<and> op f' = (r, f')) \<or>
    (\<exists>r t t'. op f = (r, commit t f) \<and> op f' = (r, commit t' f') \<and> links_inside base d t \<and>
       (\<forall>q. \<not> of_domain base d q \<longrightarrow> map_of t q = map_of (fs_tree f) q) \<and>
       (\<forall>q. watched base d q \<longrightarrow> map_of t q = map_of t' q))"

lemma own_opI:
  assumes "\<And>f f'. plain d \<Longrightarrow> links_inside base d (fs_tree f) \<Longrightarrow> same_part base d f f' \<Longrightarrow> own_at base d op f f'"
  shows "own_op base d op"
  unfolding own_op_def
proof (intro allI impI)
  fix f r g assume d: "plain d" and l: "links_inside base d (fs_tree f)" and op: "op f = (r, g)"
  have "links_inside base d (fs_tree g) \<and> same_env f g \<and> grows f g \<and>
     (\<forall>q. \<not> of_domain base d q \<longrightarrow> map_of (fs_tree g) q = map_of (fs_tree f) q) \<and>
     (\<exists>g'. op f' = (r, g') \<and> same_part base d g g')" if "same_part base d f f'" for f'
    using assms [OF d l that] op l that unfolding own_at_def
    by (elim disjE exE conjE) (auto intro: same_part_commit)
  then show "links_inside base d (fs_tree g) \<and> same_env f g \<and> grows f g \<and>
     (\<forall>q. \<not> of_domain base d q \<longrightarrow> map_of (fs_tree g) q = map_of (fs_tree f) q) \<and>
     (\<forall>f'. same_part base d f f' \<longrightarrow> (\<exists>g'. op f' = (r, g') \<and> same_part base d g g'))"
    using same_part_refl by blast
qed

lemma own_same: "snd (op f) = f \<Longrightarrow> snd (op f') = f' \<Longrightarrow> fst (op f') = fst (op f) \<Longrightarrow> own_at base d op f f'"
  unfolding own_at_def by (metis prod.collapse)

lemma own_commit:
  assumes "op f = (r, commit t f)" and "op f' = (r, commit t' f')" and "links_inside base d t"
    and "\<And>q. \<not> of_domain base d q \<Longrightarrow> map_of t q = map_of (fs_tree f) q"
    and "\<And>q. watched base d q \<Longrightarrow> map_of t q = map_of t' q"
  shows "own_at base d op f f'"
  using assms unfolding own_at_def by blast

lemma own_update:
  assumes "same_part base d f f'" and "links_inside base d (fs_tree f)" and "of_domain base d p"
    and "\<And>l. n = Symlink l \<Longrightarrow> of_domain base d (link_target p l)"
    and "op f = (r, put p n f)" and "op f' = (r, put p n f')"
  shows "own_at base d op f f'"
  using assms unfolding put_def
  by (intro own_commit [of op f r "AList.update p n (fs_tree f)" f' "AList.update p n (fs_tree f')"])
    (auto simp: map_of_update links_inside_def same_part_def)

lemma own_delete:
  assumes "same_part base d f f'" and "links_inside base d (fs_tree f)" and "of_domain base d p"
    and "op f = (r, commit (AList.delete p (fs_tree f)) f)" and "op f' = (r, commit (AList.delete p (fs_tree f')) f')"
  shows "own_at base d op f f'"
  using assms
  by (intro own_commit [of op f r "AList.delete p (fs_tree f)" f' "AList.delete p (fs_tree f')"])
    (auto simp: map_of_delete links_inside_def same_part_def)

lemma own_stat: "of_domain base d p \<Longrightarrow> own_op base d (\<lambda>f. (os_stat f p, f))"
  proof (rule own_opI)
  fix f f' assume p: "of_domain base d p" and a: "plain d" "links_inside base d (fs_tree f)" "same_part base d f f'"
  show "own_at base d (\<lambda>f. (os_stat f p, f)) f f'"
    using lookup_follow_same [OF a(3,1,2) p] same_part_env [OF a(3)] by (intro own_same) (auto simp: os_stat_def split: option.split)
qed

lemma own_lstat: "of_domain base d p \<Longrightarrow> own_op base d (\<lambda>f. (os_lstat f p, f))"
  proof (rule own_opI)
  fix f f' assume p: "of_domain base d p" and a: "plain d" "links_inside base d (fs_tree f)" "same_part base d f f'"
  show "own_at base d (\<lambda>f. (os_lstat f p, f)) f f'"
    using lookup_same [OF a(3,1) p] same_part_env [OF a(3)] by (intro own_same) (auto simp: os_lstat_def split: option.split)
qed

lemma own_create:
  assumes p: "of_domain base d p" and n: "\<And>f l. n f = Symlink l \<Longrightarrow> of_domain base d (link_target p l)"
    and n_same: "\<And>f f'. same_env f f' \<Longrightarrow> n f' = n f"
  shows "own_op base d (\<lambda>f. case create_error call f p of Some e \<Rightarrow> (Some (err e), f) | None \<Rightarrow> (None, put p (n f) f))"
    (is "own_op base d ?op")
proof (rule own_opI)
  fix f f' assume a: "plain d" "links_inside base d (fs_tree f)" "same_part base d f f'"
  have e: "create_error call f' p = create_error call f p" by (rule create_error_same [OF a(3,1) p])
  have nf: "n f' = n f" using a(3) n_same by (simp add: same_part_def)
  show "own_at base d ?op f f'"
  proof (cases "create_error call f p")
    case None
    then show ?thesis using own_update [OF a(3,2) p, where n = "n f" and op = ?op and r = None] n by (simp add: e nf)
  qed (simp add: own_same e)
qed

lemma own_mkdir: "of_domain base d p \<Longrightarrow> own_op base d (os_mkdir p m)"
  unfolding os_mkdir_def by (rule own_create) (auto simp: same_env_def)

lemma own_create_excl: "of_domain base d p \<Longrightarrow> own_op base d (os_create_excl p m)"
  unfolding os_create_excl_def by (rule own_create) (auto simp: same_env_def)

lemma own_symlink: "of_domain base d p \<Longrightarrow> of_domain base d (link_target p target) \<Longrightarrow> own_op base d (os_symlink target p)"
  unfolding os_symlink_def by (rule own_create) auto

lemma own_chmod: "of_domain base d p \<Longrightarrow> own_op base d (file_chmod p m)"
proof (rule own_opI)
  fix f f' assume p: "of_domain base d p" and a: "plain d" "links_inside base d (fs_tree f)" "same_part base d f f'"
  note eq = same_part_own [OF a(3,1) p] same_part_env [OF a(3)]
  show "own_at base d (file_chmod p m) f f'"
  proof (cases "fs_deny f SChmod p = None \<and> is_reg (map_of (fs_tree f) p)")
    case True
    then obtain m0 t x where "map_of (fs_tree f) p = Some (RegFile m0 t x)" by (auto elim: is_reg.elims)
    then show ?thesis using True eq own_update [OF a(3,2) p, where n = "RegFile m t x" and op = "file_chmod p m" and r = None]
      by (simp add: file_chmod_def)
  qed (use eq in \<open>auto intro!: own_same simp: file_chmod_def split: option.splits inode.splits\<close>)
qed

lemma own_append: 
  assumes p: "of_domain base d p" and a: "plain d" "links_inside base d (fs_tree f)" "same_part base d f f'"
  shows "append_data p x f = f \<and> append_data p x f' = f' \<or>
    (\<exists>n. append_data p x f = put p n f \<and> append_data p x f' = put p n f' \<and> (\<forall>l. n \<noteq> Symlink l))"
  using same_part_own [OF a(3,1) p] same_part_env [OF a(3)]
  by (auto simp: append_data_def split: option.splits inode.splits)

lemma own_write: "of_domain base d p \<Longrightarrow> own_op base d (file_write p x)"
proof (rule own_opI)
  fix f f' assume p: "of_domain base d p" and a: "plain d" "links_inside base d (fs_tree f)" "same_part base d f f'"
  note eq = same_part_env [OF a(3)]
  obtain r y where y: "file_write p x f = (r, append_data p y f)" "file_write p x f' = (r, append_data p y f')"
    using eq by (cases "fs_deny f SWrite p") (auto simp: file_write_def)
  show "own_at base d (file_write p x) f f'"
    using own_append [OF p a, of y]
  proof (elim disjE exE conjE)
    fix n assume "append_data p y f = put p n f" "append_data p y f' = put p n f'" "\<forall>l. n \<noteq> Symlink l"
    then show ?thesis using y own_update [OF a(3,2) p, where n = n and op = "file_write p x" and r = r] by simp
  qed (use y in \<open>auto intro!: own_same\<close>)
qed

lemma own_remove: "of_domain base d p \<Longrightarrow> own_op base d (os_remove p)"
proof (rule own_opI)
  fix f f' assume p: "of_domain base d p" and a: "plain d" "links_inside base d (fs_tree f)" "same_part base d f f'"
  note eq = same_part_own [OF a(3,1) p] same_part_env [OF a(3)] missing_same [OF a(3,1) p] has_children_same [OF a(3,1) p]
  show "own_at base d (os_remove p) f f'"
  proof (cases "\<exists>n. fs_deny f SRemove p = None \<and> map_of (fs_tree f) p = Some n \<and> \<not> (is_dir n \<and> has_children (fs_tree f) p)")
    case True
    then show ?thesis using eq own_delete [OF a(3,2) p, where op = "os_remove p" and r = None]
      by (auto simp: os_remove_def)
  qed (use eq in \<open>auto intro!: own_same simp: os_remove_def split: option.splits\<close>)
qed

text \<open>Renaming within the directory keeps the target of a link.\<close>

lemma own_rename:
  assumes p: "of_domain base d p" "of_domain base d q" and dir: "path_dir q = path_dir p"
  shows "own_op base d (os_rename p q)"
proof (rule own_opI)
  fix f f' assume a: "plain d" "links_inside base d (fs_tree f)" "same_part base d f f'"
  note eq = same_part_own [OF a(3,1) p(1)] same_part_own [OF a(3,1) p(2)] same_part_env [OF a(3)]
    missing_same [OF a(3,1) p(1)] missing_same [OF a(3,1) p(2)]
  have par: "parent_error (fs_tree f') q = parent_error (fs_tree f) q"
    using a watched_parent [OF a(1) p(2)] eq by (simp add: parent_error_def same_part_def split: option.split inode.split)
  let ?ok = "\<exists>n. fs_deny f SRename q = None \<and> map_of (fs_tree f) p = Some n \<and> parent_error (fs_tree f) q = None \<and>
      p \<noteq> q \<and> (\<forall>m t. map_of (fs_tree f) q \<noteq> Some (Directory m t))"
  show "own_at base d (os_rename p q) f f'"
  proof (cases ?ok)
    case True
    then obtain n where n: "map_of (fs_tree f) p = Some n" and ok: ?ok by blast
    let ?t = "\<lambda>f. AList.update q n (AList.delete p (fs_tree f))"
    have "os_rename p q f = (None, commit (?t f) f)" "os_rename p q f' = (None, commit (?t f') f')"
      using ok n eq par by (auto simp: os_rename_def split: option.splits inode.splits)
    moreover have "of_domain base d (link_target q l)" if "n = Symlink l" for l
    proof -
      have "of_domain base d (link_target p l)" using a(2) n p(1) that unfolding links_inside_def by blast
      then show ?thesis unfolding link_target_def dir .
    qed
    then have "links_inside base d (?t f)" using a(2) by (auto simp: links_inside_def map_of_update map_of_delete)
    moreover have "\<forall>x. \<not> of_domain base d x \<longrightarrow> map_of (?t f) x = map_of (fs_tree f) x"
      using p by (auto simp: map_of_update map_of_delete)
    moreover have "\<forall>x. watched base d x \<longrightarrow> map_of (?t f) x = map_of (?t f') x"
      using a(3) by (simp add: map_of_update map_of_delete same_part_def)
    ultimately show ?thesis unfolding own_at_def by blast
  qed (use eq par in \<open>auto intro!: own_same simp: os_rename_def split: option.splits inode.splits\<close>)
qed

end
