(* ===== verification/Steps.thy ===== *)
theory Steps
  imports Main
begin

text \<open>
  Step relations: what an invariant and a measure that every step decreases say of all runs, and,
  where every state that is not final has a step, that a run can only stop when it is done.
\<close>

locale measured_steps =
  fixes step :: "'s \<Rightarrow> 's \<Rightarrow> bool" and inv :: "'s \<Rightarrow> bool" and left :: "'s \<Rightarrow> nat"
  assumes inv_step: "step s t \<Longrightarrow> inv s \<Longrightarrow> inv t"
    and left_step: "step s t \<Longrightarrow> inv s \<Longrightarrow> left t < left s"
begin

lemma after: "(step ^^ k) s t \<Longrightarrow> inv s \<Longrightarrow> inv t \<and> k + left t \<le> left s"
proof (induction k arbitrary: t)
  case (Suc k)
  then obtain u where "(step ^^ k) s u" "step u t" by auto
  with Suc show ?case using inv_step [of u t] left_step [of u t] by fastforce
qed simp

lemma bounded: "(step ^^ k) s t \<Longrightarrow> inv s \<Longrightarrow> k \<le> left s"
  using after by fastforce

text \<open>Every state leads to one without a step.\<close>

lemma stops: "inv s \<Longrightarrow> \<exists>t. step\<^sup>*\<^sup>* s t \<and> (\<forall>u. \<not> step t u)"
proof (induction "left s" arbitrary: s rule: less_induct)
  case less
  show ?case
  proof (cases "\<exists>u. step s u")
    case True
    then obtain u where u: "step s u" by blast
    from less.hyps [OF left_step [OF u less.prems] inv_step [OF u less.prems]]
    show ?thesis using u by (meson converse_rtranclp_into_rtranclp)
  qed blast
qed

end

locale progressing_steps = measured_steps +
  fixes final :: "'s \<Rightarrow> bool"
  assumes progress: "inv s \<Longrightarrow> \<not> final s \<Longrightarrow> \<exists>t. step s t"
begin

lemma final_or_step: "(step ^^ k) s t \<Longrightarrow> inv s \<Longrightarrow> final t \<or> (\<exists>u. step t u)"
  using after progress by blast

lemma reaches_final: "inv s \<Longrightarrow> \<exists>t. step\<^sup>*\<^sup>* s t \<and> final t"
proof -
  assume "inv s"
  then obtain t where t: "step\<^sup>*\<^sup>* s t" "\<forall>u. \<not> step t u" using stops by blast
  have "inv t" using t(1) \<open>inv s\<close> by (induction rule: rtranclp_induct) (auto intro: inv_step)
  with t show ?thesis using progress by blast
qed

end

end
