(* ===== verification/Calls.thy ===== *)
theory Calls
  imports Steps
begin

text \<open>
  Programs as trees of atomic calls.  A program is finished, or it makes one call on the shared
  state and goes on as the result says; \<open>run_prog\<close> makes all its calls in a row.  Where several
  programs share a state, a step is one call of one of them, in any order.  The locale
  \<open>apart_programs\<close> says when such an interleaving cannot be told apart from runs one after the
  other: each program reads and changes its own part of the state only.
\<close>

section \<open>Programs\<close>

datatype ('s, 'a) prog = Ret 'a | Act "'s \<Rightarrow> ('s, 'a) prog \<times> 's"

primrec bind :: "('s, 'a) prog \<Rightarrow> ('a \<Rightarrow> ('s, 'b) prog) \<Rightarrow> ('s, 'b) prog" where
  "bind (Ret a) k = k a"
| "bind (Act f) k = Act (map_prod (\<lambda>p. bind p k) id \<circ> f)"

text \<open>One call of an operation.\<close>

definition call :: "('s \<Rightarrow> 'a \<times> 's) \<Rightarrow> ('s, 'a) prog" where
  "call op = Act (map_prod Ret id \<circ> op)"

primrec run_prog :: "('s, 'a) prog \<Rightarrow> 's \<Rightarrow> 'a \<times> 's" where
  "run_prog (Ret a) = (\<lambda>s. (a, s))"
| "run_prog (Act f) = (\<lambda>(g, s). g s) \<circ> (map_prod run_prog id \<circ> f)"

lemma run_Act: "run_prog (Act f) s = (case f s of (p, t) \<Rightarrow> run_prog p t)"
  by (simp split: prod.splits)

declare run_prog.simps(2) [simp del]
declare run_Act [simp]

lemma prog_induct [case_names Ret Act]:
  assumes "\<And>a. Q (Ret a)" and "\<And>f. (\<And>s p t. f s = (p, t) \<Longrightarrow> Q p) \<Longrightarrow> Q (Act f)"
  shows "Q p"
proof (induction p)
  case (Act f)
  have "Q p" if f: "f s = (p, t)" for s p t
  proof (rule Act.IH)
    show "f s \<in> range f" by simp
    show "p \<in> Basic_BNFs.fsts (f s)" unfolding f by (simp add: Basic_BNFs.fsts.simps)
  qed
  then show ?case by (rule assms(2))
qed (rule assms(1))

lemma run_call [simp]: "run_prog (call op) s = op s"
  by (cases "op s") (simp add: call_def)

lemma run_bind [simp]: "run_prog (bind p k) s = (case run_prog p s of (a, t) \<Rightarrow> run_prog (k a) t)"
proof (induction p arbitrary: s rule: prog_induct)
  case (Act f)
  then show ?case by (cases "f s") simp
qed simp

text \<open>The number of calls a run makes.\<close>

primrec calls :: "('s, 'a) prog \<Rightarrow> 's \<Rightarrow> nat" where
  "calls (Ret a) = (\<lambda>s. 0)"
| "calls (Act f) = (\<lambda>(g, s). Suc (g s)) \<circ> (map_prod calls id \<circ> f)"

lemma calls_Act: "calls (Act f) s = (case f s of (p, t) \<Rightarrow> Suc (calls p t))"
  by (simp split: prod.splits)

declare calls.simps(2) [simp del]
declare calls_Act [simp]

text \<open>One program by itself, call by call.\<close>

inductive alone :: "('s, 'a) prog \<times> 's \<Rightarrow> ('s, 'a) prog \<times> 's \<Rightarrow> bool" where
  alone: "f s = (p, t) \<Longrightarrow> alone (Act f, s) (p, t)"

inductive_cases aloneE: "alone (p, s) (q, t)"

lemma alone_run: "alone\<^sup>*\<^sup>* (p, s) (q, t) \<Longrightarrow> run_prog q t = run_prog p s"
  by (induction rule: converse_rtranclp_induct2) (auto elim: alone.cases)

lemma run_alone: "alone\<^sup>*\<^sup>* (p, s) (Ret (fst (run_prog p s)), snd (run_prog p s))"
proof (induction p arbitrary: s rule: prog_induct)
  case (Act f)
  obtain q t where f: "f s = (q, t)" by fastforce
  then have "alone (Act f, s) (q, t)" by (rule alone.alone)
  moreover have "alone\<^sup>*\<^sup>* (q, t) (Ret (fst (run_prog (Act f) s)), snd (run_prog (Act f) s))"
    using Act [OF f] f by simp
  ultimately show ?case by (rule converse_rtranclp_into_rtranclp)
qed simp

section \<open>Programs with parts of their own\<close>

text \<open>\<open>agree i s t\<close>: the part of the state that belongs to program \<open>i\<close> is the same in \<open>s\<close> and \<open>t\<close>;
  \<open>ok i s\<close>: that part is as the program needs it; \<open>grow s t\<close>: a call may take \<open>s\<close> to \<open>t\<close>, as far as
  its history tells.\<close>

locale apart_programs =
  fixes agree :: "'i \<Rightarrow> 's \<Rightarrow> 's \<Rightarrow> bool" and ok :: "'i \<Rightarrow> 's \<Rightarrow> bool" and grow :: "'s \<Rightarrow> 's \<Rightarrow> bool" and I :: "'i set"
  assumes agree_refl: "agree i s s"
    and agree_trans: "agree i s t \<Longrightarrow> agree i t u \<Longrightarrow> agree i s u"
    and agree_ok: "agree i s t \<Longrightarrow> ok i s \<Longrightarrow> ok i t"
    and grow_refl: "grow s s"
    and grow_trans: "grow s t \<Longrightarrow> grow t u \<Longrightarrow> grow s u"
begin

text \<open>A call of program \<open>i\<close> on its part: its result and what it does to that part depend on that
  part only, and all other parts stay as they are.\<close>

definition own :: "'i \<Rightarrow> ('s \<Rightarrow> 'x \<times> 's) \<Rightarrow> bool" where
  "own i f \<longleftrightarrow> (\<forall>s p t. ok i s \<longrightarrow> f s = (p, t) \<longrightarrow> ok i t \<and> grow s t \<and> (\<forall>j\<in>I - {i}. agree j s t) \<and>
     (\<forall>s'. agree i s s' \<longrightarrow> (\<exists>t'. f s' = (p, t') \<and> agree i t t')))"

lemma ownI:
  assumes "\<And>s p t. ok i s \<Longrightarrow> f s = (p, t) \<Longrightarrow> ok i t \<and> grow s t"
    and "\<And>s p t j. ok i s \<Longrightarrow> f s = (p, t) \<Longrightarrow> j \<in> I \<Longrightarrow> j \<noteq> i \<Longrightarrow> agree j s t"
    and "\<And>s p t s'. ok i s \<Longrightarrow> f s = (p, t) \<Longrightarrow> agree i s s' \<Longrightarrow> \<exists>t'. f s' = (p, t') \<and> agree i t t'"
  shows "own i f"
  using assms unfolding own_def by blast

lemma ownD:
  assumes "own i f" and "ok i s" and "f s = (p, t)"
  shows "ok i t" and "grow s t" and "j \<in> I \<Longrightarrow> j \<noteq> i \<Longrightarrow> agree j s t"
    and "agree i s s' \<Longrightarrow> \<exists>t'. f s' = (p, t') \<and> agree i t t'"
  using assms unfolding own_def by blast+

lemma own_map: "own i f \<Longrightarrow> own i (map_prod g id \<circ> f)"
  unfolding own_def by (force simp: map_prod_def split: prod.splits)

text \<open>A program all of whose calls are its own, and whose result satisfies \<open>Q\<close>.\<close>

inductive confined :: "'i \<Rightarrow> ('a \<Rightarrow> bool) \<Rightarrow> ('s, 'a) prog \<Rightarrow> bool" for i Q where
  confined_Ret: "Q a \<Longrightarrow> confined i Q (Ret a)"
| confined_Act: "own i f \<Longrightarrow> (\<And>s p t. ok i s \<Longrightarrow> f s = (p, t) \<Longrightarrow> confined i Q p) \<Longrightarrow> confined i Q (Act f)"

inductive_simps confined_Ret_iff: "confined i Q (Ret a)"
inductive_cases confined_ActE: "confined i Q (Act f)"

lemma confined_call:
  "own i op \<Longrightarrow> (\<And>s a t. ok i s \<Longrightarrow> op s = (a, t) \<Longrightarrow> Q a) \<Longrightarrow> confined i Q (call op)"
  unfolding call_def
  by (rule confined_Act [OF own_map]) (auto simp: map_prod_def intro: confined_Ret split: prod.splits)

lemma confined_bind:
  "confined i Q p \<Longrightarrow> (\<And>a. Q a \<Longrightarrow> confined i R (k a)) \<Longrightarrow> confined i R (bind p k)"
proof (induction rule: confined.induct)
  case (confined_Act f)
  have "own i (map_prod (\<lambda>p. bind p k) id \<circ> f)" by (rule own_map [OF confined_Act.hyps(1)])
  then show ?case using confined_Act.IH [OF _ _ confined_Act.prems]
    by (auto intro!: confined.confined_Act simp: map_prod_def split: prod.splits)
qed simp

lemma confined_mono: "confined i Q p \<Longrightarrow> (\<And>a. Q a \<Longrightarrow> R a) \<Longrightarrow> confined i R p"
  by (induction rule: confined.induct) (auto intro: confined.intros)

lemma calls_agree: "confined i Q p \<Longrightarrow> ok i s \<Longrightarrow> agree i s t \<Longrightarrow> calls p s = calls p t"
proof (induction arbitrary: s t rule: confined.induct)
  case (confined_Act f)
  obtain q s' where f: "f s = (q, s')" by fastforce
  note own = ownD [OF confined_Act.hyps(1) confined_Act.prems(1) f]
  obtain t' where t': "f t = (q, t')" "agree i s' t'" using own(4) confined_Act.prems(2) by blast
  show ?case using confined_Act.IH [OF confined_Act.prems(1) f own(1) t'(2)] f t'(1) by simp
qed simp

lemma alone_confined:
  "alone\<^sup>*\<^sup>* (p, s) (q, t) \<Longrightarrow> confined i Q p \<Longrightarrow> ok i s \<Longrightarrow> confined i Q q \<and> ok i t \<and> grow s t"
proof (induction rule: rtranclp_induct2)
  case (step p' s' q t)
  then obtain f where f: "p' = Act f" "f s' = (q, t)" by (auto elim: alone.cases)
  have "confined i Q (Act f)" and s': "ok i s'" and g: "grow s s'" using step f(1) by auto
  then have o: "own i f" and q: "confined i Q q" using f(2) by (auto elim: confined_ActE)
  show ?case using q ownD(1,2) [OF o s' f(2)] grow_trans [OF g] by blast
qed (simp add: grow_refl)

text \<open>The state of several programs: each is where it would be after running by itself from the
  start, as far as its part of the state tells.\<close>

definition tracks :: "('i \<Rightarrow> 'a \<Rightarrow> bool) \<Rightarrow> ('i \<Rightarrow> ('s, 'a) prog) \<Rightarrow> 's \<Rightarrow> ('i \<Rightarrow> ('s, 'a) prog) \<Rightarrow> 's \<Rightarrow> bool" where
  "tracks Q P0 s0 P s \<longleftrightarrow> (\<forall>i\<in>I. ok i s \<and> confined i (Q i) (P i) \<and>
     (\<exists>si. alone\<^sup>*\<^sup>* (P0 i, s0) (P i, si) \<and> ok i si \<and> agree i si s))"

lemma tracks_start: "(\<And>i. i \<in> I \<Longrightarrow> ok i s \<and> confined i (Q i) (P i)) \<Longrightarrow> tracks Q P s P s"
  unfolding tracks_def using agree_refl by blast

lemma tracks_silent: "tracks Q P0 s0 P s \<Longrightarrow> (\<And>i. i \<in> I \<Longrightarrow> agree i s t) \<Longrightarrow> tracks Q P0 s0 P t"
  unfolding tracks_def using agree_ok agree_trans by meson

lemma tracks_call:
  assumes tr: "tracks Q P0 s0 P s" and i: "i \<in> I" and f: "P i = Act f" "f s = (p, t)"
  shows "tracks Q P0 s0 (P(i := p)) t"
  unfolding tracks_def
proof
  fix j assume j: "j \<in> I"
  have i_ok: "ok i s" and conf: "confined i (Q i) (Act f)" using tr i f(1) by (auto simp: tracks_def)
  then have o: "own i f" and p: "confined i (Q i) p" using f(2) by (auto elim: confined_ActE)
  obtain sj where sj: "alone\<^sup>*\<^sup>* (P0 j, s0) (P j, sj)" "ok j sj" "agree j sj s"
    and j_ok: "ok j s" "confined j (Q j) (P j)"
    using tr j by (auto simp: tracks_def)
  show "ok j t \<and> confined j (Q j) ((P(i := p)) j) \<and>
      (\<exists>si. alone\<^sup>*\<^sup>* (P0 j, s0) ((P(i := p)) j, si) \<and> ok j si \<and> agree j si t)"
  proof (cases "j = i")
    case False
    then have st: "agree j s t" using ownD(3) [OF o i_ok f(2)] j by blast
    have "agree j sj t" by (rule agree_trans [OF sj(3) st])
    moreover have "ok j t" by (rule agree_ok [OF st j_ok(1)])
    moreover have "(P(i := p)) j = P j" using False by simp
    ultimately show ?thesis using sj(1,2) j_ok(2) by metis
  next
    case True
    obtain q u where u: "f sj = (q, u)" by fastforce
    have sji: "ok i sj" "agree i sj s" using sj True by simp_all
    obtain t' where "f s = (q, t')" "agree i u t'" using ownD(4) [OF o sji(1) u sji(2)] by blast
    then have u': "f sj = (p, u)" "agree i u t" using u f(2) by simp_all
    have "alone (P i, sj) (p, u)" unfolding f(1) by (rule alone.alone) (rule u'(1))
    then have "alone\<^sup>*\<^sup>* (P0 i, s0) (p, u)" using sj(1) True by (auto intro: rtranclp.rtrancl_into_rtrancl)
    moreover have "ok i u" by (rule ownD(1) [OF o sji(1) u])
    moreover have "ok i t" by (rule ownD(1) [OF o i_ok f(2)])
    moreover have "(P(i := p)) i = p" by simp
    ultimately show ?thesis unfolding True using p u'(2) by metis
  qed
qed

text \<open>A finished program has the result it would have had by itself.\<close>

lemma tracks_Ret:
  assumes "tracks Q P0 s0 P s" and "i \<in> I" and "P i = Ret a"
  shows "\<exists>u. run_prog (P0 i) s0 = (a, u) \<and> agree i u s \<and> Q i a"
proof -
  obtain u where u: "alone\<^sup>*\<^sup>* (P0 i, s0) (Ret a, u)" "agree i u s" "confined i (Q i) (Ret a)"
    using assms by (auto simp: tracks_def)
  then have "run_prog (P0 i) s0 = (a, u)" using alone_run [OF u(1)] by simp
  then show ?thesis using u by (auto simp: confined_Ret_iff)
qed

text \<open>What is left to do, in calls.\<close>

definition calls_left :: "('i \<Rightarrow> ('s, 'a) prog) \<Rightarrow> 's \<Rightarrow> nat" where
  "calls_left P s = (\<Sum>i\<in>I. calls (P i) s)"

lemma calls_left_silent:
  "tracks Q P0 s0 P s \<Longrightarrow> (\<And>i. i \<in> I \<Longrightarrow> agree i s t) \<Longrightarrow> calls_left P t = calls_left P s"
  unfolding calls_left_def tracks_def using calls_agree by (intro sum.cong) fastforce+

lemma calls_left_call:
  assumes tr: "tracks Q P0 s0 P s" and fin: "finite I" and i: "i \<in> I" and f: "P i = Act f" "f s = (p, t)"
  shows "calls_left P s = Suc (calls_left (P(i := p)) t)"
proof -
  have i_ok: "ok i s" and conf: "confined i (Q i) (Act f)" using tr i f(1) by (auto simp: tracks_def)
  from conf have o: "own i f" by (rule confined_ActE)
  have "calls (P j) s = calls (P j) t" if "j \<in> I - {i}" for j
  proof (rule calls_agree)
    show "confined j (Q j) (P j)" "ok j s" using that tr by (auto simp: tracks_def)
    show "agree j s t" using that ownD(3) [OF o i_ok f(2)] by blast
  qed
  then have "(\<Sum>j\<in>I - {i}. calls (P j) s) = (\<Sum>j\<in>I - {i}. calls ((P(i := p)) j) t)"
    by (intro sum.cong) auto
  moreover have "calls (P i) s = Suc (calls p t)" using f by simp
  ultimately show ?thesis using fin i by (simp add: calls_left_def sum.remove)
qed

end

end
