(* ===== verification/ExecCalls.thy ===== *)
theory ExecCalls
  imports Calls Execute
begin

text \<open>
  \<open>Req.Execute\<close> once more, call by call: the programs of this theory make one system call, one
  line of the log or one request at a time, so that other goroutines can come in between at any
  of these points.  Run in a row the calls do what \<open>Execute\<close> does.
\<close>

section \<open>Calls on the world\<close>

definition sys :: "(fs \<Rightarrow> 'a \<times> fs) \<Rightarrow> (world, 'a) prog" where
  "sys op = call (on_fs op)"

definition ask :: "(fs \<Rightarrow> 'a) \<Rightarrow> (world, 'a) prog" where
  "ask g = sys (\<lambda>f. (g f, f))"

definition note_line :: "string \<Rightarrow> (world, unit) prog" where
  "note_line t = call (\<lambda>w. ((), say t w))"

lemma run_sys [simp]: "run_prog (sys op) w = on_fs op w"
  by (simp add: sys_def)

lemma run_ask [simp]: "run_prog (ask g) w = (g (w_fs w), w)"
  by (simp add: ask_def on_fs_def)

lemma run_note_line [simp]: "run_prog (note_line t) w = ((), say t w)"
  by (simp add: note_line_def)

section \<open>The functions, call by call\<close>

definition Mkdir_calls :: "string \<Rightarrow> (world, go_error option) prog" where
  "Mkdir_calls dir = bind (sys (os_mkdir dir 511)) (\<lambda>r. case r of
      None \<Rightarrow> Ret None
    | Some err \<Rightarrow>
        (if os_is_exist err then
           bind (ask (\<lambda>f. os_lstat f dir)) (\<lambda>st. case st of
               Inl err2 \<Rightarrow> Ret (Some err2)
             | Inr stat \<Rightarrow> Ret (if is_dir stat then None else Some err))
         else Ret (Some err)))"

definition writeFile_calls :: "string \<Rightarrow> string \<Rightarrow> bool \<Rightarrow> (world, go_error option) prog" where
  "writeFile_calls name data private =
     (let mode = (if private then 384 else 420) in
      bind (Mkdir_calls (path_dir name)) (\<lambda>r1. case r1 of Some err \<Rightarrow> Ret (Some err)
      | None \<Rightarrow> bind (sys (os_create_excl name mode)) (\<lambda>r2. case r2 of Some err \<Rightarrow> Ret (Some err)
      | None \<Rightarrow> bind (sys (file_chmod name mode)) (\<lambda>r3. case r3 of Some err \<Rightarrow> Ret (Some err)
      | None \<Rightarrow> sys (file_write name data)))))"

definition replaceSymlink_calls :: "string \<Rightarrow> string \<Rightarrow> (world, go_error option) prog" where
  "replaceSymlink_calls name target =
     bind (sys (os_remove (tmp_name name))) (\<lambda>_.
     bind (sys (os_symlink target (tmp_name name))) (\<lambda>r. case r of Some err \<Rightarrow> Ret (Some err)
     | None \<Rightarrow> sys (os_rename (tmp_name name) name)))"

definition publish_calls :: "bool \<Rightarrow> string \<Rightarrow> string \<Rightarrow> (world, go_error option) prog" where
  "publish_calls symlinks name dated =
     (if symlinks then replaceSymlink_calls name (path_base dated) else sys (os_rename dated name))"

text \<open>The first loop: look at the local file, send the request, read the reply.\<close>

definition fetch_one_calls :: "exec_env \<Rightarrow> cert_item \<Rightarrow> (world, go_error + cert_item) prog" where
  "fetch_one_calls env item0 =
     bind (ask (\<lambda>f. with_ims env f item0)) (\<lambda>item.
     bind (note_line (''Requesting '' @ request_url item @ '' ims:'' @
        request_header_get (ci_remote item) ''If-Modified-Since'')) (\<lambda>_.
     case ex_do env (ci_remote item) of
       Inl err \<Rightarrow> Ret (Inl (redactRequestError (ex_ip6 env) err))
     | Inr resp \<Rightarrow>
         (if rp_code resp = 200 then
            (case rp_body resp of (d, Some err) \<Rightarrow> Ret (Inl err) | (d, None) \<Rightarrow> Ret (Inr (item\<lparr>ci_data := d\<rparr>)))
          else if rp_code resp = 304 then bind (note_line (rp_status resp)) (\<lambda>_. Ret (Inr item))
          else Ret (Inl (Msg (request_url item @ '': '' @ rp_status resp))))))"

fun fetch_calls :: "exec_env \<Rightarrow> cert_item list \<Rightarrow> (world, go_error + cert_item list) prog" where
  "fetch_calls env [] = Ret (Inr [])"
| "fetch_calls env (item # items) =
     bind (fetch_one_calls env item) (\<lambda>r. case r of Inl err \<Rightarrow> Ret (Inl err)
     | Inr it \<Rightarrow> bind (fetch_calls env items) (\<lambda>rs. case rs of Inl err \<Rightarrow> Ret (Inl err)
     | Inr its \<Rightarrow> Ret (Inr (it # its))))"

fun write_calls :: "string \<Rightarrow> cert_item list \<Rightarrow> infixed \<Rightarrow> (world, (go_error + infixed) outcome) prog" where
  "write_calls stamp [] inx = Ret (Returned (Inr inx))"
| "write_calls stamp (item # items) inx =
     (if ci_data item = [] then write_calls stamp items inx
      else bind (note_line (''Write '' @ ci_local item)) (\<lambda>_.
        case infixed_name stamp (ci_local item) of
          Panicked m \<Rightarrow> Ret (Panicked m)
        | Returned n \<Rightarrow>
            bind (writeFile_calls n (ci_data item) (ci_private item)) (\<lambda>r. case r of
              Some err \<Rightarrow> bind (sys (os_remove n)) (\<lambda>_. Ret (Returned (Inl err)))
            | None \<Rightarrow> write_calls stamp items (AList.update (ci_local item) n inx))))"

fun link_calls :: "bool \<Rightarrow> infixed \<Rightarrow> string list \<Rightarrow> (world, go_error option) prog" where
  "link_calls symlinks inx [] = Ret None"
| "link_calls symlinks inx (name # names) =
     bind (publish_calls symlinks name (infixed_of inx name)) (\<lambda>r. case r of
       Some err \<Rightarrow> Ret (Some err) | None \<Rightarrow> link_calls symlinks inx names)"

text \<open>The file part of \<open>Execute\<close>: all of it up to the hook, with the fetched items.\<close>

definition files_calls :: "exec_env \<Rightarrow> cert_req \<Rightarrow> (world, (go_error + cert_item list) outcome) prog" where
  "files_calls env req =
     bind (fetch_calls env (req_items req)) (\<lambda>r. case r of Inl err \<Rightarrow> Ret (Returned (Inl err))
     | Inr items \<Rightarrow>
       bind (write_calls (format_int (ex_write_time env)) items []) (\<lambda>r. case r of
         Panicked m \<Rightarrow> Ret (Panicked m)
       | Returned (Inl err) \<Rightarrow> Ret (Returned (Inl err))
       | Returned (Inr inx) \<Rightarrow>
         bind (link_calls (ex_use_symlink env) inx (ex_order env (map fst inx))) (\<lambda>r. case r of
           Some err \<Rightarrow> Ret (Returned (Inl err))
         | None \<Rightarrow> Ret (Returned (Inr items)))))"

section \<open>In a row\<close>

text \<open>What \<open>Execute\<close> still does when the file part is done.\<close>

definition after_files :: "exec_env \<Rightarrow> cert_req \<Rightarrow> (go_error + cert_item list) outcome \<Rightarrow> world \<Rightarrow>
    go_error option outcome \<times> world" where
  "after_files env req r w = (case r of
       Panicked m \<Rightarrow> (Panicked m, w)
     | Returned (Inl err) \<Rightarrow> (Returned (Some err), w)
     | Returned (Inr items) \<Rightarrow> (case run_hook env req items w of (h, w') \<Rightarrow> (Returned h, w')))"

lemma on_fs_on_fs: "on_fs op w = (r, w') \<Longrightarrow> w_log w' = w_log w"
  by (auto simp: on_fs_def split: prod.splits)

lemma run_Mkdir: "run_prog (Mkdir_calls dir) w = on_fs (Mkdir dir) w"
  by (auto simp: Mkdir_calls_def Mkdir_def on_fs_def split: prod.splits option.splits sum.splits)

lemma run_writeFile: "run_prog (writeFile_calls name x private) w = on_fs (writeFile name x private) w"
  by (auto simp: writeFile_calls_def writeFile_def run_Mkdir Let_def on_fs_def split: prod.splits option.splits)

lemma run_publish: "run_prog (publish_calls symlinks name dated) w = on_fs (publish_name symlinks name dated) w"
  by (auto simp: publish_calls_def publish_name_def replaceSymlink_calls_def replaceSymlink_def Let_def on_fs_def
      split: prod.splits option.splits)

lemma run_fetch_one: "run_prog (fetch_one_calls env item) w = fetch_one env item w"
  by (auto simp: fetch_one_calls_def fetch_one_def Let_def split: prod.splits option.splits sum.splits)

lemma run_fetch: "run_prog (fetch_calls env items) w = fetch_items env items w"
  by (induction items arbitrary: w) (auto simp: run_fetch_one split: prod.splits sum.splits)

lemma run_write: "run_prog (write_calls stamp items inx) w = write_items stamp items inx w"
  by (induction items arbitrary: inx w)
    (auto simp: run_writeFile Let_def split: prod.splits option.splits outcome.splits)

lemma run_link: "run_prog (link_calls symlinks inx names) w = on_fs (link_items (publish_name symlinks) inx names) w"
proof (induction names arbitrary: w)
  case (Cons n ns)
  then show ?case by (auto simp: run_publish on_fs_def split: prod.splits option.splits)
qed (simp add: on_fs_def)

lemma run_files: "Execute env req w = (case run_prog (files_calls env req) w of (r, w') \<Rightarrow> after_files env req r w')"
  by (auto simp: Execute_def files_calls_def after_files_def run_fetch run_write run_link
      split: prod.splits option.splits sum.splits outcome.splits)

section \<open>Properties\<close>


end
