(* ===== verification/Confined.thy ===== *)
theory Confined
  imports Parts ExecCalls
begin

text \<open>
  The file part of a request, call by call, is confined to the directory of its domain: a
  derivation along the structure of the programs of \<open>ExecCalls\<close> from the calls of \<open>Parts\<close>.
\<close>

section \<open>The interpretation\<close>

interpretation parts: apart_programs
    "\<lambda>r (v :: world) w. same_part base (req_domain r) (w_fs v) (w_fs w)"
    "\<lambda>r (w :: world). plain (req_domain r) \<and> links_inside base (req_domain r) (fs_tree (w_fs w))"
    "\<lambda>v w. grows (w_fs v) (w_fs w)" "set reqs" for base reqs
  by unfold_locales (auto intro: same_part_trans same_part_links grows_trans)

text \<open>No two requests are for the same domain.\<close>

definition lone :: "cert_req list \<Rightarrow> cert_req \<Rightarrow> bool" where
  "lone reqs r \<longleftrightarrow> (\<forall>q\<in>set reqs. q \<noteq> r \<longrightarrow> req_domain q \<noteq> req_domain r)"

lemma own_on_fs:
  assumes op: "own_op base (req_domain r) op" and r: "lone reqs r"
  shows "parts.own base reqs r (on_fs op)"
proof (rule parts.ownI)
  fix w a w'
  assume w: "plain (req_domain r) \<and> links_inside base (req_domain r) (fs_tree (w_fs w))" and run: "on_fs op w = (a, w')"
  have f: "op (w_fs w) = (a, w_fs w')" by (rule on_fsE [OF run])
  note eff = op [unfolded own_op_def, rule_format, OF conjunct1 [OF w] conjunct2 [OF w] f]
  show "(plain (req_domain r) \<and> links_inside base (req_domain r) (fs_tree (w_fs w'))) \<and> grows (w_fs w) (w_fs w')" using w eff by blast
  fix q assume "q \<in> set reqs" "q \<noteq> r"
  then have "req_domain q \<noteq> req_domain r" using r by (simp add: lone_def)
  then show "same_part base (req_domain q) (w_fs w) (w_fs w')"
    using eff w not_watched [of "req_domain r" base _ "req_domain q"] unfolding same_part_def by metis
next
  fix w a w' and v :: world
  assume w: "plain (req_domain r) \<and> links_inside base (req_domain r) (fs_tree (w_fs w))" and run: "on_fs op w = (a, w')"
    and v: "same_part base (req_domain r) (w_fs w) (w_fs v)"
  have f: "op (w_fs w) = (a, w_fs w')" by (rule on_fsE [OF run])
  obtain g where "op (w_fs v) = (a, g)" "same_part base (req_domain r) (w_fs w') g"
    using op [unfolded own_op_def, rule_format, OF conjunct1 [OF w] conjunct2 [OF w] f] v by blast
  then show "\<exists>v'. on_fs op v = (a, v') \<and> same_part base (req_domain r) (w_fs w') (w_fs v')"
    by (auto simp: on_fs_def)
qed

abbreviation confined where
  "confined base reqs r Q p \<equiv> parts.confined base reqs r Q p"

lemma confined_sys: "own_op base (req_domain r) op \<Longrightarrow> lone reqs r \<Longrightarrow> (\<And>f a g. op f = (a, g) \<Longrightarrow> Q a) \<Longrightarrow>
    confined base reqs r Q (sys op)"
  unfolding sys_def by (intro parts.confined_call own_on_fs) (auto dest: on_fsE)

lemma confined_note: "confined base reqs r (\<lambda>_. True) (note_line t)"
  unfolding note_line_def by (rule parts.confined_call) (auto intro: parts.ownI)

lemmas confined_bind = parts.confined_bind
lemmas confined_Ret = parts.confined_Ret

lemma own_with_ims:
  assumes p: "of_domain base d (ci_local item)"
  shows "own_op base d (\<lambda>f. (with_ims env f item, f))"
proof (rule own_opI)
  fix f f' assume "plain d" "links_inside base d (fs_tree f)" "same_part base d f f'"
  then have "os_stat f' (ci_local item) = os_stat f (ci_local item)"
    using own_stat [OF p] unfolding own_op_def by blast
  then show "own_at base d (\<lambda>f. (with_ims env f item, f)) f f'"
    by (intro own_same) (simp_all add: with_ims_def)
qed

lemma confined_fetch_one:
  assumes "of_domain base (req_domain r) (ci_local item)" and "lone reqs r"
  shows "confined base reqs r (\<lambda>x. \<forall>it. x = Inr it \<longrightarrow> same_item item it) (fetch_one_calls env item)"
  unfolding fetch_one_calls_def
proof (rule confined_bind)
  show "confined base reqs r (same_item item) (ask (\<lambda>f. with_ims env f item))"
    unfolding ask_def by (rule confined_sys [OF own_with_ims [OF assms(1)] assms(2)])
      (auto simp: with_ims_same)
  fix it assume "same_item item it"
  then show "confined base reqs r (\<lambda>x. \<forall>it. x = Inr it \<longrightarrow> same_item item it)
     (bind (note_line (''Requesting '' @ request_url it @ '' ims:'' @
        request_header_get (ci_remote it) ''If-Modified-Since'')) (\<lambda>_.
     case ex_do env (ci_remote it) of
       Inl err \<Rightarrow> Ret (Inl (redactRequestError (ex_ip6 env) err))
     | Inr resp \<Rightarrow>
         (if rp_code resp = 200 then
            (case rp_body resp of (d, Some err) \<Rightarrow> Ret (Inl err) | (d, None) \<Rightarrow> Ret (Inr (it\<lparr>ci_data := d\<rparr>)))
          else if rp_code resp = 304 then bind (note_line (rp_status resp)) (\<lambda>_. Ret (Inr it))
          else Ret (Inl (Msg (request_url it @ '': '' @ rp_status resp))))))"
    by (intro confined_bind [OF confined_note])
      (auto intro!: confined_Ret confined_bind [OF confined_note] simp: same_item_def split: sum.split prod.split option.split)
qed

lemma confined_fetch:
  assumes "lone reqs r"
  shows "\<forall>i\<in>set items. of_domain base (req_domain r) (ci_local i) \<Longrightarrow>
    confined base reqs r (\<lambda>x. \<forall>its. x = Inr its \<longrightarrow> list_all2 same_item items its) (fetch_calls env items)"
proof (induction items)
  case (Cons item items)
  show ?case unfolding fetch_calls.simps
  proof (rule confined_bind [OF confined_fetch_one [OF _ assms]])
    show "of_domain base (req_domain r) (ci_local item)" using Cons.prems by simp
    fix x :: "go_error + cert_item" assume x: "\<forall>it. x = Inr it \<longrightarrow> same_item item it"
    show "confined base reqs r (\<lambda>x. \<forall>its. x = Inr its \<longrightarrow> list_all2 same_item (item # items) its)
      (case x :: go_error + cert_item of Inl err \<Rightarrow> Ret (Inl err)
       | Inr it \<Rightarrow> bind (fetch_calls env items) (\<lambda>rs. case rs of Inl err \<Rightarrow> Ret (Inl err) | Inr its \<Rightarrow> Ret (Inr (it # its))))"
      using Cons x by (cases x) (auto intro!: confined_Ret confined_bind [OF Cons.IH] split: sum.splits)
  qed
qed (simp add: confined_Ret)

text \<open>Writing one file and switching one name.\<close>

lemma confined_Mkdir: "of_domain base (req_domain r) p \<Longrightarrow> lone reqs r \<Longrightarrow> confined base reqs r (\<lambda>_. True) (Mkdir_calls p)"
  unfolding Mkdir_calls_def ask_def
  by (intro confined_bind [OF confined_sys [OF own_mkdir, where Q = "\<lambda>_. True"]])
    (auto intro!: confined_Ret confined_bind [OF confined_sys [OF own_lstat, where Q = "\<lambda>_. True"]] split: option.split sum.split)

lemma confined_writeFile:
  assumes p: "of_domain base (req_domain r) p" "of_domain base (req_domain r) (path_dir p)" and r: "lone reqs r"
  shows "confined base reqs r (\<lambda>_. True) (writeFile_calls p x private)"
proof -
  note step = confined_bind [OF confined_sys [where Q = "\<lambda>_. True"]]
  have "confined base reqs r (\<lambda>_. True) (sys (file_write p x))"
    by (rule confined_sys [OF own_write [OF p(1)] r]) simp
  then have "confined base reqs r (\<lambda>_. True)
      (bind (sys (file_chmod p m)) (\<lambda>r3. case r3 of Some err \<Rightarrow> Ret (Some err) | None \<Rightarrow> sys (file_write p x)))" for m
    by (intro step [OF own_chmod [OF p(1)] r]) (auto intro: confined_Ret split: option.split)
  then have "confined base reqs r (\<lambda>_. True)
      (bind (sys (os_create_excl p m)) (\<lambda>r2. case r2 of Some err \<Rightarrow> Ret (Some err)
        | None \<Rightarrow> bind (sys (file_chmod p m)) (\<lambda>r3. case r3 of Some err \<Rightarrow> Ret (Some err) | None \<Rightarrow> sys (file_write p x))))" for m
    by (intro step [OF own_create_excl [OF p(1)] r]) (auto intro: confined_Ret split: option.split)
  then show ?thesis
    unfolding writeFile_calls_def Let_def
    by (intro confined_bind [OF confined_Mkdir [OF p(2) r]]) (auto intro: confined_Ret split: option.split)
qed

lemma placed_in_domain:
  assumes "plain d" and "item_placed base d i" and "stamp_ok s"
  shows "of_domain base d (path_dir (dated_name s base d i))"
    and "path_dir (ci_local i) = path_below base [d]" "path_dir (tmp_name (ci_local i)) = path_below base [d]"
    and "link_target (tmp_name (ci_local i)) (path_base (dated_name s base d i)) = dated_name s base d i"
proof -
  have l: "ci_local i = in_domain base d (current_file (ci_role i))"
    using assms(2) by (simp add: item_placed_def in_domain_def)
  show "of_domain base d (path_dir (dated_name s base d i))"
    using dated_dir(1) [OF assms(1,3)] by (simp add: of_domain_def)
  show "path_dir (ci_local i) = path_below base [d]" "path_dir (tmp_name (ci_local i)) = path_below base [d]"
    unfolding l in_domain_tmp by (rule dir_in_domain [OF assms(1) current_plain]) (rule dir_in_domain [OF assms(1) tmp_plain])
  then show "link_target (tmp_name (ci_local i)) (path_base (dated_name s base d i)) = dated_name s base d i"
    using dated_link [OF assms(1,3,2)] unfolding link_target_def by metis
qed

lemma confined_publish:
  assumes d: "plain (req_domain r)" and i: "item_placed base (req_domain r) i" and s: "stamp_ok s" and r: "lone reqs r"
  shows "confined base reqs r (\<lambda>_. True) (publish_calls symlinks (ci_local i) (dated_name s base (req_domain r) i))"
proof -
  let ?d = "req_domain r"
  note own = of_domain_files [OF d i s] and names = placed_in_domain [OF d i s]
  have dir: "path_dir (dated_name s base ?d i) = path_below base [?d]" by (rule dated_dir(1) [OF d s])
  note step = confined_bind [OF confined_sys [where Q = "\<lambda>_. True"]]
  have "own_op base ?d (os_rename (tmp_name (ci_local i)) (ci_local i))"
    by (rule own_rename [OF own(2,1)]) (simp add: names(2,3))
  then have rename: "confined base reqs r (\<lambda>_. True) (sys (os_rename (tmp_name (ci_local i)) (ci_local i)))"
    by (rule confined_sys [OF _ r]) simp
  have "own_op base ?d (os_symlink (path_base (dated_name s base ?d i)) (tmp_name (ci_local i)))"
    by (rule own_symlink [OF own(2)]) (simp only: names(4) own(3))
  then have "confined base reqs r (\<lambda>_. True) (replaceSymlink_calls (ci_local i) (path_base (dated_name s base ?d i)))"
    unfolding replaceSymlink_calls_def using rename
    by (intro step [OF own_remove [OF own(2)] r] step [OF _ r]) (auto intro: confined_Ret split: option.split)
  moreover have "own_op base ?d (os_rename (dated_name s base ?d i) (ci_local i))"
    by (rule own_rename [OF own(3,1)]) (simp add: names(2) dir)
  then have "confined base reqs r (\<lambda>_. True) (sys (os_rename (dated_name s base ?d i) (ci_local i)))"
    by (rule confined_sys [OF _ r]) simp
  ultimately show ?thesis by (simp add: publish_calls_def)
qed

text \<open>The loops.  The table maps current names of the domain to their dated names.\<close>

definition table_ok :: "string \<Rightarrow> string \<Rightarrow> string \<Rightarrow> infixed \<Rightarrow> bool" where
  "table_ok s base d inx \<longleftrightarrow> (\<forall>(n, t)\<in>set inx. \<exists>i. item_placed base d i \<and> n = ci_local i \<and> t = dated_name s base d i)"

lemma table_ok_update:
  "table_ok s base d inx \<Longrightarrow> item_placed base d i \<Longrightarrow> table_ok s base d (AList.update (ci_local i) (dated_name s base d i) inx)"
proof -
  assume t: "table_ok s base d inx" and i: "item_placed base d i"
  have "set (AList.update k v al) \<subseteq> insert (k, v) (set al)" for k v and al :: infixed
    by (induction al) auto
  then show ?thesis using t i unfolding table_ok_def by fastforce
qed

lemma confined_write:
  assumes d: "plain (req_domain r)" and s: "stamp_ok s" and r: "lone reqs r"
  shows "list_all (item_placed base (req_domain r)) items \<Longrightarrow> table_ok s base (req_domain r) inx \<Longrightarrow>
    confined base reqs r (\<lambda>x. \<exists>y. x = Returned y \<and> (\<forall>inx. y = Inr inx \<longrightarrow> table_ok s base (req_domain r) inx)) (write_calls s items inx)"
proof (induction items arbitrary: inx)
  case (Cons i items)
  let ?n = "dated_name s base (req_domain r) i"
  have i: "item_placed base (req_domain r) i" and rest: "list_all (item_placed base (req_domain r)) items"
    using Cons.prems(1) by simp_all
  note own = of_domain_files(3) [OF d i s] and dir = placed_in_domain(1) [OF d i s]
  have remove: "confined base reqs r (\<lambda>x. \<exists>y. x = Returned y \<and> (\<forall>inx. y = Inr inx \<longrightarrow> table_ok s base (req_domain r) inx))
     (bind (sys (os_remove ?n)) (\<lambda>_. Ret (Returned (Inl err))))" for err
    by (rule confined_bind [OF confined_sys [OF own_remove [OF own] r, where Q = "\<lambda>_. True"]]) (auto intro: confined_Ret)
  show ?case
  proof (cases "ci_data i = []")
    case False
    have "confined base reqs r (\<lambda>x. \<exists>y. x = Returned y \<and> (\<forall>inx. y = Inr inx \<longrightarrow> table_ok s base (req_domain r) inx))
      (bind (writeFile_calls ?n (ci_data i) (ci_private i)) (\<lambda>x. case x of
              Some err \<Rightarrow> bind (sys (os_remove ?n)) (\<lambda>_. Ret (Returned (Inl err)))
            | None \<Rightarrow> write_calls s items (AList.update (ci_local i) ?n inx)))"
      using remove Cons.IH [OF rest table_ok_update [OF Cons.prems(2) i]]
      by (intro confined_bind [OF confined_writeFile [OF own dir r]]) (auto split: option.split)
    then show ?thesis
      using False placed_names [OF i, of s] by (auto intro!: confined_bind [OF confined_note])
  qed (use Cons.IH [OF rest Cons.prems(2)] in simp)
qed (auto intro: confined_Ret)

lemma confined_link:
  assumes d: "plain (req_domain r)" and s: "stamp_ok s" and r: "lone reqs r" and inx: "table_ok s base (req_domain r) inx"
  shows "set ns \<subseteq> fst ` set inx \<Longrightarrow> confined base reqs r (\<lambda>_. True) (link_calls symlinks inx ns)"
proof (induction ns)
  case (Cons n ns)
  then obtain t where "map_of inx n = Some t" by (metis insert_subset list.simps(15) map_of_eq_None_iff option.exhaust)
  then have t: "infixed_of inx n = t" "(n, t) \<in> set inx" by (simp_all add: infixed_of_def map_of_SomeD)
  then obtain i where i: "item_placed base (req_domain r) i" "n = ci_local i" "t = dated_name s base (req_domain r) i"
    using inx by (auto simp: table_ok_def)
  then have dated: "infixed_of inx n = dated_name s base (req_domain r) i" using t(1) by simp
  have "confined base reqs r (\<lambda>_. True) (publish_calls symlinks n (infixed_of inx n))"
    by (subst dated, subst i(2), rule confined_publish [OF d i(1) s r])
  then show ?case unfolding link_calls.simps
  proof (rule confined_bind)
    fix x :: "go_error option"
    show "confined base reqs r (\<lambda>_. True) (case x of Some err \<Rightarrow> Ret (Some err) | None \<Rightarrow> link_calls symlinks inx ns)"
      using Cons by (auto intro: confined_Ret split: option.split)
  qed
qed (simp add: confined_Ret)

text \<open>What the file part leaves for the hook: the items of the request, fetched.\<close>

definition fetched :: "cert_req \<Rightarrow> (go_error + cert_item list) outcome \<Rightarrow> bool" where
  "fetched r x \<longleftrightarrow> (\<exists>y. x = Returned y \<and> (\<forall>its. y = Inr its \<longrightarrow> list_all2 same_item (req_items r) its))"

lemma confined_files:
  assumes d: "plain (req_domain r)" and pl: "items_placed base (req_domain r) (req_items r)"
    and r: "lone reqs r" and env: "orderly env"
  shows "confined base reqs r (fetched r) (files_calls env r)"
proof -
  let ?s = "format_int (ex_write_time env)" and ?d = "req_domain r"
  have s: "stamp_ok ?s" by (rule format_int_stamp)
  have own: "\<forall>i\<in>set (req_items r). of_domain base ?d (ci_local i)"
    using pl of_domain_files(1) [OF d _ s] by (auto simp: items_placed_def list_all_iff)
  have order: "set (ex_order env xs) = set xs" for xs using env mset_eq_setD unfolding orderly_def by blast
  have link: "confined base reqs r (fetched r)
      (bind (link_calls (ex_use_symlink env) inx (ex_order env (map fst inx))) (\<lambda>x. case x of
           Some err \<Rightarrow> Ret (Returned (Inl err)) | None \<Rightarrow> Ret (Returned (Inr items))))"
    if "table_ok ?s base ?d inx" "list_all2 same_item (req_items r) items" for inx items
    using that by (intro confined_bind [OF confined_link [OF d s r that(1)]])
      (auto intro!: confined_Ret simp: order fetched_def split: option.split)
  have "confined base reqs r (fetched r)
      (bind (write_calls ?s items []) (\<lambda>x. case x of
         Panicked m \<Rightarrow> Ret (Panicked m) | Returned (Inl err) \<Rightarrow> Ret (Returned (Inl err))
       | Returned (Inr inx) \<Rightarrow>
         bind (link_calls (ex_use_symlink env) inx (ex_order env (map fst inx))) (\<lambda>x. case x of
           Some err \<Rightarrow> Ret (Returned (Inl err)) | None \<Rightarrow> Ret (Returned (Inr items)))))"
    if "list_all2 same_item (req_items r) items" for items
    using placed_same [OF pl that] link [OF _ that]
    by (intro confined_bind [OF confined_write [OF d s r]])
      (auto intro!: confined_Ret simp: items_placed_def table_ok_def fetched_def split: sum.split)
  then show ?thesis
    unfolding files_calls_def
    by (intro confined_bind [OF confined_fetch [OF r own]]) (auto intro!: confined_Ret simp: fetched_def split: sum.split)
qed

end
