(* ===== verification/Worker.thy ===== *)
theory Worker
  imports CertReq "HOL-Library.Multiset"
begin

text \<open>
  \<open>cmd/cert-proxy-client/worker\<close>: the pool of goroutines that execute the requests.  A state
  holds every goroutine (the producer \<open>EnqueueTasks\<close> starts, the workers, the collector and the
  caller of \<open>Wait\<close>), the two channels and the mutex around the hooks; a step is one goroutine
  doing one operation, in any order.  What a request's fetching, writing and hook result in is
  left open: both outcomes are steps.  \<open>p_outcomes\<close> records them; the code keeps the number of
  failed ones only.
\<close>

section \<open>State\<close>

datatype worker = Idle | Fetching cert_req | WantsLock cert_req | InHook cert_req | Sending | Exited

datatype collector = NotStarted | Collecting nat | Delivering nat | Gone

datatype waiter = AwaitsWorkers | AwaitsCount | WaitDone nat

record pool =
  p_todo :: "cert_req list"
  p_queue :: "cert_req list"
  p_cap :: nat
  p_closed :: bool
  p_workers :: "worker list"
  p_mutex :: "nat option"
  p_errors_closed :: bool
  p_collector :: collector
  p_waiter :: waiter
  p_outcomes :: "(cert_req \<times> bool) list"

definition has_hook :: "cert_req \<Rightarrow> bool" where
  "has_hook r \<longleftrightarrow> req_hook r \<noteq> []"

text \<open>\<open>NewPool\<close>: making a channel of negative size panics.\<close>

definition NewPool :: "int \<Rightarrow> pool outcome" where
  "NewPool workers =
     (if workers < 0 then Panicked ''makechan: size out of range''
      else Returned \<lparr>p_todo = [], p_queue = [], p_cap = nat workers, p_closed = False,
        p_workers = replicate (nat workers) Idle, p_mutex = None, p_errors_closed = False,
        p_collector = NotStarted, p_waiter = AwaitsWorkers, p_outcomes = []\<rparr>)"

text \<open>\<open>EnqueueTasks\<close> builds all requests first; \<open>cns\<close> is the order in which the set is visited.
  An error closes the queue.\<close>

fun build_reqs :: "(string \<Rightarrow> (go_error + cert_req) outcome) \<Rightarrow> string list \<Rightarrow>
    (go_error + cert_req list) outcome" where
  "build_reqs new [] = Returned (Inr [])"
| "build_reqs new (cn # cns) =
     (case new cn of
        Panicked m \<Rightarrow> Panicked m
      | Returned (Inl err) \<Rightarrow> Returned (Inl (Wrapf (''building request for '' @ cn @ '': '') err []))
      | Returned (Inr req) \<Rightarrow>
        (case build_reqs new cns of
           Panicked m \<Rightarrow> Panicked m
         | Returned (Inl err) \<Rightarrow> Returned (Inl err)
         | Returned (Inr reqs) \<Rightarrow> Returned (Inr (req # reqs))))"

definition EnqueueTasks ::
    "(string \<Rightarrow> (go_error + cert_req) outcome) \<Rightarrow> string list \<Rightarrow> pool \<Rightarrow> (go_error option \<times> pool) outcome" where
  "EnqueueTasks new cns p =
     (case build_reqs new cns of
        Panicked m \<Rightarrow> Panicked m
      | Returned (Inl err) \<Rightarrow> Returned (Some err, p\<lparr>p_closed := True\<rparr>)
      | Returned (Inr reqs) \<Rightarrow> Returned (None, p\<lparr>p_todo := reqs\<rparr>))"

definition plural :: "nat \<Rightarrow> string" where
  "plural i = (if i \<noteq> 1 then ''s'' else [])"

text \<open>The result of \<open>Wait\<close> for the number of errors collected.\<close>

definition wait_result :: "nat \<Rightarrow> go_error option" where
  "wait_result n = (if n \<noteq> 0 then Some (Msg (''got '' @ dec_nat n @ '' error'' @ plural n)) else None)"

section \<open>Steps\<close>

definition set_worker :: "nat \<Rightarrow> worker \<Rightarrow> pool \<Rightarrow> pool" where
  "set_worker i x s = s\<lparr>p_workers := (p_workers s)[i := x]\<rparr>"

definition worker_is :: "pool \<Rightarrow> nat \<Rightarrow> worker \<Rightarrow> bool" where
  "worker_is s i x \<longleftrightarrow> i < length (p_workers s) \<and> p_workers s ! i = x"

text \<open>\<open>Execute\<close> returned: with an error the worker sends to the collector.\<close>

definition executed :: "nat \<Rightarrow> cert_req \<Rightarrow> bool \<Rightarrow> pool \<Rightarrow> pool" where
  "executed i r failed s =
     set_worker i (if failed then Sending else Idle) (s\<lparr>p_outcomes := p_outcomes s @ [(r, failed)]\<rparr>)"

inductive pool_step :: "pool \<Rightarrow> pool \<Rightarrow> bool" where
  produce: "p_todo s = r # rs \<Longrightarrow> length (p_queue s) < p_cap s \<Longrightarrow>
    pool_step s (s\<lparr>p_todo := rs, p_queue := p_queue s @ [r]\<rparr>)"
| close_queue: "p_todo s = [] \<Longrightarrow> \<not> p_closed s \<Longrightarrow> pool_step s (s\<lparr>p_closed := True\<rparr>)"
| receive: "worker_is s i Idle \<Longrightarrow> p_queue s = r # q \<Longrightarrow>
    pool_step s (set_worker i (Fetching r) (s\<lparr>p_queue := q\<rparr>))"
| leave: "worker_is s i Idle \<Longrightarrow> p_queue s = [] \<Longrightarrow> p_closed s \<Longrightarrow> pool_step s (set_worker i Exited s)"
| files_failed: "worker_is s i (Fetching r) \<Longrightarrow> pool_step s (executed i r True s)"
| no_hook: "worker_is s i (Fetching r) \<Longrightarrow> \<not> has_hook r \<Longrightarrow> pool_step s (executed i r False s)"
| want_lock: "worker_is s i (Fetching r) \<Longrightarrow> has_hook r \<Longrightarrow> pool_step s (set_worker i (WantsLock r) s)"
| lock: "worker_is s i (WantsLock r) \<Longrightarrow> p_mutex s = None \<Longrightarrow>
    pool_step s (set_worker i (InHook r) (s\<lparr>p_mutex := Some i\<rparr>))"
| hook_done: "worker_is s i (InHook r) \<Longrightarrow> pool_step s (executed i r failed (s\<lparr>p_mutex := None\<rparr>))"
| start_collector: "p_collector s = NotStarted \<Longrightarrow> pool_step s (s\<lparr>p_collector := Collecting 0\<rparr>)"
| send_error: "worker_is s i Sending \<Longrightarrow> p_collector s = Collecting n \<Longrightarrow>
    pool_step s (set_worker i Idle (s\<lparr>p_collector := Collecting (Suc n)\<rparr>))"
| workers_done: "p_waiter s = AwaitsWorkers \<Longrightarrow> \<forall>x\<in>set (p_workers s). x = Exited \<Longrightarrow>
    pool_step s (s\<lparr>p_errors_closed := True, p_waiter := AwaitsCount\<rparr>)"
| count_done: "p_collector s = Collecting n \<Longrightarrow> p_errors_closed s \<Longrightarrow>
    pool_step s (s\<lparr>p_collector := Delivering n\<rparr>)"
| deliver: "p_collector s = Delivering n \<Longrightarrow> p_waiter s = AwaitsCount \<Longrightarrow>
    pool_step s (s\<lparr>p_collector := Gone, p_waiter := WaitDone n\<rparr>)"

inductive_cases pool_stepE: "pool_step s t"

text \<open>The pool after \<open>NewPool\<close> and a successful \<open>EnqueueTasks\<close>, when \<open>Wait\<close> is called.\<close>

definition start_pool :: "nat \<Rightarrow> cert_req list \<Rightarrow> pool" where
  "start_pool jobs reqs = \<lparr>p_todo = reqs, p_queue = [], p_cap = jobs, p_closed = False,
     p_workers = replicate jobs Idle, p_mutex = None, p_errors_closed = False,
     p_collector = NotStarted, p_waiter = AwaitsWorkers, p_outcomes = []\<rparr>"

lemma start_pool_NewPool:
  "NewPool (int jobs) = Returned p \<Longrightarrow> build_reqs new cns = Returned (Inr reqs) \<Longrightarrow>
     EnqueueTasks new cns p = Returned (None, start_pool jobs reqs)"
  by (auto simp: NewPool_def EnqueueTasks_def start_pool_def)

inductive runs :: "nat \<Rightarrow> pool \<Rightarrow> pool \<Rightarrow> bool" where
  runs_refl: "runs 0 s s"
| runs_step: "runs k s t \<Longrightarrow> pool_step t u \<Longrightarrow> runs (Suc k) s u"

section \<open>The invariant\<close>

text \<open>The request a worker holds, if any.\<close>

fun held :: "worker \<Rightarrow> cert_req list" where
  "held (Fetching r) = [r]"
| "held (WantsLock r) = [r]"
| "held (InHook r) = [r]"
| "held _ = []"

definition in_hook :: "worker \<Rightarrow> bool" where
  "in_hook x \<longleftrightarrow> (case x of InHook r \<Rightarrow> True | _ \<Rightarrow> False)"

fun counted :: "collector \<Rightarrow> waiter \<Rightarrow> nat" where
  "counted NotStarted w = 0"
| "counted (Collecting n) w = n"
| "counted (Delivering n) w = n"
| "counted Gone (WaitDone n) = n"
| "counted Gone _ = 0"

definition sending :: "pool \<Rightarrow> nat" where
  "sending s = count_list (p_workers s) Sending"

definition pool_inv :: "nat \<Rightarrow> cert_req list \<Rightarrow> pool \<Rightarrow> bool" where
  "pool_inv jobs reqs s \<longleftrightarrow>
     p_cap s = jobs \<and> length (p_workers s) = jobs \<and> length (p_queue s) \<le> jobs \<and>
     mset reqs = mset (p_todo s) + mset (p_queue s) + mset (concat (map held (p_workers s)))
       + mset (map fst (p_outcomes s)) \<and>
     (p_closed s \<longrightarrow> p_todo s = []) \<and>
     (\<forall>i<jobs. in_hook (p_workers s ! i) \<longleftrightarrow> p_mutex s = Some i) \<and>
     (\<forall>i. p_mutex s = Some i \<longrightarrow> i < jobs) \<and>
     (Exited \<in> set (p_workers s) \<longrightarrow> p_closed s \<and> p_queue s = []) \<and>
     (p_waiter s \<noteq> AwaitsWorkers \<longrightarrow> (\<forall>x\<in>set (p_workers s). x = Exited) \<and> p_errors_closed s) \<and>
     (p_errors_closed s \<longrightarrow> p_waiter s \<noteq> AwaitsWorkers) \<and>
     length (filter snd (p_outcomes s)) = counted (p_collector s) (p_waiter s) + sending s \<and>
     (p_collector s = Gone \<longleftrightarrow> (\<exists>n. p_waiter s = WaitDone n)) \<and>
     (\<forall>n. p_collector s = Delivering n \<longrightarrow> p_errors_closed s)"

end
