(* ===== verification/WorkerProps.thy ===== *)
theory WorkerProps
  imports Worker Steps
begin

text \<open>
  Correctness of the worker pool: the invariant \<open>pool_inv\<close> holds in every state a run reaches,
  a measure bounds the length of a run, and no state before the end of \<open>Wait\<close> is stuck.
\<close>

section \<open>Replacing one worker\<close>

lemma worker_split:
  "worker_is s i x \<longleftrightarrow> (\<exists>a b. p_workers s = a @ x # b \<and> i = length a)"
proof
  assume "worker_is s i x"
  then show "\<exists>a b. p_workers s = a @ x # b \<and> i = length a"
    using id_take_nth_drop [of i "p_workers s"]
    by (intro exI [of _ "take i (p_workers s)"] exI [of _ "drop (Suc i) (p_workers s)"])
      (auto simp: worker_is_def)
qed (auto simp: worker_is_def)

fun weight :: "worker \<Rightarrow> nat" where
  "weight (Fetching r) = 5"
| "weight (WantsLock r) = 4"
| "weight (InHook r) = 3"
| "weight Sending = 2"
| "weight Idle = 1"
| "weight Exited = 0"

definition all_held :: "worker list \<Rightarrow> cert_req multiset" where
  "all_held ws = mset (concat (map held ws))"

definition total :: "worker list \<Rightarrow> nat" where
  "total ws = sum_list (map weight ws)"

text \<open>What an update by \<open>set_worker\<close> keeps.\<close>

lemma set_worker_simps [simp]:
  "p_todo (set_worker i x s) = p_todo s" "p_queue (set_worker i x s) = p_queue s"
  "p_cap (set_worker i x s) = p_cap s" "p_closed (set_worker i x s) = p_closed s"
  "p_workers (set_worker i x s) = (p_workers s)[i := x]" "p_mutex (set_worker i x s) = p_mutex s"
  "p_errors_closed (set_worker i x s) = p_errors_closed s"
  "p_collector (set_worker i x s) = p_collector s" "p_waiter (set_worker i x s) = p_waiter s"
  "p_outcomes (set_worker i x s) = p_outcomes s"
  by (simp_all add: set_worker_def)

section \<open>The parts of the invariant\<close>

definition accounted :: "cert_req list \<Rightarrow> pool \<Rightarrow> bool" where
  "accounted reqs s \<longleftrightarrow> mset reqs = mset (p_todo s) + mset (p_queue s) + all_held (p_workers s)
     + mset (map fst (p_outcomes s))"

definition mutex_ok :: "pool \<Rightarrow> bool" where
  "mutex_ok s \<longleftrightarrow>
     (\<forall>i<length (p_workers s). in_hook (p_workers s ! i) \<longleftrightarrow> p_mutex s = Some i) \<and>
     (\<forall>i. p_mutex s = Some i \<longrightarrow> i < length (p_workers s))"

definition shutdown_ok :: "pool \<Rightarrow> bool" where
  "shutdown_ok s \<longleftrightarrow>
     (p_closed s \<longrightarrow> p_todo s = []) \<and>
     (Exited \<in> set (p_workers s) \<longrightarrow> p_closed s \<and> p_queue s = []) \<and>
     (p_waiter s \<noteq> AwaitsWorkers \<longrightarrow> (\<forall>x\<in>set (p_workers s). x = Exited) \<and> p_errors_closed s) \<and>
     (p_errors_closed s \<longrightarrow> p_waiter s \<noteq> AwaitsWorkers) \<and>
     (p_collector s = Gone \<longleftrightarrow> (\<exists>n. p_waiter s = WaitDone n)) \<and>
     (\<forall>n. p_collector s = Delivering n \<longrightarrow> p_errors_closed s)"

definition counts_ok :: "pool \<Rightarrow> bool" where
  "counts_ok s \<longleftrightarrow>
     length (filter snd (p_outcomes s)) = counted (p_collector s) (p_waiter s) + sending s"

lemma pool_inv_parts:
  "pool_inv jobs reqs s \<longleftrightarrow> p_cap s = jobs \<and> length (p_workers s) = jobs \<and> length (p_queue s) \<le> jobs \<and>
     accounted reqs s \<and> mutex_ok s \<and> shutdown_ok s \<and> counts_ok s"
  unfolding pool_inv_def accounted_def mutex_ok_def shutdown_ok_def counts_ok_def all_held_def
  by auto

lemma sizes_step:
  "pool_step s t \<Longrightarrow> p_cap t = p_cap s \<and> length (p_workers t) = length (p_workers s) \<and>
     (length (p_queue s) \<le> p_cap s \<longrightarrow> length (p_queue t) \<le> p_cap s)"
  by (induction rule: pool_step.induct) (auto simp: executed_def)

lemma accounted_step: "pool_step s t \<Longrightarrow> accounted reqs s \<Longrightarrow> accounted reqs t"
  by (induction rule: pool_step.induct)
    (auto simp: accounted_def executed_def all_held_def worker_split)

lemma counted_awaits: "counted c AwaitsCount = counted c AwaitsWorkers"
  by (cases c) simp_all

lemma counts_step: "pool_step s t \<Longrightarrow> counts_ok s \<Longrightarrow> shutdown_ok s \<Longrightarrow> counts_ok t"
  by (induction rule: pool_step.induct)
    (auto simp: counts_ok_def executed_def sending_def worker_split shutdown_ok_def counted_awaits)

lemma shutdown_step: "pool_step s t \<Longrightarrow> shutdown_ok s \<Longrightarrow> shutdown_ok t"
  by (induction rule: pool_step.induct)
    (auto simp: shutdown_ok_def executed_def worker_split split: if_splits)

lemma mutex_step: "pool_step s t \<Longrightarrow> mutex_ok s \<Longrightarrow> mutex_ok t"
  by (induction rule: pool_step.induct)
    (auto simp: mutex_ok_def executed_def worker_is_def nth_list_update in_hook_def split: if_splits)

lemma pool_inv_step: "pool_step s t \<Longrightarrow> pool_inv jobs reqs s \<Longrightarrow> pool_inv jobs reqs t"
  by (auto simp: pool_inv_parts dest: sizes_step
    intro: accounted_step mutex_step shutdown_step counts_step)

section \<open>The measure\<close>

fun collector_left :: "collector \<Rightarrow> nat" where
  "collector_left NotStarted = 3"
| "collector_left (Collecting n) = 2"
| "collector_left (Delivering n) = 1"
| "collector_left Gone = 0"

fun waiter_left :: "waiter \<Rightarrow> nat" where
  "waiter_left AwaitsWorkers = 2"
| "waiter_left AwaitsCount = 1"
| "waiter_left (WaitDone n) = 0"

definition steps_left :: "pool \<Rightarrow> nat" where
  "steps_left s = 6 * length (p_todo s) + 5 * length (p_queue s) + total (p_workers s)
     + (if p_closed s then 0 else 1) + collector_left (p_collector s) + waiter_left (p_waiter s)"

lemma steps_left_step: "pool_step s t \<Longrightarrow> steps_left t < steps_left s"
  by (induction rule: pool_step.induct)
    (auto simp: steps_left_def executed_def total_def worker_split)

lemma steps_left_start: "steps_left (start_pool jobs reqs) = 6 * length reqs + jobs + 6"
  by (simp add: steps_left_def start_pool_def total_def map_replicate sum_list_replicate)

interpretation pool: measured_steps pool_step "pool_inv jobs reqs" steps_left for jobs reqs
  by unfold_locales (auto intro: pool_inv_step steps_left_step)

lemma runs_relpowp: "runs k s t \<Longrightarrow> (pool_step ^^ k) s t"
  by (induction rule: runs.induct) auto

lemma runs_inv: "runs k s t \<Longrightarrow> pool_inv jobs reqs s \<Longrightarrow> pool_inv jobs reqs t \<and> k + steps_left t \<le> steps_left s"
  by (rule pool.after [OF runs_relpowp])

lemma start_inv: "pool_inv jobs reqs (start_pool jobs reqs)"
proof -
  have "concat (map held (replicate jobs Idle)) = []" "count_list (replicate jobs Idle) Sending = 0"
    by (induction jobs) simp_all
  then show ?thesis by (simp add: pool_inv_def start_pool_def in_hook_def sending_def)
qed

lemma reached:
  assumes "runs k (start_pool jobs reqs) s"
  shows "pool_inv jobs reqs s" and "k + steps_left s \<le> 6 * length reqs + jobs + 6"
  using runs_inv [OF assms start_inv] by (simp_all add: steps_left_start)

section \<open>Progress\<close>

lemma worker_moves:
  assumes inv: "pool_inv jobs reqs s" and w: "worker_is s i x" and x: "x \<noteq> Idle" "x \<noteq> Exited"
    and collecting: "p_collector s \<noteq> NotStarted"
  shows "\<exists>t. pool_step s t"
proof (cases x)
  case (Fetching r)
  with w show ?thesis by (auto intro: files_failed)
next
  case (WantsLock r)
  show ?thesis
  proof (cases "p_mutex s")
    case None
    with w WantsLock show ?thesis by (auto intro: lock)
  next
    case (Some j)
    with inv have "j < length (p_workers s)" "in_hook (p_workers s ! j)"
      by (auto simp: pool_inv_parts mutex_ok_def)
    then obtain q where "worker_is s j (InHook q)"
      by (auto simp: in_hook_def worker_is_def split: worker.splits)
    then show ?thesis by (auto intro: hook_done)
  qed
next
  case (InHook r)
  with w show ?thesis by (auto intro: hook_done)
next
  case Sending
  with w have "p_waiter s = AwaitsWorkers"
    using inv by (auto simp: pool_inv_parts shutdown_ok_def worker_split)
  with inv collecting obtain n where "p_collector s = Collecting n"
    by (cases "p_collector s") (auto simp: pool_inv_parts shutdown_ok_def)
  with w Sending show ?thesis by (auto intro: send_error)
qed (use x in auto)

lemma idle_moves:
  assumes inv: "pool_inv jobs reqs s" and w: "worker_is s i Idle"
  shows "\<exists>t. pool_step s t"
proof (cases "p_queue s")
  case (Cons r q)
  with w show ?thesis by (auto intro: receive)
next
  case Nil
  from w have "0 < length (p_workers s)" by (auto simp: worker_is_def)
  with inv Nil have "length (p_queue s) < p_cap s" by (auto simp: pool_inv_parts)
  with w Nil show ?thesis
    using leave [OF w Nil] produce [of s] close_queue [of s]
    by (cases "p_closed s"; cases "p_todo s") blast+
qed

lemma exited_moves:
  assumes inv: "pool_inv jobs reqs s" and all: "\<forall>x\<in>set (p_workers s). x = Exited"
    and collecting: "p_collector s \<noteq> NotStarted" and busy: "\<forall>n. p_waiter s \<noteq> WaitDone n"
  shows "\<exists>t. pool_step s t"
proof (cases "p_waiter s")
  case AwaitsWorkers
  with all show ?thesis by (auto intro: workers_done)
next
  case AwaitsCount
  with inv have "p_errors_closed s" by (auto simp: pool_inv_parts shutdown_ok_def)
  moreover have "p_collector s \<noteq> Gone" using inv busy by (auto simp: pool_inv_parts shutdown_ok_def)
  ultimately show ?thesis using collecting AwaitsCount
    by (cases "p_collector s") (auto intro: count_done deliver)
qed (use busy in auto)

lemma progress:
  assumes inv: "pool_inv jobs reqs s" and busy: "\<forall>n. p_waiter s \<noteq> WaitDone n"
  shows "\<exists>t. pool_step s t"
proof (cases "p_collector s = NotStarted")
  case True
  then show ?thesis by (auto intro: start_collector)
next
  case collecting: False
  show ?thesis
  proof (cases "\<forall>x\<in>set (p_workers s). x = Exited")
    case True
    with inv collecting busy show ?thesis by (intro exited_moves)
  next
    case False
    then obtain x i where "worker_is s i x" "x \<noteq> Exited"
      by (auto simp: in_set_conv_nth worker_is_def)
    with inv collecting show ?thesis
      by (cases "x = Idle") (auto intro: idle_moves worker_moves)
  qed
qed

interpretation wait: progressing_steps pool_step "pool_inv jobs reqs" steps_left
    "\<lambda>s. \<exists>n. p_waiter s = WaitDone n" for jobs reqs
  by unfold_locales (auto intro: progress)

section \<open>What a run shows\<close>

lemma end_of_run:
  assumes inv: "pool_inv jobs reqs s" and fin: "p_waiter s = WaitDone n"
  shows "length (filter snd (p_outcomes s)) = n"
    and "0 < jobs \<Longrightarrow> mset (map fst (p_outcomes s)) = mset reqs"
proof -
  from inv fin have ws: "p_workers s = replicate jobs Exited" and gone: "p_collector s = Gone"
    by (auto simp: pool_inv_parts shutdown_ok_def intro: replicate_eqI)
  have none: "concat (map held (replicate jobs Exited)) = []" "count_list (replicate jobs Exited) Sending = 0"
    by (induction jobs) simp_all
  then show "length (filter snd (p_outcomes s)) = n"
    using inv by (simp add: pool_inv_parts counts_ok_def sending_def ws gone fin)
  assume "0 < jobs"
  then have "p_queue s = [] \<and> p_todo s = []" using inv ws by (auto simp: pool_inv_parts shutdown_ok_def)
  then show "mset (map fst (p_outcomes s)) = mset reqs"
    using inv none by (simp add: pool_inv_parts accounted_def all_held_def ws)
qed

lemma one_in_hook:
  "mutex_ok s \<Longrightarrow> worker_is s i (InHook r) \<Longrightarrow> worker_is s j (InHook q) \<Longrightarrow> i = j"
proof -
  assume ok: "mutex_ok s" and i: "worker_is s i (InHook r)" and j: "worker_is s j (InHook q)"
  from i ok have "p_mutex s = Some i" by (force simp: mutex_ok_def worker_is_def in_hook_def)
  moreover from j ok have "p_mutex s = Some j" by (force simp: mutex_ok_def worker_is_def in_hook_def)
  ultimately show "i = j" by simp
qed

lemma held_at_most_one: "length (held w) \<le> 1"
  by (cases w) simp_all

lemma length_concat_held: "length (concat (map held ws)) \<le> length ws"
  by (induction ws) (auto intro: add_mono [OF held_at_most_one, simplified])

section \<open>A concrete run\<close>

text \<open>One worker, one request with a hook, and the hook fails: every step of the run.\<close>

definition hooked :: cert_req where
  "hooked = \<lparr>req_domain = ''a.example'', req_items = [], req_hook = ''reload'', req_env = []\<rparr>"

abbreviation solo ::
    "cert_req list \<Rightarrow> cert_req list \<Rightarrow> bool \<Rightarrow> worker \<Rightarrow> nat option \<Rightarrow> bool \<Rightarrow> collector \<Rightarrow> waiter \<Rightarrow>
     (cert_req \<times> bool) list \<Rightarrow> pool" where
  "solo todo queue closed w m ec c wa out \<equiv>
     \<lparr>p_todo = todo, p_queue = queue, p_cap = 1, p_closed = closed, p_workers = [w], p_mutex = m,
      p_errors_closed = ec, p_collector = c, p_waiter = wa, p_outcomes = out\<rparr>"

lemma step_to: "pool_step s t' \<Longrightarrow> t' = t \<Longrightarrow> pool_step s t"
  by simp

lemma solo_to_hook:
  "runs 4 (start_pool 1 [hooked])
     (solo [] [] False (InHook hooked) (Some 0) False NotStarted AwaitsWorkers [])" (is "runs 4 _ ?t")
proof -
  let ?s0 = "solo [hooked] [] False Idle None False NotStarted AwaitsWorkers []"
  let ?s1 = "solo [] [hooked] False Idle None False NotStarted AwaitsWorkers []"
  let ?s2 = "solo [] [] False (Fetching hooked) None False NotStarted AwaitsWorkers []"
  let ?s3 = "solo [] [] False (WantsLock hooked) None False NotStarted AwaitsWorkers []"
  have "pool_step ?s0 ?s1" by (rule step_to [OF produce [of _ hooked "[]"]]) simp_all
  moreover have "pool_step ?s1 ?s2"
    by (rule step_to [OF receive [of _ 0 hooked "[]"]]) (simp_all add: worker_is_def set_worker_def)
  moreover have "pool_step ?s2 ?s3"
    by (rule step_to [OF want_lock [of _ 0 hooked]])
      (simp_all add: worker_is_def set_worker_def has_hook_def hooked_def)
  moreover have "pool_step ?s3 ?t"
    by (rule step_to [OF lock [of _ 0 hooked]]) (simp_all add: worker_is_def set_worker_def)
  ultimately have "runs (Suc (Suc (Suc (Suc 0)))) ?s0 ?t" by (blast intro: runs_refl runs_step)
  then show ?thesis by (simp add: start_pool_def numeral_eq_Suc)
qed

lemma solo_to_end:
  "runs 12 (start_pool 1 [hooked])
     (solo [] [] True Exited None True Gone (WaitDone 1) [(hooked, True)])" (is "runs 12 _ ?t")
proof -
  let ?o = "[(hooked, True)]"
  let ?s4 = "solo [] [] False (InHook hooked) (Some 0) False NotStarted AwaitsWorkers []"
  let ?s5 = "solo [] [] False Sending None False NotStarted AwaitsWorkers ?o"
  let ?s6 = "solo [] [] False Sending None False (Collecting 0) AwaitsWorkers ?o"
  let ?s7 = "solo [] [] False Idle None False (Collecting 1) AwaitsWorkers ?o"
  let ?s8 = "solo [] [] True Idle None False (Collecting 1) AwaitsWorkers ?o"
  let ?s9 = "solo [] [] True Exited None False (Collecting 1) AwaitsWorkers ?o"
  let ?s10 = "solo [] [] True Exited None True (Collecting 1) AwaitsCount ?o"
  let ?s11 = "solo [] [] True Exited None True (Delivering 1) AwaitsCount ?o"
  have "pool_step ?s4 ?s5"
    by (rule step_to [OF hook_done [of _ 0 hooked True]])
      (simp_all add: worker_is_def set_worker_def executed_def)
  moreover have "pool_step ?s5 ?s6" by (rule step_to [OF start_collector]) simp_all
  moreover have "pool_step ?s6 ?s7"
    by (rule step_to [OF send_error [of _ 0 0]]) (simp_all add: worker_is_def set_worker_def)
  moreover have "pool_step ?s7 ?s8" by (rule step_to [OF close_queue]) simp_all
  moreover have "pool_step ?s8 ?s9"
    by (rule step_to [OF leave [of _ 0]]) (simp_all add: worker_is_def set_worker_def)
  moreover have "pool_step ?s9 ?s10" by (rule step_to [OF workers_done]) simp_all
  moreover have "pool_step ?s10 ?s11" by (rule step_to [OF count_done [of _ 1]]) simp_all
  moreover have "pool_step ?s11 ?t" by (rule step_to [OF deliver [of _ 1]]) simp_all
  ultimately have "runs (Suc (Suc (Suc (Suc (Suc (Suc (Suc (Suc 4)))))))) (start_pool 1 [hooked]) ?t"
    using solo_to_hook by (blast intro: runs_step)
  then show ?thesis by (simp add: numeral_eq_Suc)
qed

text \<open>The shortest run for a request without a hook that succeeds.\<close>

lemma solo_success:
  assumes "\<not> has_hook r"
  shows "runs 9 (start_pool 1 [r]) (solo [] [] True Exited None True Gone (WaitDone 0) [(r, False)])"
    (is "runs 9 _ ?t")
proof -
  let ?o = "[(r, False)]"
  let ?s0 = "solo [r] [] False Idle None False NotStarted AwaitsWorkers []"
  let ?s1 = "solo [] [r] False Idle None False NotStarted AwaitsWorkers []"
  let ?s2 = "solo [] [] False (Fetching r) None False NotStarted AwaitsWorkers []"
  let ?s3 = "solo [] [] False Idle None False NotStarted AwaitsWorkers ?o"
  let ?s4 = "solo [] [] True Idle None False NotStarted AwaitsWorkers ?o"
  let ?s5 = "solo [] [] True Exited None False NotStarted AwaitsWorkers ?o"
  let ?s6 = "solo [] [] True Exited None False (Collecting 0) AwaitsWorkers ?o"
  let ?s7 = "solo [] [] True Exited None True (Collecting 0) AwaitsCount ?o"
  let ?s8 = "solo [] [] True Exited None True (Delivering 0) AwaitsCount ?o"
  have "pool_step ?s0 ?s1" by (rule step_to [OF produce [of _ r "[]"]]) simp_all
  moreover have "pool_step ?s1 ?s2"
    by (rule step_to [OF receive [of _ 0 r "[]"]]) (simp_all add: worker_is_def set_worker_def)
  moreover have "pool_step ?s2 ?s3"
    by (rule step_to [OF no_hook [of _ 0 r]])
      (simp_all add: worker_is_def set_worker_def executed_def assms)
  moreover have "pool_step ?s3 ?s4" by (rule step_to [OF close_queue]) simp_all
  moreover have "pool_step ?s4 ?s5"
    by (rule step_to [OF leave [of _ 0]]) (simp_all add: worker_is_def set_worker_def)
  moreover have "pool_step ?s5 ?s6" by (rule step_to [OF start_collector]) simp_all
  moreover have "pool_step ?s6 ?s7" by (rule step_to [OF workers_done]) simp_all
  moreover have "pool_step ?s7 ?s8" by (rule step_to [OF count_done [of _ 0]]) simp_all
  moreover have "pool_step ?s8 ?t" by (rule step_to [OF deliver [of _ 0]]) simp_all
  ultimately have "runs (Suc (Suc (Suc (Suc (Suc (Suc (Suc (Suc (Suc 0))))))))) ?s0 ?t"
    by (blast intro: runs_refl runs_step)
  then show ?thesis by (simp add: start_pool_def numeral_eq_Suc)
qed

section \<open>Enqueueing\<close>

lemma build_reqs_Inr:
  "build_reqs new cns = Returned (Inr reqs) \<Longrightarrow> list_all2 (\<lambda>cn r. new cn = Returned (Inr r)) cns reqs"
  by (induction cns arbitrary: reqs) (auto split: outcome.splits sum.splits)

lemma EnqueueTasks_None:
  assumes "NewPool workers = Returned p" and "EnqueueTasks new cns p = Returned (None, q)"
  shows "\<exists>reqs. q = start_pool (nat workers) reqs \<and> 0 \<le> workers \<and>
    list_all2 (\<lambda>cn r. new cn = Returned (Inr r)) cns reqs"
  using assms
  by (auto simp: NewPool_def EnqueueTasks_def start_pool_def dest!: build_reqs_Inr
      split: if_splits outcome.splits sum.splits)

section \<open>A pool without workers\<close>

lemma no_workers_step:
  "pool_step s t \<Longrightarrow> p_workers s = [] \<Longrightarrow> p_cap s = 0 \<Longrightarrow>
     p_workers t = [] \<and> p_cap t = 0 \<and> p_outcomes t = p_outcomes s \<and> p_todo t = p_todo s"
  by (induction rule: pool_step.induct) (auto simp: worker_is_def)

lemma no_workers:
  "runs k (start_pool 0 reqs) s \<Longrightarrow>
     p_workers s = [] \<and> p_cap s = 0 \<and> p_outcomes s = [] \<and> p_todo s = reqs"
  by (induction k "start_pool 0 reqs" s rule: runs.induct)
    (auto simp: start_pool_def dest!: no_workers_step)

abbreviation deserted :: "cert_req list \<Rightarrow> bool \<Rightarrow> collector \<Rightarrow> waiter \<Rightarrow> pool" where
  "deserted todo ec c wa \<equiv>
     \<lparr>p_todo = todo, p_queue = [], p_cap = 0, p_closed = False, p_workers = [], p_mutex = None,
      p_errors_closed = ec, p_collector = c, p_waiter = wa, p_outcomes = []\<rparr>"

lemma deserted_run: "runs 4 (start_pool 0 reqs) (deserted reqs True Gone (WaitDone 0))"
proof -
  let ?s0 = "deserted reqs False NotStarted AwaitsWorkers"
  let ?s1 = "deserted reqs False (Collecting 0) AwaitsWorkers"
  let ?s2 = "deserted reqs True (Collecting 0) AwaitsCount"
  let ?s3 = "deserted reqs True (Delivering 0) AwaitsCount"
  let ?s4 = "deserted reqs True Gone (WaitDone 0)"
  have "pool_step ?s0 ?s1" by (rule step_to [OF start_collector]) simp_all
  moreover have "pool_step ?s1 ?s2" by (rule step_to [OF workers_done]) simp_all
  moreover have "pool_step ?s2 ?s3" by (rule step_to [OF count_done [of _ 0]]) simp_all
  moreover have "pool_step ?s3 ?s4" by (rule step_to [OF deliver [of _ 0]]) simp_all
  ultimately have "runs (Suc (Suc (Suc (Suc 0)))) ?s0 ?s4" by (blast intro: runs_refl runs_step)
  then show ?thesis by (simp add: start_pool_def numeral_eq_Suc)
qed

section \<open>Properties\<close>

text \<open>C9. Two workers are never inside a hook at the same time: in every state a run of the pool
  reaches, whatever the interleaving, at most one worker holds the hook mutex and runs a
  hook.\<close>

theorem hooks_run_one_at_a_time:
  assumes run: "runs k (start_pool jobs reqs) s"
    and i: "worker_is s i (InHook r)" and j: "worker_is s j (InHook q)"
  shows "i = j"
  using reached(1) [OF run] one_in_hook [OF _ i j] by (simp add: pool_inv_parts)

theorem hooks_run_one_at_a_time_witness:
  "worker_is (solo [] [] False (InHook hooked) (Some 0) False NotStarted AwaitsWorkers []) 0 (InHook hooked)
     \<and> (0::nat) = 0"
  using hooks_run_one_at_a_time [OF solo_to_hook, of 0 hooked 0 hooked] by (simp add: worker_is_def)

text \<open>C11. With at least one worker, when \<open>Wait\<close> has returned every request was executed exactly
  once, none was lost and none repeated, and the number of errors \<open>Wait\<close> counted is the number
  of executions that failed; so it returns no error exactly when all of them succeeded.\<close>

theorem every_request_executed_once:
  assumes run: "runs k (start_pool jobs reqs) s" and jobs: "0 < jobs" and fin: "p_waiter s = WaitDone n"
  shows "mset (map fst (p_outcomes s)) = mset reqs \<and> n = length (filter snd (p_outcomes s)) \<and>
    (wait_result n = None \<longleftrightarrow> filter snd (p_outcomes s) = [])"
  using end_of_run [OF reached(1) [OF run] fin] jobs by (auto simp: wait_result_def)

theorem every_request_executed_once_witness:
  "mset (map fst [(hooked, True)]) = mset [hooked] \<and> wait_result 1 \<noteq> None"
  using every_request_executed_once [OF solo_to_end, of 1] by simp

text \<open>The pool always finishes: a run from the start has at most six steps per request, one
  per worker and six more, any state in which \<open>Wait\<close> has not returned has a next step, and the
  return of \<open>Wait\<close> can be reached from it.  So no interleaving of the producer, the workers, the
  collector and \<open>Wait\<close> deadlocks or runs forever.\<close>

theorem wait_always_returns:
  assumes run: "runs k (start_pool jobs reqs) s"
  shows "k \<le> 6 * length reqs + jobs + 6 \<and> ((\<exists>n. p_waiter s = WaitDone n) \<or> (\<exists>t. pool_step s t)) \<and>
    (\<exists>t. pool_step\<^sup>*\<^sup>* s t \<and> (\<exists>n. p_waiter t = WaitDone n))"
  using reached [OF run] wait.final_or_step [OF runs_relpowp [OF run] start_inv]
    wait.reaches_final [OF reached(1) [OF run]] by fastforce

theorem wait_always_returns_witness:
  "(12::nat) \<le> 13 \<and> ((\<exists>n. p_waiter (solo [] [] True Exited None True Gone (WaitDone 1) [(hooked, True)]) = WaitDone n)
     \<or> (\<exists>t. pool_step (solo [] [] True Exited None True Gone (WaitDone 1) [(hooked, True)]) t))"
  using wait_always_returns [OF solo_to_end] by simp



text \<open>C32. When \<open>EnqueueTasks\<close> fails to build a request it returns the error, nothing at all is
  executed whatever the workers do, and \<open>Wait\<close> would report no further error: either all domains
  are attempted or none is.\<close>

theorem failed_enqueue_runs_nothing:
  assumes new: "NewPool workers = Returned p"
    and enqueue: "EnqueueTasks new cns p = Returned (Some err, q)"
    and run: "runs k q s"
  shows "p_outcomes s = [] \<and> (\<forall>n. p_waiter s = WaitDone n \<longrightarrow> n = 0)"
proof -
  have "q = start_pool (nat workers) []\<lparr>p_closed := True\<rparr>"
    using new enqueue
    by (auto simp: NewPool_def EnqueueTasks_def start_pool_def split: if_splits outcome.splits sum.splits)
  then have inv: "pool_inv (nat workers) [] q"
    using start_inv [of "nat workers" "[]"] by (auto simp: pool_inv_def start_pool_def sending_def)
  have reached: "pool_inv (nat workers) [] s" using runs_inv [OF run inv] by simp
  then have "p_outcomes s = []" by (auto simp: pool_inv_parts accounted_def)
  with end_of_run(1) [OF reached] show ?thesis by auto
qed

theorem failed_enqueue_runs_nothing_witness:
  "p_outcomes (start_pool 1 []\<lparr>p_closed := True\<rparr>) = []"
  by (rule conjunct1 [OF failed_enqueue_runs_nothing
        [of 1 "start_pool 1 []" "\<lambda>cn. Returned (Inl ErrInvalidName)" "[''x'']"
          "Wrapf ''building request for x: '' ErrInvalidName []" "start_pool 1 []\<lparr>p_closed := True\<rparr>" 0]])
    (simp_all add: NewPool_def EnqueueTasks_def start_pool_def runs_refl)

end
