(* ===== verification/Crew.thy ===== *)
theory Crew
  imports Confined WorkerProps
begin

text \<open>
  The worker pool with the files: the workers make the calls of their requests' file parts on one
  shared file system and run the hooks on it, in any interleaving.  Where \<open>Worker\<close> leaves open
  whether a request fails, the calls decide it here.
\<close>

section \<open>State and steps\<close>

text \<open>\<open>c_files r\<close> is what is left to do of the file part of request \<open>r\<close>.\<close>

record crew =
  c_pool :: pool
  c_files :: "cert_req \<Rightarrow> (world, (go_error + cert_item list) outcome) prog"
  c_world :: world

definition past_files :: "worker \<Rightarrow> bool" where
  "past_files x \<longleftrightarrow> (case x of WantsLock r \<Rightarrow> True | InHook r \<Rightarrow> True | _ \<Rightarrow> False)"

text \<open>Steps of the pool that neither end a file part nor run a hook: the producer, the channels,
  taking a request, getting the lock, leaving, and what \<open>Wait\<close> and its collector do.\<close>

definition aside :: "pool \<Rightarrow> pool \<Rightarrow> bool" where
  "aside s t \<longleftrightarrow> p_outcomes t = p_outcomes s \<and> map past_files (p_workers t) = map past_files (p_workers s)"

inductive crew_step :: "(cert_req \<Rightarrow> exec_env) \<Rightarrow> crew \<Rightarrow> crew \<Rightarrow> bool" for env where
  crew_pool: "pool_step (c_pool c) s \<Longrightarrow> aside (c_pool c) s \<Longrightarrow> crew_step env c (c\<lparr>c_pool := s\<rparr>)"
| crew_call: "worker_is (c_pool c) i (Fetching r) \<Longrightarrow> c_files c r = Act f \<Longrightarrow> f (c_world c) = (p, w) \<Longrightarrow>
    crew_step env c (c\<lparr>c_files := (c_files c)(r := p), c_world := w\<rparr>)"
| crew_failed: "worker_is (c_pool c) i (Fetching r) \<Longrightarrow> c_files c r = Ret (Returned (Inl err)) \<Longrightarrow>
    crew_step env c (c\<lparr>c_pool := executed i r True (c_pool c)\<rparr>)"
| crew_no_hook: "worker_is (c_pool c) i (Fetching r) \<Longrightarrow> c_files c r = Ret (Returned (Inr items)) \<Longrightarrow> \<not> has_hook r \<Longrightarrow>
    crew_step env c (c\<lparr>c_pool := executed i r False (c_pool c)\<rparr>)"
| crew_want_lock: "worker_is (c_pool c) i (Fetching r) \<Longrightarrow> c_files c r = Ret (Returned (Inr items)) \<Longrightarrow> has_hook r \<Longrightarrow>
    crew_step env c (c\<lparr>c_pool := set_worker i (WantsLock r) (c_pool c),
      c_world := say (''Hook '' @ req_hook r @ '' for '' @ req_domain r) (c_world c)\<rparr>)"
| crew_hook: "worker_is (c_pool c) i (InHook r) \<Longrightarrow> c_files c r = Ret (Returned (Inr items)) \<Longrightarrow>
    on_fs (ex_run (env r) (hook_command (env r) r items)) (c_world c) = (res, w) \<Longrightarrow>
    crew_step env c (c\<lparr>c_pool := executed i r (res \<noteq> None) ((c_pool c)\<lparr>p_mutex := None\<rparr>), c_world := w\<rparr>)"

inductive_cases crew_stepE: "crew_step env c d"

definition start_crew :: "(cert_req \<Rightarrow> exec_env) \<Rightarrow> pool \<Rightarrow> world \<Rightarrow> crew" where
  "start_crew env s w = \<lparr>c_pool = s, c_files = (\<lambda>r. files_calls (env r) r), c_world = w\<rparr>"

text \<open>The pool of a crew does steps of the pool.\<close>

lemma crew_step_pool: "crew_step env c d \<Longrightarrow> c_pool d = c_pool c \<or> pool_step (c_pool c) (c_pool d)"
  by (erule crew_step.cases) (auto intro: pool_step.intros)

lemma crew_run_pool: "(crew_step env)\<^sup>*\<^sup>* c d \<Longrightarrow> pool_step\<^sup>*\<^sup>* (c_pool c) (c_pool d)"
proof (induction rule: rtranclp_induct)
  case (step d e)
  then show ?case using crew_step_pool [OF step.hyps(2)] by (auto intro: rtranclp.rtrancl_into_rtrancl)
qed simp

section \<open>The invariant\<close>

text \<open>What the theorems need of the requests, their environments and the store: one request per
  domain, files in the domain's directory, hooks that leave the store alone.\<close>

definition crew_ready :: "string \<Rightarrow> cert_req list \<Rightarrow> (cert_req \<Rightarrow> exec_env) \<Rightarrow> world \<Rightarrow> bool" where
  "crew_ready base reqs env w \<longleftrightarrow> distinct (map req_domain reqs) \<and>
     (\<forall>r\<in>set reqs. plain (req_domain r) \<and> items_placed base (req_domain r) (req_items r) \<and>
        links_inside base (req_domain r) (fs_tree (w_fs w)) \<and> orderly (env r))"

text \<open>How the file part of a request ended and what the pool noted.\<close>

definition noted :: "crew \<Rightarrow> bool" where
  "noted c \<longleftrightarrow> (\<forall>(r, failed)\<in>set (p_outcomes (c_pool c)). \<exists>y. c_files c r = Ret (Returned y) \<and>
       (case y of Inl err \<Rightarrow> failed | Inr its \<Rightarrow> failed \<longrightarrow> has_hook r)) \<and>
     (\<forall>x\<in>set (p_workers (c_pool c)). past_files x \<longrightarrow>
        (\<forall>r\<in>set (held x). has_hook r \<and> (\<exists>its. c_files c r = Ret (Returned (Inr its)))))"

definition crew_inv :: "nat \<Rightarrow> string \<Rightarrow> cert_req list \<Rightarrow> (cert_req \<Rightarrow> exec_env) \<Rightarrow> world \<Rightarrow> crew \<Rightarrow> bool" where
  "crew_inv jobs base reqs env w0 c \<longleftrightarrow> pool_inv jobs reqs (c_pool c) \<and>
     (\<forall>r\<in>set reqs. orderly (env r)) \<and>
     parts.tracks base reqs fetched (\<lambda>r. files_calls (env r) r) w0 (c_files c) (c_world c) \<and> noted c"

lemma held_request:
  assumes "pool_inv jobs reqs s" and "worker_is s i x" and "r \<in> set (held x)"
  shows "r \<in> set reqs"
proof -
  have "r \<in># all_held (p_workers s)" using assms(2,3) by (auto simp: worker_split all_held_def)
  then have "r \<in># mset reqs" using assms(1) by (auto simp: pool_inv_parts accounted_def)
  then show ?thesis by simp
qed

lemma crew_start:
  assumes "crew_ready base reqs env w"
  shows "crew_inv jobs base reqs env w (start_crew env (start_pool jobs reqs) w)"
proof -
  have lone: "lone reqs r" if "r \<in> set reqs" for r
    using assms that by (auto simp: crew_ready_def lone_def distinct_map inj_on_def)
  have "parts.tracks base reqs fetched (\<lambda>r. files_calls (env r) r) w (\<lambda>r. files_calls (env r) r) w"
    using assms confined_files lone unfolding crew_ready_def by (intro parts.tracks_start) blast
  moreover have "noted (start_crew env (start_pool jobs reqs) w)"
    by (auto simp: noted_def start_crew_def start_pool_def past_files_def)
  ultimately show ?thesis using assms start_inv [of jobs reqs] by (simp add: crew_inv_def start_crew_def crew_ready_def)
qed

section \<open>The invariant is kept\<close>

lemma worker_mem: "worker_is s i x \<Longrightarrow> x \<in> set (p_workers s)"
  by (auto simp: worker_split)

lemma past_held:
  "pool_step s t \<Longrightarrow> aside s t \<Longrightarrow> x \<in> set (p_workers t) \<Longrightarrow> past_files x \<Longrightarrow>
     \<exists>y\<in>set (p_workers s). past_files y \<and> held y = held x"
proof (erule pool_step.cases)
  fix u i r assume a: "s = u" "t = set_worker i (InHook r) (u\<lparr>p_mutex := Some i\<rparr>)" "worker_is u i (WantsLock r)"
    and x: "x \<in> set (p_workers t)" "past_files x"
  then have "x = InHook r \<or> x \<in> set (p_workers s)" by (auto dest: set_update_subset_insert [THEN subsetD])
  moreover have "WantsLock r \<in> set (p_workers s)" using a worker_mem by blast
  ultimately show ?thesis using x by (auto simp: past_files_def intro: bexI [of _ "WantsLock r"])
next
  fix u i r assume a: "s = u" "t = set_worker i (WantsLock r) u" "worker_is u i (Fetching r)" and "aside s t"
  then have "map past_files ((p_workers u)[i := WantsLock r]) ! i = map past_files (p_workers u) ! i"
    by (simp add: aside_def)
  then have False using a(3) by (simp add: worker_is_def past_files_def)
  then show ?thesis ..
qed (auto simp: executed_def past_files_def split: if_splits dest: set_update_subset_insert [THEN subsetD])

lemma noted_pool: "pool_step (c_pool c) s \<Longrightarrow> aside (c_pool c) s \<Longrightarrow> noted c \<Longrightarrow> noted (c\<lparr>c_pool := s\<rparr>)"
  using past_held [of "c_pool c" s] unfolding noted_def aside_def by fastforce

lemma noted_call: "c_files c r = Act f \<Longrightarrow> noted c \<Longrightarrow> noted (c\<lparr>c_files := (c_files c)(r := p), c_world := w\<rparr>)"
  unfolding noted_def by fastforce

lemma noted_world: "noted (c\<lparr>c_world := w\<rparr>) = noted c"
  by (simp add: noted_def)

lemma noted_executed:
  assumes n: "noted c" and y: "c_files c r = Ret (Returned y)" "case y of Inl err \<Rightarrow> failed | Inr its \<Rightarrow> failed \<longrightarrow> has_hook r"
    and s: "p_outcomes s = p_outcomes (c_pool c)" "p_workers s = p_workers (c_pool c)"
  shows "noted (c\<lparr>c_pool := executed i r failed s\<rparr>)"
proof -
  have ws: "set (p_workers (executed i r failed s)) \<subseteq> insert (if failed then Sending else Idle) (set (p_workers (c_pool c)))"
    using s(2) set_update_subset_insert [of "p_workers s"] by (simp add: executed_def)
  have "p_outcomes (executed i r failed s) = p_outcomes (c_pool c) @ [(r, failed)]" using s(1) by (simp add: executed_def)
  moreover have "\<not> past_files (if failed then Sending else Idle)" by (simp add: past_files_def)
  ultimately show ?thesis using n y ws unfolding noted_def by (auto split: if_splits)
qed

lemma noted_want_lock:
  assumes n: "noted c" and y: "c_files c r = Ret (Returned (Inr its))" "has_hook r"
  shows "noted (c\<lparr>c_pool := set_worker i (WantsLock r) (c_pool c)\<rparr>)"
proof -
  have "set (p_workers (set_worker i (WantsLock r) (c_pool c))) \<subseteq> insert (WantsLock r) (set (p_workers (c_pool c)))"
    using set_update_subset_insert [of "p_workers (c_pool c)"] by simp
  then show ?thesis using n y unfolding noted_def by (auto split: if_splits)
qed

lemma noted_step: "crew_step env c d \<Longrightarrow> noted c \<Longrightarrow> noted d"
proof (erule crew_step.cases)
  fix u i r items assume "noted c" "c = u" "c_files u r = Ret (Returned (Inr items))" "has_hook r"
    and d: "d = u\<lparr>c_pool := set_worker i (WantsLock r) (c_pool u),
      c_world := say (''Hook '' @ req_hook r @ '' for '' @ req_domain r) (c_world u)\<rparr>"
  then show "noted d" using noted_want_lock [of u r items i] noted_world unfolding d by simp
next
  fix u i r items res w assume "noted c" "c = u" "c_files u r = Ret (Returned (Inr items))" "worker_is (c_pool u) i (InHook r)"
    and d: "d = u\<lparr>c_pool := executed i r (res \<noteq> None) ((c_pool u)\<lparr>p_mutex := None\<rparr>), c_world := w\<rparr>"
  moreover from this have "InHook r \<in> set (p_workers (c_pool u))" by (simp add: worker_mem)
  with \<open>noted c\<close> \<open>c = u\<close> have "has_hook r" by (force simp: noted_def past_files_def)
  ultimately show "noted d" using noted_executed [of u r "Inr items" "res \<noteq> None" "(c_pool u)\<lparr>p_mutex := None\<rparr>" i] noted_world
    unfolding d by simp
qed (auto intro: noted_pool noted_call noted_executed)

text \<open>A step changes the files by one call of one request, or not at all.\<close>

lemma crew_step_files:
  assumes step: "crew_step env c d" and inv: "crew_inv jobs base reqs env w0 c"
  shows "(\<exists>r\<in>set reqs. \<exists>f p. c_files c r = Act f \<and> f (c_world c) = (p, c_world d) \<and> c_files d = (c_files c)(r := p) \<and>
      c_pool d = c_pool c) \<or>
    pool_step (c_pool c) (c_pool d) \<and> c_files d = c_files c \<and> w_fs (c_world d) = w_fs (c_world c)"
  using step
proof cases
  case (crew_call i r f p w)
  have "r \<in> set reqs" using inv held_request [OF _ crew_call(2), of jobs reqs r] by (simp add: crew_inv_def)
  then show ?thesis using crew_call by auto
next
  case (crew_hook i r items res w)
  have "r \<in> set reqs" using inv held_request [OF _ crew_hook(2), of jobs reqs r] by (simp add: crew_inv_def)
  then have "orderly (env r)" using inv by (simp add: crew_inv_def)
  then have "w_fs w = w_fs (c_world c)" using on_fsE [OF crew_hook(4)] unfolding orderly_def by (metis snd_conv)
  then show ?thesis using crew_hook by (auto intro: pool_step.hook_done)
qed (auto intro: pool_step.intros)

lemma crew_inv_step:
  assumes step: "crew_step env c d" and inv: "crew_inv jobs base reqs env w0 c"
  shows "crew_inv jobs base reqs env w0 d"
proof -
  have pool: "pool_inv jobs reqs (c_pool d)"
    using crew_step_pool [OF step] inv pool_inv_step by (auto simp: crew_inv_def)
  have tr: "parts.tracks base reqs fetched (\<lambda>r. files_calls (env r) r) w0 (c_files c) (c_world c)"
    using inv by (simp add: crew_inv_def)
  have "parts.tracks base reqs fetched (\<lambda>r. files_calls (env r) r) w0 (c_files d) (c_world d)"
    using crew_step_files [OF step inv]
  proof (elim disjE bexE exE conjE)
    fix r f p assume "r \<in> set reqs" "c_files c r = Act f" "f (c_world c) = (p, c_world d)" "c_files d = (c_files c)(r := p)"
    then show ?thesis using parts.tracks_call [OF tr] by simp
  next
    assume "c_files d = c_files c" "w_fs (c_world d) = w_fs (c_world c)"
    then show ?thesis using parts.tracks_silent [OF tr, of "c_world d"] by simp
  qed
  then show ?thesis using pool inv noted_step [OF step] by (simp add: crew_inv_def)
qed

section \<open>Termination and progress\<close>

definition crew_left :: "cert_req list \<Rightarrow> crew \<Rightarrow> nat" where
  "crew_left reqs c = steps_left (c_pool c) + (\<Sum>r\<in>set reqs. calls (c_files c r) (c_world c))"

lemma crew_left_step:
  assumes step: "crew_step env c d" and inv: "crew_inv jobs base reqs env w0 c"
  shows "crew_left reqs d < crew_left reqs c"
proof -
  have tr: "parts.tracks base reqs fetched (\<lambda>r. files_calls (env r) r) w0 (c_files c) (c_world c)"
    using inv by (simp add: crew_inv_def)
  show ?thesis using crew_step_files [OF step inv]
  proof (elim disjE bexE exE conjE)
    fix r f p assume "r \<in> set reqs" "c_files c r = Act f" "f (c_world c) = (p, c_world d)" "c_files d = (c_files c)(r := p)"
      "c_pool d = c_pool c"
    then show ?thesis using parts.calls_left_call [OF tr] by (simp add: crew_left_def parts.calls_left_def)
  next
    assume "pool_step (c_pool c) (c_pool d)" "c_files d = c_files c" "w_fs (c_world d) = w_fs (c_world c)"
    then show ?thesis using steps_left_step parts.calls_left_silent [OF tr, of "c_world d"]
      by (simp add: crew_left_def parts.calls_left_def)
  qed
qed

text \<open>Where the pool can move, the crew can.\<close>

lemma aside_set:
  "worker_is s i x \<Longrightarrow> past_files y = past_files x \<Longrightarrow> p_outcomes u = p_outcomes s \<Longrightarrow> p_workers u = p_workers s \<Longrightarrow>
     aside s (set_worker i y u)"
  by (auto simp: aside_def map_update worker_is_def intro!: list_update_same_conv [THEN iffD2])

lemma pool_moves:
  "pool_step s t \<Longrightarrow> aside s t \<or> (\<exists>i r. worker_is s i (Fetching r)) \<or> (\<exists>i r. worker_is s i (InHook r))"
  by (erule pool_step.cases) (auto intro!: aside_set simp: past_files_def, auto simp: aside_def)

lemma fetching_moves:
  assumes inv: "crew_inv jobs base reqs env w0 c" and w: "worker_is (c_pool c) i (Fetching r)"
  shows "\<exists>d. crew_step env c d"
proof -
  have r: "r \<in> set reqs" using inv held_request [OF _ w, of jobs reqs r] by (simp add: crew_inv_def)
  have tr: "parts.tracks base reqs fetched (\<lambda>r. files_calls (env r) r) w0 (c_files c) (c_world c)"
    using inv by (simp add: crew_inv_def)
  show ?thesis
  proof (cases "c_files c r")
    case (Act f)
    then show ?thesis using crew_call [OF w Act] by (metis surj_pair)
  next
    case (Ret x)
    then obtain y where "x = Returned y" using parts.tracks_Ret [OF tr r Ret] by (auto simp: fetched_def)
    then show ?thesis using w Ret
      by (cases y; cases "has_hook r") (auto intro: crew_failed crew_no_hook crew_want_lock)
  qed
qed

lemma hook_moves:
  assumes inv: "crew_inv jobs base reqs env w0 c" and w: "worker_is (c_pool c) i (InHook r)"
  shows "\<exists>d. crew_step env c d"
proof -
  have "InHook r \<in> set (p_workers (c_pool c))" by (rule worker_mem [OF w])
  then obtain its where "c_files c r = Ret (Returned (Inr its))"
    using inv by (force simp: crew_inv_def noted_def past_files_def)
  then show ?thesis using crew_hook [OF w] by (metis surj_pair)
qed

interpretation crew: progressing_steps "crew_step env" "crew_inv jobs base reqs env w0" "crew_left reqs"
    "\<lambda>c. \<exists>n. p_waiter (c_pool c) = WaitDone n" for env jobs base reqs w0
proof unfold_locales
  fix c assume inv: "crew_inv jobs base reqs env w0 c" and go: "\<not> (\<exists>n. p_waiter (c_pool c) = WaitDone n)"
  then obtain t where "pool_step (c_pool c) t" using progress [of jobs reqs "c_pool c"] by (auto simp: crew_inv_def)
  then show "\<exists>d. crew_step env c d"
    using pool_moves fetching_moves [OF inv] hook_moves [OF inv] crew_pool by blast
qed (auto intro: crew_inv_step crew_left_step)

end
