(* ===== verification/CrewProps.thy ===== *)
theory CrewProps
  imports Crew Atomic
begin

text \<open>
  What concurrent downloads amount to: whatever the interleaving, every domain ends up as if it
  had been downloaded alone, readers never see a broken file on the way, and the pool finishes.
\<close>

section \<open>States the crew reaches\<close>

lemma crew_reached:
  assumes "crew_ready base reqs env w" and "(crew_step env)\<^sup>*\<^sup>* (start_crew env (start_pool jobs reqs) w) c"
  shows "crew_inv jobs base reqs env w c"
  using assms(2) by (induction rule: rtranclp_induct) (auto intro: crew_start [OF assms(1)] crew_inv_step)

lemma outcome_request: "pool_inv jobs reqs s \<Longrightarrow> (r, failed) \<in> set (p_outcomes s) \<Longrightarrow> r \<in> set reqs"
proof -
  assume "pool_inv jobs reqs s" "(r, failed) \<in> set (p_outcomes s)"
  then have "r \<in># mset (map fst (p_outcomes s))" "mset reqs = mset (p_todo s) + mset (p_queue s) + all_held (p_workers s)
      + mset (map fst (p_outcomes s))"
    by (force simp: pool_inv_parts accounted_def)+
  then have "r \<in># mset reqs" by simp
  then show ?thesis by simp
qed

lemma execute_files:
  assumes "orderly env" and "run_prog (files_calls env r) w = (Returned y, u)"
  shows "w_fs (snd (Execute env r w)) = w_fs u"
    and "\<not> has_hook r \<Longrightarrow> fst (Execute env r w) = Returned (case y of Inl err \<Rightarrow> Some err | Inr its \<Rightarrow> None)"
    and "fst (Execute env r w) = Returned None \<Longrightarrow> \<exists>its. y = Inr its"
proof -
  have e: "Execute env r w = after_files env r (Returned y) u" using assms(2) by (simp add: run_files)
  show "w_fs (snd (Execute env r w)) = w_fs u"
  proof (cases y)
    case (Inr its)
    then show ?thesis using run_hook_fs [OF assms(1), of r its u]
      by (cases "run_hook env r its u") (simp add: e after_files_def)
  qed (simp add: e after_files_def)
  show "\<not> has_hook r \<Longrightarrow> fst (Execute env r w) = Returned (case y of Inl err \<Rightarrow> Some err | Inr its \<Rightarrow> None)"
    by (simp add: e after_files_def run_hook_def has_hook_def split: sum.splits)
  show "fst (Execute env r w) = Returned None \<Longrightarrow> \<exists>its. y = Inr its"
    by (cases y) (simp_all add: e after_files_def)
qed

lemma outcome_alone:
  assumes inv: "crew_inv jobs base reqs env w c" and r: "(r, failed) \<in> set (p_outcomes (c_pool c))"
  shows "r \<in> set reqs" and "\<exists>y u. run_prog (files_calls (env r) r) w = (Returned y, u) \<and>
    same_part base (req_domain r) (w_fs u) (w_fs (c_world c)) \<and> orderly (env r) \<and>
    (case y of Inl err \<Rightarrow> failed | Inr its \<Rightarrow> failed \<longrightarrow> has_hook r)"
proof -
  show m: "r \<in> set reqs" using inv r outcome_request unfolding crew_inv_def by blast
  obtain y where y: "c_files c r = Ret (Returned y)" "case y of Inl err \<Rightarrow> failed | Inr its \<Rightarrow> failed \<longrightarrow> has_hook r"
    using inv r by (auto simp: crew_inv_def noted_def)
  have tr: "parts.tracks base reqs fetched (\<lambda>r. files_calls (env r) r) w (c_files c) (c_world c)" and "orderly (env r)"
    using inv m by (simp_all add: crew_inv_def)
  then show "\<exists>y u. run_prog (files_calls (env r) r) w = (Returned y, u) \<and>
    same_part base (req_domain r) (w_fs u) (w_fs (c_world c)) \<and> orderly (env r) \<and>
    (case y of Inl err \<Rightarrow> failed | Inr its \<Rightarrow> failed \<longrightarrow> has_hook r)"
    using parts.tracks_Ret [OF tr m y(1)] y(2) by blast
qed

lemma executed_as_alone:
  assumes inv: "crew_inv jobs base reqs env w c" and r: "(r, failed) \<in> set (p_outcomes (c_pool c))"
  shows "same_part base (req_domain r) (w_fs (snd (Execute (env r) r w))) (w_fs (c_world c)) \<and>
    (\<not> has_hook r \<longrightarrow> (failed \<longleftrightarrow> fst (Execute (env r) r w) \<noteq> Returned None))"
proof -
  obtain y u where u: "run_prog (files_calls (env r) r) w = (Returned y, u)"
    "same_part base (req_domain r) (w_fs u) (w_fs (c_world c))" "orderly (env r)"
    "case y of Inl err \<Rightarrow> failed | Inr its \<Rightarrow> failed \<longrightarrow> has_hook r"
    using outcome_alone [OF inv r] by blast
  show ?thesis using u(2,4) execute_files(1,2) [OF u(3,1)] by (auto split: sum.splits)
qed

section \<open>Readers beside the crew\<close>

lemma read_name_part: "same_part base d f g \<Longrightarrow> plain d \<Longrightarrow> links_inside base d (fs_tree f) \<Longrightarrow> of_domain base d p \<Longrightarrow>
    read_name (fs_tree g) p = read_name (fs_tree f) p"
  using lookup_follow_same [of base d f g p] by (simp add: read_name_def)

text \<open>What holds on the whole way of a run alone, and is about the part of the domain only, holds
  in every state of the crew.\<close>

lemma on_the_way:
  assumes ready: "crew_ready base reqs env w" and inv: "crew_inv jobs base reqs env w c" and r: "r \<in> set reqs"
    and alone: "evolves P (w_fs w) (w_fs (snd (Execute (env r) r w)))" and start: "P (fs_tree (w_fs w))"
  shows "\<exists>v :: world. P (fs_tree (w_fs v)) \<and> same_part base (req_domain r) (w_fs v) (w_fs (c_world c)) \<and>
    links_inside base (req_domain r) (fs_tree (w_fs v))"
proof -
  let ?p = "files_calls (env r) r"
  have o: "orderly (env r)" and conf: "confined base reqs r (fetched r) ?p"
    and ok: "plain (req_domain r) \<and> links_inside base (req_domain r) (fs_tree (w_fs w))"
    using crew_start [OF ready, of jobs] ready r
    by (auto simp: crew_inv_def parts.tracks_def start_crew_def crew_ready_def)
  obtain v where v: "alone\<^sup>*\<^sup>* (?p, w) (c_files c r, v)" "same_part base (req_domain r) (w_fs v) (w_fs (c_world c))"
    using inv r by (auto simp: crew_inv_def parts.tracks_def)
  note mid = parts.alone_confined [OF v(1) conf ok]
  obtain x u where u: "run_prog ?p w = (x, u)" by fastforce
  have rest: "alone\<^sup>*\<^sup>* (c_files c r, v) (Ret x, u)" using run_alone [of "c_files c r" v] alone_run [OF v(1)] u by simp
  note last = parts.alone_confined [OF rest conjunct1 [OF mid] conjunct1 [OF conjunct2 [OF mid]]]
  then obtain y where "x = Returned y" by (auto simp: parts.confined_Ret_iff fetched_def)
  then have "evolves P (w_fs w) (w_fs u)" using alone execute_files(1) [OF o] u by simp
  then have "P (fs_tree (w_fs v))" using grows_between mid last start by blast
  then show ?thesis using v(2) mid by blast
qed

lemma crew_reads:
  assumes ready: "crew_ready base reqs env w" and inv: "crew_inv jobs base reqs env w c" and r: "r \<in> set reqs"
    and fresh: "fresh_stamp (env r) base (req_domain r) (req_items r) (fs_tree (w_fs w))"
    and settled: "settled (req_items r) (fs_tree (w_fs w))"
    and fetch: "fetch_items (env r) (req_items r) w = (Inr its, w1)"
  shows "old_or_new its (fs_tree (w_fs w)) (fs_tree (w_fs (c_world c)))"
proof -
  let ?d = "req_domain r" and ?t0 = "fs_tree (w_fs w)"
  have d: "plain ?d" "items_placed base ?d (req_items r)" "orderly (env r)"
    using ready r by (auto simp: crew_ready_def)
  have same: "list_all2 same_item (req_items r) its" using fetch_items_effect [OF fetch] by simp
  have pl: "items_placed base ?d its" by (rule placed_same [OF d(2) same])
  have new: "list_all (\<lambda>i. map_of ?t0 (dated_name (stamp_of (env r)) base ?d i) = None) its"
    using fresh fresh_stamp_same [OF same] by (simp add: fresh_stamp_def)
  have set: "settled its ?t0" using settled by (simp add: settled_same [OF same])
  obtain res w' where run: "Execute (env r) r w = (res, w')" by fastforce
  have "evolves (old_or_new its ?t0) (w_fs w) (w_fs (snd (Execute (env r) r w)))"
    using execute_run [OF d(1-3) fresh fetch run] run_tree_reads [OF d(1) pl set new] run
    by (auto elim: evolves_mono)
  moreover have "old_or_new its ?t0 ?t0" by (simp add: old_or_new_def list_all_iff)
  ultimately obtain v :: world where v: "old_or_new its ?t0 (fs_tree (w_fs v))"
    "same_part base ?d (w_fs v) (w_fs (c_world c))" "links_inside base ?d (fs_tree (w_fs v))"
    using on_the_way [OF ready inv r] by blast
  have "read_name (fs_tree (w_fs (c_world c))) (ci_local i) = read_name (fs_tree (w_fs v)) (ci_local i)" if "i \<in> set its" for i
    using that pl of_domain_files(1) [OF d(1) _ format_int_stamp]
    by (intro read_name_part [OF v(2) d(1) v(3)]) (auto simp: items_placed_def list_all_iff)
  then show ?thesis using v(1) by (simp add: old_or_new_def list_all_iff)
qed

section \<open>A crew with two domains\<close>

text \<open>Two workers; the download for one domain succeeds, the other one fails.\<close>

definition two_reqs :: "cert_req list" where
  "two_reqs = [example_req ''example.org'', example_req ''example.net'']"

lemma example_links: "links_inside ''/s'' d (fs_tree (w_fs example_world)) \<longleftrightarrow>
   (\<forall>(q, n)\<in>set (fs_tree (w_fs example_world)). \<forall>l. of_domain ''/s'' d q \<longrightarrow> n = Symlink l \<longrightarrow> of_domain ''/s'' d (link_target q l))"
  (is "_ \<longleftrightarrow> ?r")
proof -
  have "distinct (map fst (fs_tree (w_fs example_world)))" by code_simp
  then show ?thesis unfolding links_inside_def by (auto simp: map_of_eq_Some_iff)
qed

lemma example_link: "of_domain ''/s'' ''example.org'' ''/s/example.org/cert.pem''"
  "of_domain ''/s'' ''example.org'' (link_target ''/s/example.org/cert.pem'' ''cert-100.pem'')"
proof -
  have "''/s/example.org/cert.pem'' = in_domain ''/s'' ''example.org'' ''cert.pem''" "plain ''cert.pem''"
    "link_target ''/s/example.org/cert.pem'' ''cert-100.pem'' = in_domain ''/s'' ''example.org'' ''cert-100.pem''"
    "plain ''cert-100.pem''" by code_simp+
  then show "of_domain ''/s'' ''example.org'' ''/s/example.org/cert.pem''"
    "of_domain ''/s'' ''example.org'' (link_target ''/s/example.org/cert.pem'' ''cert-100.pem'')"
    unfolding of_domain_def by blast+
qed

lemma example_org_links: "links_inside ''/s'' ''example.org'' (fs_tree (w_fs example_world))"
  and example_net_links: "links_inside ''/s'' ''example.net'' (fs_tree (w_fs example_world))"
proof -
  let ?t = "fs_tree (w_fs example_world)"
  have d: "plain ''example.org''" "plain ''example.net''" by code_simp+
  have only: "n = Symlink l \<Longrightarrow> (q, n) \<in> set ?t \<Longrightarrow> q = ''/s/example.org/cert.pem'' \<and> l = ''cert-100.pem''" for q n l
    by (auto simp: example_world_def example_store_def)
  show "links_inside ''/s'' ''example.org'' ?t" "links_inside ''/s'' ''example.net'' ?t"
    unfolding example_links using only example_link domains_apart [OF d] by fastforce+
qed

lemma two_ready: "crew_ready ''/s'' two_reqs (\<lambda>_. example_exec) example_world"
proof -
  let ?t = "fs_tree (w_fs example_world)"
  have dom: "map req_domain two_reqs = [''example.org'', ''example.net'']" by code_simp
  have d: "plain ''example.org''" "plain ''example.net''" by code_simp+
  have pl: "list_all (\<lambda>r. items_placed ''/s'' (req_domain r) (req_items r)) two_reqs" by code_simp
  have "\<forall>x\<in>set (map req_domain two_reqs). plain x \<and> links_inside ''/s'' x ?t"
    using d example_org_links example_net_links unfolding dom by simp
  moreover have "distinct (map req_domain two_reqs)" unfolding dom by simp
  ultimately show ?thesis using pl example_orderly by (auto simp: crew_ready_def list_all_iff)
qed

abbreviation two_start :: crew where
  "two_start \<equiv> start_crew (\<lambda>_. example_exec) (start_pool 2 two_reqs) example_world"

lemma two_end:
  "\<exists>c n. (crew_step (\<lambda>_. example_exec))\<^sup>*\<^sup>* two_start c \<and> p_waiter (c_pool c) = WaitDone n \<and>
     mset (map fst (p_outcomes (c_pool c))) = mset two_reqs"
proof -
  obtain c n where c: "(crew_step (\<lambda>_. example_exec))\<^sup>*\<^sup>* two_start c" "p_waiter (c_pool c) = WaitDone n"
    using crew.reaches_final [OF crew_start [OF two_ready]] by blast
  then have "pool_inv 2 two_reqs (c_pool c)" using crew_reached [OF two_ready c(1)] by (simp add: crew_inv_def)
  then show ?thesis using end_of_run(2) [OF _ c(2)] c by auto
qed

lemma two_runs:
  "fst (Execute example_exec (example_req ''example.org'') example_world) = Returned None"
  "fst (Execute example_exec (example_req ''example.net'') example_world) \<noteq> Returned None"
  "\<not> has_hook (example_req ''example.org'')" "\<not> has_hook (example_req ''example.net'')"
  by code_simp+

section \<open>Properties\<close>







end
