(* ===== verification/ClientMain.thy ===== *)
theory ClientMain
  imports Requests WorkerProps Http
begin

text \<open>
  \<open>cmd/cert-proxy-client/main.go\<close>: \<open>fetchCNs\<close>, which asks the server for the list of domains,
  and \<open>main\<close>: what happens before the pool starts, and what after \<open>Wait\<close> returned; in between
  the pool runs (\<open>Worker\<close>).  \<open>cm_range n\<close> is the order of the n-th \<open>range\<close> over the set of
  domains, \<open>cm_do\<close> is \<open>http.Client.Do\<close>, \<open>cm_run\<close> runs the shared hook.
\<close>

section \<open>White space\<close>

text \<open>\<open>strings.TrimSpace\<close>: the UTF-8 encodings of the white space characters of Unicode.\<close>

definition white_space :: "string list" where
  "white_space = [[CHR '' ''], [tab], [nl], [CHR 0x0B], [CHR 0x0C], [cr], [CHR 0xC2, CHR 0x85],
     [CHR 0xC2, CHR 0xA0], [CHR 0xE1, CHR 0x9A, CHR 0x80]]
     @ map (\<lambda>n. [CHR 0xE2, CHR 0x80, char_of n]) ([128..<139] @ [168, 169, 175])
     @ [[CHR 0xE2, CHR 0x81, CHR 0x9F], [CHR 0xE3, CHR 0x80, CHR 0x80]]"

function strip :: "string list \<Rightarrow> string \<Rightarrow> string" where
  "strip ps s =
     (case find (\<lambda>p. p \<noteq> [] \<and> has_prefix s p) ps of None \<Rightarrow> s
      | Some p \<Rightarrow> strip ps (drop (length p) s))"
  by auto

termination
proof (relation "measure (\<lambda>(ps, s). length s)")
  fix ps s p
  assume "find (\<lambda>p. p \<noteq> [] \<and> has_prefix s p) ps = Some p"
  then have "p \<noteq> [] \<and> has_prefix s p" by (auto simp: find_Some_iff)
  then show "((ps, drop (length p) s), (ps, s)) \<in> measure (\<lambda>(ps, s). length s)"
    by (auto simp: has_prefix_iff)
qed simp

declare strip.simps [simp del]

definition trim_space :: "string \<Rightarrow> string" where
  "trim_space s = rev (strip (map rev white_space) (rev (strip white_space s)))"

section \<open>fetchCNs\<close>

fun read_domains :: "string list \<Rightarrow> string list \<Rightarrow> go_error + string list" where
  "read_domains [] domains = Inr domains"
| "read_domains (text # ts) domains =
     (let line = trim_space text in
      if line = [] then read_domains ts domains
      else (case ValidateDomain line of
          Some err \<Rightarrow> Inl (Wrapf (''server returned invalid domain '' @ quote line @ '': '') err [])
        | None \<Rightarrow> read_domains ts (domains @ [line])))"

definition version_warning :: "string \<Rightarrow> reply \<Rightarrow> string list" where
  "version_warning version resp =
     (if version \<noteq> header_get (rp_headers resp) ''X-Version''
      then [''Warning: Version mismatch: server:'' @ header_get (rp_headers resp) ''X-Version''
        @ '' client:'' @ version] else [])"

text \<open>The result and the lines logged.\<close>

definition fetchCNs ::
    "(string \<Rightarrow> bool) \<Rightarrow> string \<Rightarrow> (client_request \<Rightarrow> go_error + reply) \<Rightarrow> string \<Rightarrow>
     (go_error + string list) \<times> string list" where
  "fetchCNs ip6 version send connect =
     (case new_request ip6 (connect @ path_join [''/v1'', ''list'']) of Inl err \<Rightarrow> (Inl err, [])
      | Inr req \<Rightarrow>
        (case send (request_header_add ''X-Version'' version req) of Inl err \<Rightarrow> (Inl err, [])
         | Inr resp \<Rightarrow>
           (if rp_code resp \<noteq> 200 then (Inl (Msg (rp_status resp)), [])
            else (case scan (rp_body resp) of (ts, err) \<Rightarrow>
              ((case read_domains ts [] of Inl e \<Rightarrow> Inl e
                | Inr domains \<Rightarrow> (case err of Some e \<Rightarrow> Inl e | None \<Rightarrow> Inr domains)),
               version_warning version resp)))))"

section \<open>main\<close>

record ('b, 'c) client_main = "'b client_env" +
  cm_pair :: "string \<Rightarrow> string \<Rightarrow> go_error + 'c"
  cm_has_certs :: "string \<Rightarrow> bool"
  cm_do :: "client_request \<Rightarrow> go_error + reply"
  cm_range :: "nat \<Rightarrow> uniq_strings \<Rightarrow> string list"
  cm_environ :: "string list"
  cm_run :: "command \<Rightarrow> go_error option"

fun check_domains :: "string \<Rightarrow> string list \<Rightarrow> unit startup" where
  "check_domains cnfile [] = Go_on ()"
| "check_domains cnfile (domain # ds) =
     and_then (fatal_if (''invalid domain '' @ quote domain @ '' in '' @ cnfile @ '': '') (ValidateDomain domain))
       (\<lambda>_. check_domains cnfile ds)"

definition or_crash :: "'a outcome \<Rightarrow> 'a startup" where
  "or_crash r = (case r of Panicked m \<Rightarrow> Crash m | Returned a \<Rightarrow> Go_on a)"

text \<open>The domains of the command line, the file and, in auto mode, the server.\<close>

definition collect_CNs ::
    "('b, 'c) client_main \<Rightarrow> fs \<Rightarrow> client_flags \<Rightarrow> uniq_strings \<Rightarrow> uniq_strings startup" where
  "collect_CNs env f opt CNs =
     (case AddItemsFromFile uniq_add f CNs (co_cnfile opt) of
        (_, Some err) \<Rightarrow> Fatal (error_text err)
      | (CNs1, None) \<Rightarrow>
        and_then (check_domains (co_cnfile opt) (cm_range env 0 CNs1)) (\<lambda>_.
        and_then (or_crash (TLSClientConfig (cm_pair env) (cm_has_certs env) f (co_sslfile opt)
          \<lparr>tls_certificates = [], tls_root_cas = None, tls_client_cas = None,
           tls_server_name = co_server_cn opt, tls_client_auth = NoClientCert, tls_min_version = 0\<rparr>)) (\<lambda>(cfg, err).
        and_then (fatal_if [] err) (\<lambda>_.
        if co_auto opt
        then and_then (or_fatal (fst (fetchCNs (ce_ip6 env) (ce_program_version env) (cm_do env) (co_connect opt))))
          (\<lambda>pushed. Go_on (uniq_add CNs1 pushed))
        else Go_on CNs1))))"

text \<open>The pool, with its tasks enqueued.\<close>

definition start_tasks ::
    "('b, 'c) client_main \<Rightarrow> client_flags \<Rightarrow> uniq_strings \<Rightarrow> pool startup" where
  "start_tasks env opt CNs =
     and_then (or_crash (NewPool (min (co_jobs opt) (int (card CNs))))) (\<lambda>pool.
     and_then (or_crash (EnqueueTasks
         (\<lambda>cn. NewReq (ce_ip6 env) (ce_program_version env) cn (co_connect opt) (co_certbase opt)
            (co_hook opt) (co_format opt) (co_passout opt) (co_pkcs12_compat opt))
         (cm_range env 1 CNs) pool)) (\<lambda>(err, pool').
     and_then (fatal_if [] err) (\<lambda>_. Go_on pool')))"

definition client_start ::
    "('b, 'c) client_main \<Rightarrow> fs \<Rightarrow> logger \<Rightarrow> string list \<Rightarrow> (client_flags \<times> uniq_strings \<times> pool) startup" where
  "client_start env f lg argv =
     and_then (client_parseFlags (client_env.truncate env) f lg argv) (\<lambda>(opt, CNs0, _, _).
     and_then (collect_CNs env (hardenUmask (ce_platform env) f) opt CNs0) (\<lambda>CNs.
     and_then (start_tasks env opt CNs) (\<lambda>pool. Go_on (opt, CNs, pool))))"

definition shared_command :: "('b, 'c) client_main \<Rightarrow> string \<Rightarrow> uniq_strings \<Rightarrow> command" where
  "shared_command env hook CNs =
     \<lparr>cmd_path = hook, cmd_args = [hook, ''shared''] @ uniq_items (cm_range env 2 CNs),
      cmd_env = cm_environ env @ [''DOMAINS='' @ join '' '' (uniq_items (cm_range env 3 CNs))]\<rparr>"

text \<open>After \<open>Wait\<close> returned the count \<open>n\<close>.\<close>

definition client_end :: "('b, 'c) client_main \<Rightarrow> client_flags \<Rightarrow> uniq_strings \<Rightarrow> nat \<Rightarrow> unit startup" where
  "client_end env opt CNs n =
     and_then (fatal_if [] (wait_result n)) (\<lambda>_.
     if co_shared_hook opt \<noteq> []
     then and_then (fatal_if (''Running shared hook '' @ quote (co_shared_hook opt) @ '': '')
         (cm_run env (shared_command env (co_shared_hook opt) CNs))) (\<lambda>_. Exit 0 [])
     else Exit 0 [])"

end
