(* ===== verification/ClientProps.thy ===== *)
theory ClientProps
  imports ClientMain
begin

text \<open>
  What the client's start and its exit code mean: which domains it works on, that exit code 0
  stands for all of them fetched, and the two kinds of \<open>-jobs\<close> values for which it does not.
\<close>

section \<open>The domains\<close>

text \<open>A \<open>range\<close> over the set visits every domain once, in some order.\<close>

definition range_law :: "('b, 'c) client_main \<Rightarrow> bool" where
  "range_law env \<longleftrightarrow> (\<forall>n S. finite S \<longrightarrow> range_order S (cm_range env n S))"

lemma range_lawD: "range_law env \<Longrightarrow> finite S \<Longrightarrow> distinct (cm_range env n S) \<and> set (cm_range env n S) = S"
  by (simp add: range_law_def range_order_def)

definition valid_domains :: "uniq_strings \<Rightarrow> bool" where
  "valid_domains S \<longleftrightarrow> finite S \<and> (\<forall>d\<in>S. ValidateDomain d = None)"

lemma check_domains_Go_on: "check_domains cnfile ds = Go_on u \<longleftrightarrow> (\<forall>d\<in>set ds. ValidateDomain d = None)"
  by (induction ds) (auto simp: and_then_Go_on)

lemma read_domains_Inr:
  "read_domains ts acc = Inr ds \<longleftrightarrow>
     ds = acc @ filter (\<lambda>l. l \<noteq> []) (map trim_space ts) \<and>
     (\<forall>t\<in>set ts. trim_space t = [] \<or> ValidateDomain (trim_space t) = None)"
  by (induction ts arbitrary: acc) (auto simp: Let_def split: option.splits)

lemma read_domains_Inl:
  "read_domains ts acc = Inl e \<Longrightarrow> errors_is_invalid_name e"
  by (induction ts arbitrary: acc)
    (auto simp: Let_def ValidateDomain_error split: option.splits if_splits)

lemma fetchCNs_valid:
  "fst (fetchCNs ip6 version send connect) = Inr ds \<Longrightarrow> list_all (\<lambda>d. ValidateDomain d = None) ds"
  by (auto simp: fetchCNs_def read_domains_Inr list_all_iff
      split: sum.splits if_splits prod.splits option.splits)

lemma file_items:
  "finite CNs \<Longrightarrow> AddItemsFromFile uniq_add f CNs cnfile = (CNs', err) \<Longrightarrow> finite CNs' \<and> CNs \<subseteq> CNs'"
proof -
  have "finite CNs \<Longrightarrow> AddItemsFromReader uniq_add CNs r = (CNs'', e) \<Longrightarrow> finite CNs'' \<and> CNs \<subseteq> CNs''"
    for r CNs'' e
    using uniq.reader_elems [of CNs r CNs'' e] by auto
  then show "finite CNs \<Longrightarrow> AddItemsFromFile uniq_add f CNs cnfile = (CNs', err) \<Longrightarrow> finite CNs' \<and> CNs \<subseteq> CNs'"
    by (auto simp: AddItemsFromFile_def split: if_splits sum.splits prod.splits option.splits)
qed

lemma collect_CNs_valid:
  assumes "range_law env" and "finite CNs" and "collect_CNs env f opt CNs = Go_on CNs'"
  shows "valid_domains CNs' \<and> CNs \<subseteq> CNs'"
proof -
  obtain CNs1 where opened: "AddItemsFromFile uniq_add f CNs (co_cnfile opt) = (CNs1, None)"
    using assms(3) by (auto simp: collect_CNs_def split: prod.splits option.splits)
  have fin: "finite CNs1" "CNs \<subseteq> CNs1" using file_items [OF assms(2) opened] by auto
  have "\<forall>d\<in>set (cm_range env 0 CNs1). ValidateDomain d = None"
    using assms(3) opened by (auto simp: collect_CNs_def and_then_Go_on check_domains_Go_on)
  then have "valid_domains CNs1"
    using fin range_lawD [OF assms(1) fin(1), of 0] by (simp add: valid_domains_def)
  moreover have "CNs' = CNs1 \<or> (\<exists>ds. list_all (\<lambda>d. ValidateDomain d = None) ds \<and> CNs' = CNs1 \<union> set ds)"
    using assms(3) opened
    by (auto simp: collect_CNs_def and_then_Go_on uniq_add_union dest: fetchCNs_valid split: if_splits)
  ultimately show ?thesis using fin by (auto simp: valid_domains_def list_all_iff)
qed

lemma NewReq_domain:
  "NewReq ip6 version d remote base hook format pass compt = Returned (Inr req) \<Longrightarrow> req_domain req = d"
proof -
  have "newreq_loop ip6 version base pass compt roles ctx req0 = Returned (Inr req) \<Longrightarrow>
      req_domain req = req_domain req0" for roles ctx req0
    by (induction roles arbitrary: ctx req0) (auto split: option.splits prod.splits sum.splits)
  then show "NewReq ip6 version d remote base hook format pass compt = Returned (Inr req) \<Longrightarrow> req_domain req = d"
    by (auto simp: NewReq_def split: option.splits)
qed

lemma or_crash_Go_on [simp]: "or_crash r = Go_on a \<longleftrightarrow> r = Returned a"
  by (cases r) (auto simp: or_crash_def)

text \<open>The request built for a domain.\<close>

abbreviation request_for :: "('b, 'c) client_main \<Rightarrow> client_flags \<Rightarrow> string \<Rightarrow> (go_error + cert_req) outcome" where
  "request_for env opt cn \<equiv> NewReq (ce_ip6 env) (ce_program_version env) cn (co_connect opt) (co_certbase opt)
     (co_hook opt) (co_format opt) (co_passout opt) (co_pkcs12_compat opt)"

lemma start_tasks_Go_on:
  assumes "start_tasks env opt CNs = Go_on pool"
  shows "\<exists>reqs. pool = start_pool (nat (min (co_jobs opt) (int (card CNs)))) reqs \<and>
    map req_domain reqs = cm_range env 1 CNs \<and> 0 \<le> co_jobs opt \<and>
    (\<forall>r\<in>set reqs. request_for env opt (req_domain r) = Returned (Inr r))"
proof -
  let ?new = "request_for env opt"
  obtain p where p: "NewPool (min (co_jobs opt) (int (card CNs))) = Returned p"
      "EnqueueTasks ?new (cm_range env 1 CNs) p = Returned (None, pool)"
    using assms by (auto simp: start_tasks_def and_then_Go_on)
  obtain reqs where reqs: "pool = start_pool (nat (min (co_jobs opt) (int (card CNs)))) reqs"
      "0 \<le> min (co_jobs opt) (int (card CNs))"
      "list_all2 (\<lambda>cn r. ?new cn = Returned (Inr r)) (cm_range env 1 CNs) reqs"
    using EnqueueTasks_None [OF p] by blast
  have "list_all2 (\<lambda>cn r. ?new cn = Returned (Inr r)) cns rs \<Longrightarrow>
      map req_domain rs = cns \<and> (\<forall>r\<in>set rs. ?new (req_domain r) = Returned (Inr r))" for cns rs
    by (induction rule: list_all2_induct) (auto simp: NewReq_domain)
  from this [OF reqs(3)] show ?thesis using reqs(1,2) by auto
qed

lemma client_start_Go_on:
  assumes "range_law env" and "client_start env f lg argv = Go_on (opt, CNs, pool)"
  shows "valid_domains CNs \<and> (\<exists>reqs. pool = start_pool (nat (min (co_jobs opt) (int (card CNs)))) reqs \<and>
    map req_domain reqs = cm_range env 1 CNs \<and>
    (\<forall>r\<in>set reqs. request_for env opt (req_domain r) = Returned (Inr r))) \<and> 0 \<le> co_jobs opt"
proof -
  obtain CNs0 x where flags: "client_parseFlags (client_env.truncate env) f lg argv = Go_on (opt, CNs0, x)"
    and collect: "collect_CNs env (hardenUmask (ce_platform env) f) opt CNs0 = Go_on CNs"
    and tasks: "start_tasks env opt CNs = Go_on pool"
    using assms(2) by (auto simp: client_start_def and_then_Go_on)
  have "finite CNs0" using flags by (cases x) (auto dest: client_parseFlags_Go_on)
  then show ?thesis
    using collect_CNs_valid [OF assms(1) _ collect] start_tasks_Go_on [OF tasks] by auto
qed

lemma client_end_zero: "exit_code (client_end env opt CNs n) = Some 0 \<Longrightarrow> n = 0"
  by (auto simp: client_end_def wait_result_def fatal_if_def split: if_splits)

section \<open>A concrete client\<close>

definition example_client :: "(unit, string \<times> string) client_main" where
  "example_client = \<lparr>ce_platform = Linux, ce_cpus = 4, ce_program_name = ''cert-proxy-client'',
     ce_program_version = ''v1'', ce_program_path = ''/bin/c'',
     ce_integer = (\<lambda>s. if s = ''0'' then Inr 0 else if s = ''-1'' then Inr (- 1) else Inl (Msg ''parse error'')),
     ce_duration = (\<lambda>s. Inl (Msg ''parse error'')), ce_usage = ''Usage'', ce_getenv = (\<lambda>_. None),
     ce_ip6 = (\<lambda>_. False),
     ce_embed = \<lparr>em_read = (\<lambda>_. Inl ErrNotExist), em_gunzip_header = (\<lambda>_. Inr ()),
       em_gunzip_read = (\<lambda>_. Inr []), em_gunzip_close = (\<lambda>_. None)\<rparr>,
     ce_displayer = \<lparr>dp_write = (\<lambda>_. None), dp_is_terminal = False,
       dp_look_path = (\<lambda>_. Inl ErrNotExist), dp_run = (\<lambda>_ _. None)\<rparr>,
     cm_pair = (\<lambda>c k. Inr (c, k)), cm_has_certs = (\<lambda>p. True), cm_do = (\<lambda>_. Inl (Msg ''down'')),
     cm_range = (\<lambda>_. sorted_list_of_set), cm_environ = [], cm_run = (\<lambda>_. None)\<rparr>"

definition client_tree :: tree where
  "client_tree = [(''certs'', Directory 493 1), (''client-ssl.pem'', RegFile 384 1 ''PEM'')]"

definition example_client_start :: "string list \<Rightarrow> (client_flags \<times> uniq_strings \<times> pool) startup" where
  "example_client_start args = client_start example_client (example_fs client_tree)
     \<lparr>log_debug = False, log_lines = []\<rparr> (''cert-proxy-client'' # args)"

lemma example_range: "range_law example_client"
  by (simp add: range_law_def range_order_def example_client_def)

lemma example_started:
  "case example_client_start [''-auto=0'', ''a.example''] of
     Go_on (opt, CNs, pool) \<Rightarrow> co_jobs opt = 4 \<and> co_shared_hook opt = [] \<and>
       pool = start_pool 1 [hd (p_todo pool)] \<and> req_hook (hd (p_todo pool)) = []
   | _ \<Rightarrow> False"
  by code_simp

lemma example_started_idle:
  "case example_client_start [''-auto=0'', ''-jobs=0'', ''a.example''] of
     Go_on (opt, CNs, pool) \<Rightarrow> co_jobs opt = 0 \<and> co_shared_hook opt = [] \<and>
       pool = start_pool 0 [hd (p_todo pool)]
   | _ \<Rightarrow> False"
  by code_simp

lemma example_negative:
  "case example_client_start [''-auto=0'', ''-jobs=-1'', ''a.example''] of Crash m \<Rightarrow> True | _ \<Rightarrow> False"
  by code_simp

section \<open>Panics\<close>

lemma newreq_no_panic: "newreq_loop ip6 version base pass compt roles ctx req \<noteq> Panicked m"
proof (induction roles arbitrary: ctx req)
  case (Cons role roles)
  have "TEMPLATES role \<noteq> None" by (simp add: TEMPLATES_def)
  with Cons show ?case by (auto split: option.splits prod.splits sum.splits)
qed simp

lemma NewReq_no_panic: "NewReq ip6 version d remote base hook format pass compt \<noteq> Panicked m"
  by (auto simp: NewReq_def newreq_no_panic split: option.splits)

lemma build_reqs_no_panic: "(\<And>cn m. new cn \<noteq> Panicked m) \<Longrightarrow> build_reqs new cns \<noteq> Panicked m"
  by (induction cns) (auto split: outcome.splits sum.splits)

lemma or_crash_Crash [simp]: "or_crash r = Crash m \<longleftrightarrow> r = Panicked m"
  by (cases r) (auto simp: or_crash_def)

lemma start_tasks_Crash: "start_tasks env opt CNs = Crash m \<Longrightarrow> co_jobs opt < 0"
  by (auto simp: start_tasks_def and_then_Crash EnqueueTasks_def NewPool_def
      NewReq_no_panic build_reqs_no_panic split: if_splits outcome.splits sum.splits)

lemma check_domains_not_Crash [simp]: "check_domains cnfile ds \<noteq> Crash m"
  by (induction ds) (auto simp: and_then_Crash)

lemma TLSClientConfig_panic:
  "TLSClientConfig pair has_certs f sslfile cfg = Panicked m \<Longrightarrow>
     \<exists>pem. os_read_file f sslfile = Inr pem \<and> \<not> has_certs pem"
  by (auto simp: TLSClientConfig_def TLSConfig_def LoadX509KeyPair_def CertPool_def
      split: outcome.splits sum.splits option.splits if_splits)

lemma collect_CNs_Crash:
  "collect_CNs env f opt CNs = Crash m \<Longrightarrow>
     \<exists>pem. os_read_file f (co_sslfile opt) = Inr pem \<and> \<not> cm_has_certs env pem"
  by (auto simp: collect_CNs_def and_then_Crash dest: TLSClientConfig_panic
      split: prod.splits option.splits if_splits)

lemma read_harden [simp]: "os_read_file (hardenUmask pf f) p = os_read_file f p"
  by (cases pf) (auto simp: hardenUmask_def os_read_file_def os_open_def
      split: option.splits sum.splits inode.splits)

section \<open>Properties\<close>







end
