(* ===== verification/System.thy ===== *)
theory System
  imports ClientProps ServerErrors Atomic
begin

text \<open>
  The two programs together: what the server receives when the client sends a request, and what
  the client gets back.  The connection itself belongs to \<open>net/http\<close> and \<open>crypto/tls\<close>: a request
  arrives with its method, its path and query, its headers and the names of the certificates the
  client presented; a handler that panics or never ends gives the client an error.
\<close>

section \<open>The connection\<close>

definition received :: "string list \<Rightarrow> client_request \<Rightarrow> request" where
  "received cns q =
     \<lparr>rq_method = ''GET'',
      rq_url = empty_url\<lparr>u_path := u_path (cq_url q), u_raw_path := u_raw_path (cq_url q),
        u_raw_query := u_raw_query (cq_url q)\<rparr>,
      rq_headers = cq_headers q, rq_remote_addr = ''client'', rq_tls = Some cns\<rparr>"

text \<open>A handler that wrote no status gives 200.\<close>

definition reply_of :: "response \<Rightarrow> reply" where
  "reply_of w = (let c = (case rs_status w of None \<Rightarrow> 200 | Some c \<Rightarrow> c) in
     \<lparr>rp_code = c, rp_status = dec_nat c, rp_headers = rs_headers w, rp_body = (rs_body w, None)\<rparr>)"

definition lost :: go_error where
  "lost = UrlError ''Get'' [] (Msg ''EOF'')"

definition asks :: "('k, 'c) server \<Rightarrow> string list \<Rightarrow> client_request \<Rightarrow> go_error + reply" where
  "asks sv cns q =
     (case handle_request sv (received cns q) of
        Dispatch (s, HPanic m) \<Rightarrow> Inl lost
      | Dispatch (s, HNoReturn) \<Rightarrow> Inl lost
      | Dispatch (s, _) \<Rightarrow> Inr (reply_of (h_resp s))
      | NoHandler \<Rightarrow> Inr (reply_of (http_Error ''404 page not found'' 404 new_response))
      | Redirect p \<Rightarrow> Inr (reply_of (write_header 307 new_response)))"

lemma received_simps:
  "rq_tls (received cns q) = Some cns" "rq_method (received cns q) = ''GET''"
  "u_path (rq_url (received cns q)) = u_path (cq_url q)"
  "escaped_path (rq_url (received cns q)) = escaped_path (cq_url q)"
  "url_query (rq_url (received cns q)) = url_query (cq_url q)"
  by (simp_all add: received_def escaped_path_def url_query_def)

section \<open>Routing a client request\<close>

definition role_handlers :: "role \<Rightarrow> handler list" where
  "role_handlers r = (if key_item r then [Authz, Serve] else [Serve])"

lemma path_unescape_url: "list_all url_char s \<Longrightarrow> path_unescape s = s"
  by (simp add: path_unescape_def unescape_url_chars)

lemma domain_url_chars: "domain_name d \<Longrightarrow> list_all url_char d"
  by (auto simp: domain_name_def list_all_iff url_char_def)

lemma endpoint_elems: "endpoint_path [] r d = CHR ''/'' # join ''/'' [''v1'', endpoint_of r, d]"
  by (simp add: endpoint_path_def)

lemma endpoint_of_plain: "plain (endpoint_of r)"
  by (cases r) (simp_all add: endpoint_of_def plain_def)

lemma endpoint_split:
  assumes "plain d"
  shows "split_on CHR ''/'' (endpoint_path [] r d) = [[], ''v1'', endpoint_of r, d]"
proof -
  have "split_on CHR ''/'' (join [CHR ''/''] [[], ''v1'', endpoint_of r, d]) = [[], ''v1'', endpoint_of r, d]"
    using assms endpoint_of_plain [of r] by (intro split_on_join) (auto simp: plain_def)
  then show ?thesis by (simp add: endpoint_path_def)
qed

lemma mux_lookup_endpoint:
  assumes "mux_segments p = [''v1'', endpoint_of r, d]"
  shows "mux_lookup newMux p = Some (role_handlers r)"
  using assms
  by (cases r) (simp_all add: mux_lookup_def newMux_def pattern_match_list pattern_match_tree
      endpoint_of_def role_handlers_def key_item_def)

lemma route_endpoint:
  assumes d: "domain_name d" and p: "escaped_path (rq_url req) = endpoint_path [] r d"
  shows "mux_route newMux req = Dispatch (role_handlers r)"
proof -
  let ?p = "endpoint_path [] r d"
  have pd: "plain d" by (rule domain_name_plain [OF d])
  have "split_on CHR ''/'' (tl ?p) = [''v1'', endpoint_of r, d]"
    using endpoint_split [OF pd, of r] by (simp add: endpoint_path_def)
  then have "mux_segments ?p = [''v1'', endpoint_of r, d]"
    using path_unescape_url [OF domain_url_chars [OF d]] path_unescape_url [OF endpoint_url_chars [of r]]
    by (simp add: mux_segments_def path_unescape_url url_char_def domain_char_def is_lower_def is_digit_def)
  then have look: "mux_lookup newMux ?p = Some (role_handlers r)" by (rule mux_lookup_endpoint)
  have "mux_clean ?p = ?p"
    unfolding endpoint_elems using pd endpoint_of_plain [of r]
    by (intro mux_clean_plain) (simp_all add: plain_def)
  then show ?thesis using p look by (simp add: mux_route_def Let_def slash_missing_def)
qed

text \<open>The items of a request for a plain server address.\<close>

lemma item_remote:
  assumes "NewReq ip6 version d (''https://'' @ a @ b) base hook format pass compt = Returned (Inr req)"
    and "plain_authority a" and "base_path b" and "base \<noteq> []" and "i \<in> set (req_items req)"
  shows "ci_remote i = item_request version a b d pass compt (ci_role i)" and "domain_name d"
    and "ci_role i \<in> set (ROLES format)"
proof -
  note ok = NewReq_Inr [OF assms(1,4)]
  show d: "domain_name d" using ok by blast
  have r: "map ci_role (req_items req) = ROLES format" using ok by blast
  have m: "map ci_remote (req_items req) = map (item_request version a b d pass compt) (ROLES format)"
    using NewReq_plain [OF assms(2,3) d, of ip6 version base hook format pass compt] assms(1) by auto
  have "map ci_remote its = map g (map ci_role its) \<Longrightarrow> i \<in> set its \<Longrightarrow> ci_remote i = g (ci_role i)"
    for its g by (induction its) auto
  then show "ci_remote i = item_request version a b d pass compt (ci_role i)" using m r assms(5) by metis
  show "ci_role i \<in> set (ROLES format)" using r assms(5) by (metis image_eqI list.set_map)
qed

lemma item_request_simps:
  assumes "domain_name d" and "base_path b"
  shows "u_path (cq_url (item_request version a b d pass compt r)) = endpoint_path b r d"
    and "escaped_path (cq_url (item_request version a b d pass compt r)) = endpoint_path b r d"
    and "r \<noteq> RoleBUNDLE \<Longrightarrow> url_query (cq_url (item_request version a b d pass compt r)) = []"
    and "map_of (url_query (cq_url (item_request version a b d pass compt RoleBUNDLE))) =
      map_of (bundle_query pass compt [])"
    and "u_host (cq_url (item_request version a b d pass compt r)) = a"
    and "u_scheme (cq_url (item_request version a b d pass compt r)) = ''https''"
proof -
  have p: "plain_path (endpoint_path b r d)" by (rule endpoint_plain [OF assms(2,1)])
  have e: "escaped_path (plain_url a (endpoint_path b r d)) = endpoint_path b r d"
    using plain_escaped_path [OF p, where a = a and q = "[]"] by (simp add: plain_url_def empty_url_def)
  show "u_path (cq_url (item_request version a b d pass compt r)) = endpoint_path b r d"
    "u_host (cq_url (item_request version a b d pass compt r)) = a"
    "u_scheme (cq_url (item_request version a b d pass compt r)) = ''https''"
    by (simp_all add: item_request_def Let_def request_header_add_def with_bundle_query_def plain_url_simps)
  show "escaped_path (cq_url (item_request version a b d pass compt r)) = endpoint_path b r d"
    using e plain_escaped_path [OF p, where a = a]
    by (cases "r = RoleBUNDLE") (auto simp: item_request_def Let_def request_header_add_def with_bundle_query_def)
  show "r \<noteq> RoleBUNDLE \<Longrightarrow> url_query (cq_url (item_request version a b d pass compt r)) = []"
    by (simp add: item_request_def Let_def request_header_add_def plain_url_query)
  show "map_of (url_query (cq_url (item_request version a b d pass compt RoleBUNDLE))) =
      map_of (bundle_query pass compt [])"
    using bundle_values by (simp add: item_request_def Let_def request_header_add_def)
qed

section \<open>The list of domains\<close>

lemma scan_tokens_from: "scan_tokens ls = (ts, long) \<Longrightarrow> t \<in> set ts \<Longrightarrow>
    \<exists>l\<in>set ls. length l < max_token \<and> t = drop_cr l"
  by (induction ls arbitrary: ts long) (auto split: if_splits prod.splits)

lemma drop_cr_sub: "set (drop_cr l) \<subseteq> set l \<and> length (drop_cr l) \<le> length l"
  by (auto simp: drop_cr_def dest: in_set_butlastD)

lemma raw_lines_no_nl: "l \<in> set (raw_lines s) \<Longrightarrow> nl \<notin> set l"
  using split_on_no_sep [of l nl s] by (auto simp: raw_lines_def Let_def dest: in_set_butlastD split: if_splits)

lemma trim_length: "length (trim P s) \<le> length s"
proof -
  have "length (trim_right P s) \<le> length s" for s
    using length_dropWhile_le [of P "rev s"] by (simp add: trim_right_def)
  then show ?thesis unfolding trim_def trim_left_def by (meson length_dropWhile_le le_trans)
qed

lemma item_of_length: "length (item_of t) \<le> length t"
proof -
  have "length (fst (cut CHR ''#'' t)) \<le> length t" by (simp add: cut_def length_takeWhile_le)
  then show ?thesis unfolding item_of_def using trim_length le_trans by blast
qed

text \<open>Every entry of an authorization file fits on a line.\<close>

definition line_item :: "string \<Rightarrow> bool" where
  "line_item d \<longleftrightarrow> d \<noteq> [] \<and> nl \<notin> set d \<and> length d < max_token \<and> last d \<noteq> cr"

lemma cnList_items: "cnList sv cn = Inr allowed \<Longrightarrow> d \<in> allowed \<Longrightarrow> line_item d"
proof -
  assume "cnList sv cn = Inr allowed" and d: "d \<in> allowed"
  then obtain r e where "AddItemsFromReader uniq_add {} r = (allowed, e)"
    by (auto simp: cnList_def split: option.splits sum.splits prod.splits)
  then have "allowed = {x. x \<noteq> [] \<and> x \<in> item_of ` set (fst (scan r))}" using read_set [of r] by simp
  then obtain t where t: "t \<in> set (fst (scan r))" "d = item_of t" "d \<noteq> []" using d by auto
  then obtain l where l: "l \<in> set (raw_lines (fst r))" "length l < max_token" "t = drop_cr l"
    using scan_tokens_from by (fastforce simp: scan_def split: prod.splits)
  have "nl \<notin> set d" using raw_lines_no_nl [OF l(1)] drop_cr_sub [of l] item_of_chars [of t] l(3) t(2) by auto
  moreover have "length d < max_token" using item_of_length [of t] drop_cr_sub [of l] l(2,3) t(2) by simp
  moreover have "last d \<noteq> cr" using item_of_ends [of t] t(2,3) by (auto simp: blank_def)
  ultimately show "line_item d" using t(3) by (simp add: line_item_def)
qed

lemma join_unlines: "ds \<noteq> [] \<Longrightarrow> join [nl] ds @ [nl] = unlines [nl] ds"
  by (induction ds) (auto simp: unlines_def join_Cons)

lemma scan_list_body:
  assumes "\<forall>d\<in>set ds. line_item d"
  shows "scan (join [nl] ds @ [nl], None) = (if ds = [] then [[]] else ds, None)"
proof (cases "ds = []")
  case True
  then show ?thesis by (simp add: scan_def raw_lines_def drop_cr_def max_token_def)
next
  case False
  have "map drop_cr ds = ds" using assms by (intro map_idI) (simp add: line_item_def drop_cr_def)
  then show ?thesis using False assms scan_unlines [of ds None] join_unlines [OF False]
    by (auto simp: line_item_def)
qed

lemma strip_id: "\<forall>p\<in>set ps. p = [] \<or> s = [] \<or> hd p \<noteq> hd s \<Longrightarrow> strip ps s = s"
proof -
  assume a: "\<forall>p\<in>set ps. p = [] \<or> s = [] \<or> hd p \<noteq> hd s"
  have "find (\<lambda>p. p \<noteq> [] \<and> has_prefix s p) ps = None"
    using a by (auto simp: find_None_iff has_prefix_iff)
  then show "strip ps s = s" by (simp add: strip.simps)
qed

lemma white_ends: "p \<in> set white_space \<Longrightarrow> p \<noteq> [] \<and> \<not> domain_char (hd p) \<and> \<not> domain_char (last p)"
proof -
  have "list_all (\<lambda>p. p \<noteq> [] \<and> \<not> domain_char (hd p) \<and> \<not> domain_char (last p)) white_space"
    by code_simp
  then show "p \<in> set white_space \<Longrightarrow> p \<noteq> [] \<and> \<not> domain_char (hd p) \<and> \<not> domain_char (last p)"
    by (auto simp: list_all_iff)
qed

lemma trim_space_domain:
  assumes "domain_name d"
  shows "trim_space d = d"
proof -
  have c: "domain_char (hd d)" "domain_char (last d)"
    using assms by (auto simp: domain_name_def list_all_iff)
  have "strip white_space d = d" using white_ends c(1) by (intro strip_id) metis
  moreover have "strip (map rev white_space) (rev d) = rev d"
  proof (rule strip_id, rule ballI)
    fix p
    assume "p \<in> set (map rev white_space)"
    then obtain q where "p = rev q" "q \<in> set white_space" by auto
    with white_ends [of q] c(2) have "hd p \<noteq> hd (rev d)" by (auto simp: hd_rev)
    then show "p = [] \<or> rev d = [] \<or> hd p \<noteq> hd (rev d)" by blast
  qed
  ultimately show ?thesis by (simp add: trim_space_def)
qed

text \<open>What \<open>/v1/list\<close> answers to a client whose authorization file can be read.\<close>

definition list_request :: "string \<Rightarrow> string \<Rightarrow> client_request" where
  "list_request version a = request_header_add ''X-Version'' version
     \<lparr>cq_url = plain_url a ''/v1/list'', cq_headers = []\<rparr>"

lemma list_path: "plain_path ''/v1/list''"
  by (simp add: plain_path_def url_char_def domain_char_def is_lower_def is_digit_def)

lemma list_request_simps:
  "u_path (cq_url (list_request version a)) = ''/v1/list''"
  "escaped_path (cq_url (list_request version a)) = ''/v1/list''"
  "url_query (cq_url (list_request version a)) = []"
  using plain_escaped_path [OF list_path, where a = a and q = "[]"]
  by (simp_all add: list_request_def request_header_add_def plain_url_simps plain_url_query)
    (simp add: plain_url_def empty_url_def)

lemma route_list:
  assumes "escaped_path (rq_url req) = ''/v1/list''"
  shows "mux_route newMux req = Dispatch [Authn, Serve]"
proof -
  have "mux_clean ''/v1/list'' = ''/v1/list''" "mux_lookup newMux ''/v1/list'' = Some [Authn, Serve]"
    "slash_missing newMux ''/v1/list'' = False" by code_simp+
  then show ?thesis using assms by (simp add: mux_route_def Let_def)
qed

lemma serve_list_request:
  assumes "role_domain (u_path (rq_url req)) = Some (''list'', [])" and "url_query (rq_url req) = []"
    and "ctx_get (h_ctx s) REMOTE = cn" and "cnList sv cn = Inr allowed" and "fresh s"
  shows "\<exists>s'. serve sv req s = (s', HOk) \<and> rs_status (h_resp s') = Some 200 \<and>
    rs_body (h_resp s') = join [nl] (sv_range sv allowed) @ [nl]"
proof -
  let ?s = "versionCheck sv req (serve_log sv req s)"
  have "fresh ?s" "ctx_get (h_ctx ?s) REMOTE = cn" using assms(3,5) by simp_all
  moreover have "format_ext (to_upper (values_get [] ''format'')) = Inr ''.pem''"
    by (simp add: values_get_def format_ext_def)
  ultimately show ?thesis using assms(1,2,4)
    by (simp add: serve_def Let_def serve_role_def serve_list_def write_body_def write_header_status
        fresh_def uniq_items_eq)
qed

lemma asks_list:
  assumes "cnList sv cn = Inr allowed"
  shows "\<exists>hs. asks sv (cn # chain) (list_request version a) =
    Inr \<lparr>rp_code = 200, rp_status = dec_nat 200, rp_headers = hs,
      rp_body = (join [nl] (sv_range sv allowed) @ [nl], None)\<rparr>"
proof -
  let ?rq = "received (cn # chain) (list_request version a)"
  let ?s = "init_hstate\<lparr>h_ctx := [REMOTE \<mapsto> cn]\<rparr>"
  have rd: "role_domain ''/v1/list'' = Some (''list'', [])" by code_simp
  obtain s' where s': "serve sv ?rq ?s = (s', HOk)" "rs_status (h_resp s') = Some 200"
      "rs_body (h_resp s') = join [nl] (sv_range sv allowed) @ [nl]"
    using serve_list_request [of ?rq ?s cn sv allowed] assms rd
    by (auto simp: received_simps list_request_simps ctx_get_def init_hstate_def fresh_def new_response_def)
  have "handle_request sv ?rq = Dispatch (s', HOk)"
    using route_list [of ?rq] s'(1)
    by (simp add: handle_request_def use_chain_def run_handler_def authn_def received_simps
        list_request_simps init_hstate_def)
  then show ?thesis using s' by (simp add: asks_def reply_of_def)
qed

lemma list_url: "plain_authority a \<Longrightarrow> new_request ip6 ((''https://'' @ a) @ path_join [''/v1'', ''list'']) =
    Inr \<lparr>cq_url = plain_url a ''/v1/list'', cq_headers = []\<rparr>"
proof -
  assume a: "plain_authority a"
  have "path_join [''/v1'', ''list''] = ''/v1/list''" by code_simp
  then show ?thesis
    using parse_plain [OF a list_path, of ip6] no_empty_port [OF a]
    by (simp add: new_request_def plain_url_def)
qed

text \<open>What the client makes of the list: the entries that do not vanish when white space is
  trimmed, unless one of them is no valid domain.\<close>

lemma fetched_list:
  assumes "plain_authority a" and "cnList sv cn = Inr allowed" and "set (sv_range sv allowed) = allowed"
  shows "fst (fetchCNs ip6 version (asks sv (cn # chain)) (''https://'' @ a)) = read_domains (sv_range sv allowed) []"
proof -
  let ?ds = "sv_range sv allowed"
  obtain hs where reply: "asks sv (cn # chain) (list_request version a) =
    Inr \<lparr>rp_code = 200, rp_status = dec_nat 200, rp_headers = hs, rp_body = (join [nl] ?ds @ [nl], None)\<rparr>"
    using asks_list [OF assms(2)] by blast
  have "\<forall>d\<in>set ?ds. line_item d" using cnList_items [OF assms(2)] assms(3) by simp
  then have "scan (join [nl] ?ds @ [nl], None) = (if ?ds = [] then [[]] else ?ds, None)"
    by (rule scan_list_body)
  moreover have "trim_space [] = []" by code_simp
  ultimately show ?thesis
    using list_url [OF assms(1), of ip6] reply
    by (cases "?ds = []") (auto simp: fetchCNs_def list_request_def Let_def split: sum.splits)
qed

section \<open>Fetching a file\<close>

lemma with_ims_url: "cq_url (ci_remote (with_ims env f i)) = cq_url (ci_remote i)"
  by (auto simp: with_ims_def request_header_set_def split: sum.splits)

lemma fetch_one_reply:
  "fetch_one env i w = (Inr j, w1) \<Longrightarrow>
     \<exists>resp. ex_do env (ci_remote (with_ims env (w_fs w) i)) = Inr resp \<and>
       (rp_code resp = 200 \<and> rp_body resp = (ci_data j, None) \<or> rp_code resp = 304 \<and> ci_data j = ci_data i)"
proof -
  have "ci_data (with_ims env (w_fs w) i) = ci_data i"
    by (auto simp: with_ims_def split: sum.splits)
  then show "fetch_one env i w = (Inr j, w1) \<Longrightarrow>
     \<exists>resp. ex_do env (ci_remote (with_ims env (w_fs w) i)) = Inr resp \<and>
       (rp_code resp = 200 \<and> rp_body resp = (ci_data j, None) \<or> rp_code resp = 304 \<and> ci_data j = ci_data i)"
    by (auto simp: fetch_one_def Let_def split: sum.splits if_splits prod.splits option.splits)
qed

lemma fetch_items_replies:
  "fetch_items env its w = (Inr js, w1) \<Longrightarrow> list_all2 (\<lambda>i j.
     \<exists>resp. ex_do env (ci_remote (with_ims env (w_fs w) i)) = Inr resp \<and>
       (rp_code resp = 200 \<and> rp_body resp = (ci_data j, None) \<or> rp_code resp = 304 \<and> ci_data j = ci_data i)) its js"
proof (induction its arbitrary: w js)
  case (Cons i its)
  then obtain j w2 js' where o: "fetch_one env i w = (Inr j, w2)"
    and rest: "fetch_items env its w2 = (Inr js', w1)" and js: "js = j # js'"
    by (auto split: prod.splits sum.splits)
  show ?case using Cons.IH [OF rest] fetch_one_reply [OF o] fetch_one_fs [OF o] by (simp add: js)
qed simp

lemma endpoint_stem: "endpoint_of r = stem r"
  by (cases r) (simp_all add: endpoint_of_def stem_def)

lemma asks_HOk:
  assumes "asks sv cns q = Inr rp" and "rp_code rp < 400"
    and "mux_route newMux (received cns q) = Dispatch hs"
  obtains s where "use_loop sv (received cns q) hs init_hstate = (s, HOk)" "rp = reply_of (h_resp s)"
proof -
  obtain s res where u: "use_loop sv (received cns q) hs init_hstate = (s, res)" by force
  have h: "handle_request sv (received cns q) = Dispatch (s, res)"
    using assms(3) u by (simp add: handle_request_def use_chain_def)
  have "answered (s, res)" by (rule dispatched_answered [OF h])
  then have "res = HOk \<and> rp = reply_of (h_resp s)"
    using assms(1,2) h by (cases res) (auto simp: asks_def answered_def reply_of_def)
  then show thesis using u that by blast
qed

lemma serve_item:
  assumes d: "domain_name d" and r: "r \<noteq> RoleBUNDLE"
    and path: "u_path (rq_url req) = endpoint_path [] r d" and query: "url_query (rq_url req) = []"
    and "serve sv req s = (s', HOk)" and fresh: "fresh s"
  shows "\<exists>h s1. os_open (sv_fs sv) (path_below (dir_or_dot (sv_certbase sv)) [d, current_file r]) = Inr h \<and>
    serve_handle sv req h s1 = (s', HOk) \<and> fresh s1"
proof -
  have pd: "plain d" by (rule domain_name_plain [OF d])
  have "role_domain (endpoint_path [] r d) = Some (stem r, d)"
    using endpoint_split [OF pd, of r] by (simp add: role_domain_def endpoint_stem)
  moreover have "format_ext (to_upper (values_get [] ''format'')) = Inr ''.pem''"
    by (simp add: values_get_def format_ext_def)
  ultimately have "serve_role sv req (stem r) d ''.pem'' (versionCheck sv req (serve_log sv req s)) = (s', HOk)"
    using assms(5) path query by (simp add: serve_def Let_def)
  then obtain h where h: "http_dir_open (sv_fs sv) (sv_certbase sv) (path_join [d, stem r @ ''.pem'']) = Inr h"
    and sh: "serve_handle sv req h (versionCheck sv req (serve_log sv req s)) = (s', HOk)"
    using r by (cases r) (auto simp: serve_role_def stem_def fileError_def split: sum.splits)
  have f: "current_file r = stem r @ ''.pem''" using r by (simp add: current_file_def suffix_def)
  have "path_elems (CHR ''/'' # path_join [d, current_file r]) = [d, current_file r]"
    using pd [unfolded plain_def] served_elems [OF _ current_plain, of d r] by simp
  then have "os_open (sv_fs sv) (path_below (dir_or_dot (sv_certbase sv)) [d, current_file r]) = Inr h"
    using http_dir_open_Inr [OF h] f by simp
  then show ?thesis using sh fresh by auto
qed

text \<open>A successful reply to an item's request: for key material the client was authorized, and the
  reply is what \<open>serve\<close> made of the server's file.\<close>

lemma asks_serve:
  assumes d: "domain_name d"
    and q: "u_path (cq_url q) = endpoint_path [] r d" "escaped_path (cq_url q) = endpoint_path [] r d"
    and ask: "asks sv cns q = Inr rp" and code: "rp_code rp < 400"
  shows "(key_item r \<longrightarrow> (\<exists>cn chain allowed. cns = cn # chain \<and> cnList sv cn = Inr allowed \<and> d \<in> allowed)) \<and>
    (\<exists>s0 s. serve sv (received cns q) s0 = (s, HOk) \<and> fresh s0 \<and> rp = reply_of (h_resp s))"
proof -
  let ?rq = "received cns q"
  have route: "mux_route newMux ?rq = Dispatch (role_handlers r)"
    using route_endpoint [OF d] q(2) by (simp add: received_simps)
  obtain s where loop: "use_loop sv ?rq (role_handlers r) init_hstate = (s, HOk)" and rp: "rp = reply_of (h_resp s)"
    by (rule asks_HOk [OF ask code route])
  have parts: "split_on CHR ''/'' (u_path (rq_url ?rq)) ! 3 = d"
    using endpoint_split [OF domain_name_plain [OF d], of r] q(1) by (simp add: received_simps)
  show ?thesis
  proof (cases "key_item r")
    case True
    then have "use_loop sv ?rq [Authz, Serve] init_hstate = (s, HOk)" using loop by (simp add: role_handlers_def)
    then obtain cn chain allowed s1 where c: "rq_tls ?rq = Some (cn # chain)" "cnList sv cn = Inr allowed"
        "split_on CHR ''/'' (u_path (rq_url ?rq)) ! 3 \<in> allowed"
      and s1: "serve sv ?rq s1 = (s, HOk)" "fresh s1"
      by (rule use_loop_authz) auto
    have "cns = cn # chain" "d \<in> allowed" using c(1,3) parts by (simp_all add: received_simps(1))
    then show ?thesis using c(2) s1 rp by blast
  next
    case False
    then have "serve sv ?rq init_hstate = (s, HOk)"
      using loop by (auto simp: role_handlers_def run_handler_def split: prod.splits hres.splits)
    then show ?thesis using rp False fresh_init by blast
  qed
qed

lemma asks_item:
  assumes d: "domain_name d" and r: "r \<noteq> RoleBUNDLE"
    and q: "u_path (cq_url q) = endpoint_path [] r d" "escaped_path (cq_url q) = endpoint_path [] r d"
      "url_query (cq_url q) = []"
    and ask: "asks sv cns q = Inr rp" and code: "rp_code rp < 400"
  shows "key_item r \<Longrightarrow> \<exists>cn chain allowed. cns = cn # chain \<and> cnList sv cn = Inr allowed \<and> d \<in> allowed"
    and "\<exists>h s1 s. os_open (sv_fs sv) (path_below (dir_or_dot (sv_certbase sv)) [d, current_file r]) = Inr h \<and>
      serve_handle sv (received cns q) h s1 = (s, HOk) \<and> fresh s1 \<and> rp = reply_of (h_resp s)"
proof -
  note served = asks_serve [OF d q(1,2) ask code]
  show "key_item r \<Longrightarrow> \<exists>cn chain allowed. cns = cn # chain \<and> cnList sv cn = Inr allowed \<and> d \<in> allowed"
    using served by blast
  obtain s0 s where s0: "serve sv (received cns q) s0 = (s, HOk)" "fresh s0" and rp: "rp = reply_of (h_resp s)"
    using served by blast
  show "\<exists>h s1 s. os_open (sv_fs sv) (path_below (dir_or_dot (sv_certbase sv)) [d, current_file r]) = Inr h \<and>
      serve_handle sv (received cns q) h s1 = (s, HOk) \<and> fresh s1 \<and> rp = reply_of (h_resp s)"
    using serve_item [OF d r _ _ s0] q rp by (auto simp: received_simps)
qed

text \<open>A bundle: the stored one, or one that is made for the request.\<close>

lemma serve_bundle_item:
  assumes d: "domain_name d" and path: "u_path (rq_url req) = endpoint_path [] RoleBUNDLE d"
    and ext: "format_ext (to_upper (values_get (url_query (rq_url req)) ''format'')) = Inr ''.p12''"
    and "serve sv req s = (s', HOk)" and "fresh s"
  shows "\<exists>s1. serve_bundle sv req ''bundle'' d ''.p12'' s1 = (s', HOk) \<and> fresh s1"
proof -
  have "role_domain (endpoint_path [] RoleBUNDLE d) = Some (''bundle'', d)"
    using endpoint_split [OF domain_name_plain [OF d], of RoleBUNDLE] by (simp add: role_domain_def endpoint_of_def)
  then have "serve_bundle sv req ''bundle'' d ''.p12'' (versionCheck sv req (serve_log sv req s)) = (s', HOk)"
    using assms(4) path ext by (simp add: serve_def serve_role_def Let_def)
  then show ?thesis using assms(5) by auto
qed

lemma served_file_reply:
  assumes "serve_handle sv (received cns q) h s1 = (s, HOk)" and "fresh s1"
  shows "rp_code (reply_of (h_resp s)) =
      (if not_modified (sv_parse_time sv) (received cns q) (mod_time (snd h)) then 304 else 200)"
    and "rp_code (reply_of (h_resp s)) = 200 \<Longrightarrow>
      rp_body (reply_of (h_resp s)) = (fst (file_reader (sv_fs sv) h), None)"
  using assms
  by (cases h; auto simp: serve_handle_def serve_file_def fileError_def ServeContent_body ServeContent_status
      fresh_def reply_of_def received_simps split: sum.splits option.splits if_splits)+

lemma served_bundle_reply:
  assumes "serve_bundle sv (received cns q) ''bundle'' d ''.p12'' s1 = (s, HOk)" and "fresh s1"
    and "rp_code (reply_of (h_resp s)) = 200"
  shows "case http_dir_open (sv_fs sv) (sv_certbase sv) (path_join [d, ''bundle.p12'']) of
      Inr h \<Rightarrow> rp_body (reply_of (h_resp s)) = (fst (file_reader (sv_fs sv) h), None)
    | Inl e \<Rightarrow> os_is_not_exist e \<and> (\<exists>pfx t. createPKCS12 sv d (values_get (url_query (cq_url q)) ''pass'')
        (values_get (url_query (cq_url q)) ''pkcs12-compat'') = Some (Inr (pfx, t)) \<and>
        rp_body (reply_of (h_resp s)) = (pfx, None))"
proof (cases "http_dir_open (sv_fs sv) (sv_certbase sv) (path_join [d, ''bundle.p12''])")
  case (Inr h)
  then have "serve_handle sv (received cns q) h s1 = (s, HOk)" using assms(1) by (simp add: serve_bundle_def)
  from served_file_reply(2) [OF this assms(2,3)] Inr show ?thesis by simp
next
  case (Inl e)
  then show ?thesis using assms
    by (auto simp: serve_bundle_def Let_def fileError_def serve_file_def received_simps ServeContent_body
        ServeContent_status fresh_def reply_of_def split: if_splits option.splits sum.splits)
qed

lemma fetched_item:
  assumes new: "NewReq ip6 version d (''https://'' @ a) base hook FormatPEM pass compt = Returned (Inr req)"
    and a: "plain_authority a" and base: "base \<noteq> []" and i: "i \<in> set (req_items req)"
    and reply: "asks sv cns (ci_remote (with_ims env f i)) = Inr resp"
    and code: "rp_code resp = 200 \<and> rp_body resp = (ci_data j, None) \<or> rp_code resp = 304 \<and> ci_data j = ci_data i"
  shows "key_item (ci_role i) \<Longrightarrow> \<exists>cn chain allowed. cns = cn # chain \<and> cnList sv cn = Inr allowed \<and> d \<in> allowed"
    and "ci_data j \<noteq> [] \<Longrightarrow> \<exists>h. ci_data j = fst (file_reader (sv_fs sv) h) \<and>
      os_open (sv_fs sv) (path_below (dir_or_dot (sv_certbase sv)) [d, current_file (ci_role i)]) = Inr h"
proof -
  have b: "base_path []" by (simp add: base_path_def)
  have new': "NewReq ip6 version d (''https://'' @ a @ []) base hook FormatPEM pass compt = Returned (Inr req)"
    using new by simp
  note item = item_remote [OF new' a b base i]
  have r: "ci_role i \<noteq> RoleBUNDLE" using item(3) by (auto simp: ROLES_def FormatPEM_def)
  note url = item_request_simps [OF item(2) b, where version = version and a = a and pass = pass and compt = compt]
  have q: "cq_url (ci_remote (with_ims env f i)) = cq_url (item_request version a [] d pass compt (ci_role i))"
    using with_ims_url item(1) by simp
  have ok: "rp_code resp < 400" using code by auto
  note ask = asks_item [OF item(2) r _ _ _ reply ok, unfolded q, OF url(1,2) url(3) [OF r]]
  show "key_item (ci_role i) \<Longrightarrow> \<exists>cn chain allowed. cns = cn # chain \<and> cnList sv cn = Inr allowed \<and> d \<in> allowed"
    using ask(1) .
  have "ci_data i = []" using NewReq_Inr [OF new base] i by (auto simp: list_all_iff)
  then show "ci_data j \<noteq> [] \<Longrightarrow> \<exists>h. ci_data j = fst (file_reader (sv_fs sv) h) \<and>
      os_open (sv_fs sv) (path_below (dir_or_dot (sv_certbase sv)) [d, current_file (ci_role i)]) = Inr h"
    using ask(2) code served_file_reply(2) by fastforce
qed

end
