(* ===== verification/SystemExample.thy ===== *)
theory SystemExample
  imports System
begin

text \<open>
  A server and a client that talk to each other, for the witnesses of the properties of the
  whole system: one host with its files, one client allowed to fetch it, one certificate store.
\<close>

definition full_server :: "(string, string) server" where
  "full_server = example_server\<lparr>sv_fs := (sv_fs example_server)\<lparr>fs_tree :=
     (''/c/example.org/fullchain.pem'', RegFile 420 30 (''full'' @ [nl])) # server_tree\<rparr>\<rparr>"

definition wired :: exec_env where
  "wired = example_exec\<lparr>ex_force := True, ex_do := asks full_server [''client'']\<rparr>"

definition wired_req :: cert_req where
  "wired_req = (case NewReq (\<lambda>_. False) ''v1'' ''example.org'' (''https://'' @ ''h'') ''/s'' [] FormatPEM [] [] of
      Returned (Inr req) \<Rightarrow> req | _ \<Rightarrow> \<lparr>req_domain = [], req_items = [], req_hook = [], req_env = []\<rparr>)"

lemma wired_new:
  "NewReq (\<lambda>_. False) ''v1'' ''example.org'' (''https://'' @ ''h'') ''/s'' [] FormatPEM [] [] = Returned (Inr wired_req)"
proof -
  have "case NewReq (\<lambda>_. False) ''v1'' ''example.org'' (''https://'' @ ''h'') ''/s'' [] FormatPEM [] [] of
      Returned (Inr req) \<Rightarrow> True | _ \<Rightarrow> False" by code_simp
  then show ?thesis by (auto simp: wired_req_def split: outcome.splits sum.splits)
qed

section \<open>The replies\<close>

definition served :: "string \<Rightarrow> int \<Rightarrow> go_error + reply" where
  "served d t = Inr \<lparr>rp_code = 200, rp_status = ''200'',
     rp_headers = [(''X-Version'', ''v1.22.0''), (''Last-Modified'', format_int t), (''Accept-Ranges'', ''bytes'')],
     rp_body = (d @ [nl], None)\<rparr>"

text \<open>The server's answers to the four requests, as a table; evaluating a run against the table
  is cheap.\<close>

definition answers :: "client_request \<Rightarrow> go_error + reply" where
  "answers q =
     (let p = u_path (cq_url q) in
      if p = ''/v1/cert/example.org'' then served ''leaf'' 30
      else if p = ''/v1/privkey/example.org'' then served ''key'' 20
      else if p = ''/v1/chain/example.org'' then served (''ca1'' @ [nl] @ ''ca2'') 40
      else served ''full'' 30)"

definition tabled :: exec_env where
  "tabled = example_exec\<lparr>ex_force := True, ex_do := answers\<rparr>"

abbreviation wired_item :: "role \<Rightarrow> client_request" where
  "wired_item r \<equiv> item_request ''v1'' ''h'' [] ''example.org'' [] [] r"

lemma asks_cert: "asks full_server [''client''] (wired_item RoleCRT) = answers (wired_item RoleCRT)"
  by code_simp

lemma asks_key: "asks full_server [''client''] (wired_item RoleKEY) = answers (wired_item RoleKEY)"
  by code_simp

lemma asks_chain: "asks full_server [''client''] (wired_item RoleCHAIN) = answers (wired_item RoleCHAIN)"
  by code_simp

lemma asks_fullchain: "asks full_server [''client''] (wired_item RoleFULLCHAIN) = answers (wired_item RoleFULLCHAIN)"
  by code_simp

lemma plain_h: "plain_authority ''h''"
  using plain_example by blast

lemma asks_wired:
  assumes "i \<in> set (req_items wired_req)"
  shows "asks full_server [''client''] (ci_remote i) = answers (ci_remote i)"
proof -
  have new: "NewReq (\<lambda>_. False) ''v1'' ''example.org'' (''https://'' @ ''h'' @ []) ''/s'' [] FormatPEM [] [] = Returned (Inr wired_req)"
    using wired_new by simp
  have b: "base_path []" "(''/s'' :: string) \<noteq> []" by (simp_all add: base_path_def)
  note item = item_remote [OF new plain_h b assms]
  have "ci_role i \<noteq> RoleBUNDLE" using item(3) by (auto simp: ROLES_def FormatPEM_def)
  then show ?thesis using item(1) asks_cert asks_key asks_chain asks_fullchain by (cases "ci_role i") simp_all
qed

section \<open>The run\<close>

lemma fetch_items_cong:
  "(\<And>i w. i \<in> set its \<Longrightarrow> fetch_one e1 i w = fetch_one e2 i w) \<Longrightarrow> fetch_items e1 its w = fetch_items e2 its w"
  by (induction its arbitrary: w) (auto split: prod.splits sum.splits)

lemma wired_fetches: "fetch_items wired (req_items wired_req) w = fetch_items tabled (req_items wired_req) w"
proof (rule fetch_items_cong)
  fix i w
  assume i: "i \<in> set (req_items wired_req)"
  have forced: "with_ims wired f i = i" "with_ims tabled f i = i" for f
    by (simp_all add: with_ims_def wired_def tabled_def)
  have same: "ex_ip6 wired = ex_ip6 tabled" "ex_do wired (ci_remote i) = ex_do tabled (ci_remote i)"
    using asks_wired [OF i] by (simp_all add: wired_def tabled_def)
  show "fetch_one wired i w = fetch_one tabled i w"
    unfolding fetch_one_def forced Let_def same by (rule refl)
qed

lemma wired_executes: "Execute wired wired_req w = Execute tabled wired_req w"
proof -
  have same: "run_hook wired = run_hook tabled" "ex_write_time wired = ex_write_time tabled"
    "ex_use_symlink wired = ex_use_symlink tabled" "ex_order wired = ex_order tabled"
    by (simp_all add: fun_eq_iff run_hook_def hook_command_def wired_def tabled_def)
  show ?thesis unfolding Execute_def wired_fetches same by (rule refl)
qed

definition wired_items :: "cert_item list" where
  "wired_items = (case fst (fetch_items tabled (req_items wired_req) example_world) of Inl e \<Rightarrow> [] | Inr its \<Rightarrow> its)"

lemma wired_orderly: "orderly wired"
  by (simp add: orderly_def wired_def example_exec_def)

lemma wired_hyps:
  "fresh_stamp tabled ''/s'' ''example.org'' (req_items wired_req) (fs_tree (w_fs example_world))"
  "settled (req_items wired_req) (fs_tree (w_fs example_world))"
  by code_simp+

lemma wired_fresh: "fresh_stamp wired ''/s'' ''example.org'' (req_items wired_req) (fs_tree (w_fs example_world))"
  using wired_hyps(1) by (simp add: fresh_stamp_def stamp_of_def wired_def tabled_def)

lemma wired_fetch: "\<exists>w1. fetch_items wired (req_items wired_req) example_world = (Inr wired_items, w1)"
proof -
  have "case fst (fetch_items tabled (req_items wired_req) example_world) of Inl e \<Rightarrow> False | Inr its \<Rightarrow> True"
    by code_simp
  then show ?thesis unfolding wired_items_def wired_fetches
    by (cases "fetch_items tabled (req_items wired_req) example_world") (auto split: sum.splits)
qed

lemma wired_execute: "\<exists>w'. Execute wired wired_req example_world = (Returned None, w')"
proof -
  have "fst (Execute tabled wired_req example_world) = Returned None" by code_simp
  then show ?thesis unfolding wired_executes by (metis prod.collapse)
qed

section \<open>The list\<close>

lemma example_allowed: "cnList example_server ''client'' = Inr {''example.org''}"
  by code_simp

lemma example_listed: "sv_range example_server {''example.org''} = [''example.org'']"
  by (simp add: example_server_def)

end
