(* ===== verification/Conditional.thy ===== *)
theory Conditional
  imports SystemExample
begin

text \<open>
  Conditional requests across the two programs: the client sends the modification time of its
  current file, the server compares it with that of its own.
\<close>

lemma item_headers: "cq_headers (item_request version a b d pass compt r) = [(''X-Version'', version)]"
  by (simp add: item_request_def Let_def request_header_add_def with_bundle_query_def)

lemma ims_header:
  assumes "ci_remote i = item_request version a b d pass compt r"
  shows "header_get (cq_headers (ci_remote (with_ims env f i))) ''If-Modified-Since'' =
    (case os_stat f (ci_local i) of Inl e \<Rightarrow> []
     | Inr fi \<Rightarrow> if ex_force env then [] else ex_format_time env (mod_time fi))"
  using assms
  by (auto simp: with_ims_def header_get_def item_headers request_header_set_def split: sum.splits)

lemma received_headers [simp]: "rq_headers (received cns q) = cq_headers q"
  by (simp add: received_def)

lemma transferred_file:
  assumes new: "NewReq ip6 version d (''https://'' @ a) base hook FormatPEM pass compt = Returned (Inr req)"
    and a: "plain_authority a" and base: "base \<noteq> []" and i: "i \<in> set (req_items req)"
    and times: "\<not> ex_force env \<longrightarrow> (\<forall>fi. os_stat f (ci_local i) = Inr fi \<longrightarrow> ex_format_time env (mod_time fi) \<noteq> [] \<and>
      sv_parse_time sv (ex_format_time env (mod_time fi)) = Some (mod_time fi))"
    and ask: "asks sv cns (ci_remote (with_ims env f i)) = Inr resp" and ok: "rp_code resp < 400"
  shows "\<exists>h. os_open (sv_fs sv) (path_below (dir_or_dot (sv_certbase sv)) [d, current_file (ci_role i)]) = Inr h \<and>
    rp_code resp = (if \<not> ex_force env \<and> mod_time (snd h) \<noteq> 0 \<and>
        (\<exists>fi. os_stat f (ci_local i) = Inr fi \<and> mod_time (snd h) \<le> mod_time fi) then 304 else 200) \<and>
    (rp_code resp = 200 \<longrightarrow> rp_body resp = (fst (file_reader (sv_fs sv) h), None))"
proof -
  have new': "NewReq ip6 version d (''https://'' @ a @ []) base hook FormatPEM pass compt = Returned (Inr req)"
    using new by simp
  note item = item_remote [OF new' a base_path_Nil base i]
  have r: "ci_role i \<noteq> RoleBUNDLE" using item(3) by (auto simp: ROLES_def FormatPEM_def)
  note url = item_request_simps [OF item(2) base_path_Nil, where version = version and a = a and pass = pass and compt = compt]
  let ?q = "ci_remote (with_ims env f i)"
  have q: "cq_url ?q = cq_url (item_request version a [] d pass compt (ci_role i))"
    using with_ims_url item(1) by simp
  obtain h s1 s where h: "os_open (sv_fs sv) (path_below (dir_or_dot (sv_certbase sv)) [d, current_file (ci_role i)]) = Inr h"
    and s: "serve_handle sv (received cns ?q) h s1 = (s, HOk)" "fresh s1" and resp: "resp = reply_of (h_resp s)"
    using asks_item(2) [OF item(2) r _ _ _ ask ok, unfolded q, OF url(1,2) url(3) [OF r]] by blast
  have "not_modified (sv_parse_time sv) (received cns ?q) (mod_time (snd h)) \<longleftrightarrow>
      \<not> ex_force env \<and> mod_time (snd h) \<noteq> 0 \<and>
      (\<exists>fi. os_stat f (ci_local i) = Inr fi \<and> mod_time (snd h) \<le> mod_time fi)"
    using times ims_header [OF item(1), of env f]
    by (cases "os_stat f (ci_local i)") (auto simp: not_modified_def received_simps Let_def)
  then show ?thesis using h served_file_reply [OF s] resp by auto
qed

section \<open>Properties\<close>

text \<open>C13. What is transferred: when the client asks for a file of a domain and the server answers
  without an error, the answer is 304 exactly when the client is not forced, has a current file,
  and the server's file is not newer than that; otherwise it is 200 with the server's file.  The
  time compared is the one of the client's download, not that of the content it got.\<close>

theorem newer_files_are_transferred:
  assumes new: "NewReq ip6 version d (''https://'' @ a) base hook FormatPEM pass compt = Returned (Inr req)"
    and a: "plain_authority a" and base: "base \<noteq> []" and i: "i \<in> set (req_items req)"
    and times: "\<not> ex_force env \<longrightarrow> (\<forall>fi. os_stat f (ci_local i) = Inr fi \<longrightarrow> ex_format_time env (mod_time fi) \<noteq> [] \<and>
      sv_parse_time sv (ex_format_time env (mod_time fi)) = Some (mod_time fi))"
    and ask: "asks sv cns (ci_remote (with_ims env f i)) = Inr resp" and ok: "rp_code resp < 400"
  shows "\<exists>h. os_open (sv_fs sv) (path_below (dir_or_dot (sv_certbase sv)) [d, current_file (ci_role i)]) = Inr h \<and>
    rp_code resp = (if \<not> ex_force env \<and> mod_time (snd h) \<noteq> 0 \<and>
        (\<exists>fi. os_stat f (ci_local i) = Inr fi \<and> mod_time (snd h) \<le> mod_time fi) then 304 else 200) \<and>
    (rp_code resp = 200 \<longrightarrow> rp_body resp = (fst (file_reader (sv_fs sv) h), None))"
  by (rule transferred_file [OF assms])

definition timed_server :: "(string, string) server" where
  "timed_server = full_server\<lparr>sv_parse_time := (\<lambda>s. if s = ''100'' then Some 100 else None)\<rparr>"

definition cert_request :: client_request where
  "cert_request = request_header_set ''If-Modified-Since'' ''100'' (wired_item RoleCRT)"

lemma timed_reply: "case asks timed_server [] cert_request of Inr resp \<Rightarrow> rp_code resp = 304 | Inl e \<Rightarrow> False"
  by code_simp

lemma wired_crt: "\<exists>i\<in>set (req_items wired_req). ci_role i = RoleCRT \<and> ci_local i = ''/s/example.org/cert.pem''"
  by code_simp

theorem newer_files_are_transferred_witness:
  "\<exists>resp h. asks timed_server [] cert_request = Inr resp \<and> rp_code resp = 304 \<and>
     os_open (sv_fs timed_server) ''/c/example.org/cert.pem'' = Inr h \<and> mod_time (snd h) \<le> 100"
proof -
  obtain i where i: "i \<in> set (req_items wired_req)" "ci_role i = RoleCRT" "ci_local i = ''/s/example.org/cert.pem''"
    using wired_crt by blast
  obtain resp where resp: "asks timed_server [] cert_request = Inr resp" "rp_code resp = 304"
    using timed_reply by (auto split: sum.splits)
  have stat: "os_stat (w_fs example_world) ''/s/example.org/cert.pem'' = Inr (RegFile 420 100 ''old cert'')" by code_simp
  have base: "(''/s'' :: string) \<noteq> []" "base_path []" by (simp_all add: base_path_def)
  have "NewReq (\<lambda>_. False) ''v1'' ''example.org'' (''https://'' @ ''h'' @ []) ''/s'' [] FormatPEM [] [] = Returned (Inr wired_req)"
    using wired_new by simp
  note item = item_remote [OF this plain_h base(2,1) i(1)]
  have ft: "ex_format_time example_exec 100 = ''100''" "\<not> ex_force example_exec" by code_simp+
  have q: "ci_remote (with_ims example_exec (w_fs example_world) i) = cert_request"
    using item(1) i(2,3) stat ft by (simp add: with_ims_def cert_request_def)
  have "\<not> ex_force example_exec \<longrightarrow> (\<forall>fi. os_stat (w_fs example_world) (ci_local i) = Inr fi \<longrightarrow>
      ex_format_time example_exec (mod_time fi) \<noteq> [] \<and>
      sv_parse_time timed_server (ex_format_time example_exec (mod_time fi)) = Some (mod_time fi))"
    using stat ft i(3) by (simp add: timed_server_def)
  note n = newer_files_are_transferred [OF wired_new plain_h base(1) i(1) this, of "[]" resp, unfolded q]
  have path: "path_below (dir_or_dot (sv_certbase timed_server)) [''example.org'', current_file RoleCRT] =
      ''/c/example.org/cert.pem''" by code_simp
  show ?thesis using n resp stat i(2,3) path by (auto split: if_splits)
qed

end
