(* ===== verification/Together.thy ===== *)
theory Together
  imports CrewProps ClientProps Conditional
begin

text \<open>
  The client as a whole against the server: from the command line to the exit code, with the
  workers downloading all domains at the same time.
\<close>

section \<open>One domain\<close>

text \<open>The server's file is no newer than the client's current one, so it is not transferred.\<close>

definition not_newer :: "exec_env \<Rightarrow> fs \<Rightarrow> string \<Rightarrow> inode \<Rightarrow> bool" where
  "not_newer env f name n \<longleftrightarrow> \<not> ex_force env \<and> mod_time n \<noteq> 0 \<and>
     (case os_stat f name of Inl e \<Rightarrow> False | Inr fi \<Rightarrow> mod_time n \<le> mod_time fi)"

lemma not_newer_iff: "not_newer env f name n \<longleftrightarrow> \<not> ex_force env \<and> mod_time n \<noteq> 0 \<and>
    (\<exists>fi. os_stat f name = Inr fi \<and> mod_time n \<le> mod_time fi)"
  by (cases "os_stat f name") (simp_all add: not_newer_def)

text \<open>The current file of a role in \<open>g\<close> is the server's, or the one of \<open>f\<close> where the server's is
  not newer (or empty).\<close>

definition up_to_date :: "('k, 'c) server \<Rightarrow> exec_env \<Rightarrow> string \<Rightarrow> string \<Rightarrow> fs \<Rightarrow> fs \<Rightarrow> role \<Rightarrow> bool" where
  "up_to_date sv env base d f g role \<longleftrightarrow>
     (case os_open (sv_fs sv) (path_below (dir_or_dot (sv_certbase sv)) [d, current_file role]) of
        Inl e \<Rightarrow> False
      | Inr h \<Rightarrow>
        (let name = path_below base [d, current_file role]; x = fst (file_reader (sv_fs sv) h) in
         read_name (fs_tree g) name =
           (if x = [] \<or> not_newer env f name (snd h) then read_name (fs_tree f) name
            else Some (if role = RoleKEY then 384 else 420, x))))"

definition listed :: "('k, 'c) server \<Rightarrow> string list \<Rightarrow> string \<Rightarrow> bool" where
  "listed sv cns d \<longleftrightarrow> (case cns of [] \<Rightarrow> False
     | cn # chain \<Rightarrow> (case cnList sv cn of Inl e \<Rightarrow> False | Inr allowed \<Rightarrow> d \<in> allowed))"

text \<open>The times the client sends, in \<open>http.TimeFormat\<close>, are read as they were written.\<close>

definition times_agree :: "('k, 'c) server \<Rightarrow> exec_env \<Rightarrow> bool" where
  "times_agree sv env \<longleftrightarrow> ex_force env \<or> (\<forall>t. ex_format_time env t \<noteq> [] \<and> sv_parse_time sv (ex_format_time env t) = Some t)"

definition pem_roles :: "role list" where
  "pem_roles = [RoleCRT, RoleKEY, RoleCHAIN, RoleFULLCHAIN]"

lemma execute_up_to_date:
  assumes new: "NewReq ip6 version d (''https://'' @ a) base hook FormatPEM pass compt = Returned (Inr req)"
    and a: "plain_authority a" and base: "base \<noteq> []"
    and env: "orderly env" "ex_do env = asks sv cns" "times_agree sv env"
    and store: "fresh_stamp env base d (req_items req) (fs_tree (w_fs w))"
      "settled (req_items req) (fs_tree (w_fs w))"
    and run: "Execute env req w = (Returned None, w')"
  shows "listed sv cns d \<and> (\<forall>role\<in>set pem_roles. up_to_date sv env base d (w_fs w) (w_fs w') role)"
proof -
  note built = NewReq_Inr [OF new base]
  obtain its w1 where fetch: "fetch_items env (req_items req) w = (Inr its, w1)"
    using run by (auto simp: Execute_def split: prod.splits sum.splits)
  have same: "list_all2 same_item (req_items req) its" using fetch_items_effect [OF fetch] by simp
  have placed: "items_placed base d its" using placed_same [OF _ same] built by blast
  have reply: "list_all2 (\<lambda>i j. \<exists>resp. asks sv cns (ci_remote (with_ims env (w_fs w) i)) = Inr resp \<and>
      (rp_code resp = 200 \<and> rp_body resp = (ci_data j, None) \<or> rp_code resp = 304 \<and> ci_data j = ci_data i))
      (req_items req) its"
    using fetch_items_replies [OF fetch] env(2) by simp
  have read: "list_all (\<lambda>j. read_name (fs_tree (w_fs w')) (ci_local j) =
    (if ci_data j = [] then read_name (fs_tree (w_fs w)) (ci_local j)
     else Some (if ci_private j then 384 else 420, ci_data j))) its"
    using built by (intro run_installs [OF _ _ env(1) store fetch run]) (auto dest: domain_name_plain)
  have empty: "\<forall>i\<in>set (req_items req). ci_data i = []" using built by (simp add: list_all_iff)
  have roles: "map ci_role (req_items req) = pem_roles" using built by (simp add: ROLES_def pem_roles_def)
  have item: "(key_item role \<longrightarrow> listed sv cns d) \<and> up_to_date sv env base d (w_fs w) (w_fs w') role"
    if pem: "role \<in> set pem_roles" for role
  proof -
    obtain k where k: "k < length (req_items req)" "ci_role (req_items req ! k) = role"
      using pem unfolding roles [symmetric] by (auto simp: in_set_conv_nth)
    let ?i = "req_items req ! k" and ?j = "its ! k"
    have i: "?i \<in> set (req_items req)" and kj: "k < length its" using k same by (auto simp: list_all2_lengthD)
    have j: "ci_role ?j = role" "ci_local ?j = path_below base [d, current_file role]" "ci_private ?j = key_item role"
      "ci_local ?i = ci_local ?j" "ci_data ?i = []"
      using k kj same placed empty i
      by (auto simp: list_all2_conv_all_nth same_item_def items_placed_def item_placed_def list_all_length)
    obtain resp where resp: "asks sv cns (ci_remote (with_ims env (w_fs w) ?i)) = Inr resp"
      "rp_code resp = 200 \<and> rp_body resp = (ci_data ?j, None) \<or> rp_code resp = 304 \<and> ci_data ?j = []"
      using reply k(1) j(5) unfolding list_all2_conv_all_nth by metis
    then have ok: "rp_code resp < 400" by auto
    have times: "\<not> ex_force env \<longrightarrow> (\<forall>fi. os_stat (w_fs w) (ci_local ?i) = Inr fi \<longrightarrow> ex_format_time env (mod_time fi) \<noteq> [] \<and>
      sv_parse_time sv (ex_format_time env (mod_time fi)) = Some (mod_time fi))"
      using env(3) by (auto simp: times_agree_def)
    obtain h where h: "os_open (sv_fs sv) (path_below (dir_or_dot (sv_certbase sv)) [d, current_file role]) = Inr h"
      "rp_code resp = (if not_newer env (w_fs w) (ci_local ?j) (snd h) then 304 else 200)"
      "rp_code resp = 200 \<Longrightarrow> rp_body resp = (fst (file_reader (sv_fs sv) h), None)"
      using transferred_file [OF new a base i times resp(1) ok] unfolding k(2) j(4) not_newer_iff [symmetric] by blast
    have "read_name (fs_tree (w_fs w')) (ci_local ?j) =
        (if ci_data ?j = [] then read_name (fs_tree (w_fs w)) (ci_local ?j)
         else Some (if key_item role then 384 else 420, ci_data ?j))"
      using read kj j(3) by (simp add: list_all_length)
    moreover have "key_item role = (role = RoleKEY)" using pem by (auto simp: key_item_def pem_roles_def)
    ultimately have "up_to_date sv env base d (w_fs w) (w_fs w') role"
      using h resp(2) j(2) by (auto simp: up_to_date_def Let_def split: if_splits)
    moreover have "listed sv cns d" if "key_item role"
      using fetched_item(1) [OF new a base i resp(1), of ?j] resp(2) j(5) k(2) that by (auto simp: listed_def)
    ultimately show ?thesis by blast
  qed
  have "RoleKEY \<in> set pem_roles" "key_item RoleKEY" by (simp_all add: pem_roles_def key_item_def)
  with item show ?thesis by blast
qed

section \<open>All domains at once\<close>

lemma run_hook_selectors:
  "ex_force (env\<lparr>ex_run := k\<rparr>) = ex_force env" "ex_use_symlink (env\<lparr>ex_run := k\<rparr>) = ex_use_symlink env"
  "ex_ip6 (env\<lparr>ex_run := k\<rparr>) = ex_ip6 env" "ex_do (env\<lparr>ex_run := k\<rparr>) = ex_do env"
  "ex_order (env\<lparr>ex_run := k\<rparr>) = ex_order env" "ex_format_time (env\<lparr>ex_run := k\<rparr>) = ex_format_time env"
  "ex_write_time (env\<lparr>ex_run := k\<rparr>) = ex_write_time env"
  by simp_all

lemma with_ims_run: "with_ims (env\<lparr>ex_run := k\<rparr>) f i = with_ims env f i"
  unfolding with_ims_def run_hook_selectors by (rule refl)

lemma fetch_calls_run: "fetch_calls (env\<lparr>ex_run := k\<rparr>) items = fetch_calls env items"
proof (induction items)
  case (Cons i items)
  show ?case unfolding fetch_calls.simps fetch_one_calls_def with_ims_run run_hook_selectors Cons.IH by (rule refl)
qed simp

text \<open>The files do not depend on the hook: with a hook that does nothing the run succeeds.\<close>

lemma files_without_hook:
  assumes "run_prog (files_calls env r) w = (Returned (Inr its), u)"
  shows "\<exists>w'. Execute (env\<lparr>ex_run := (\<lambda>c f. (None, f))\<rparr>) r w = (Returned None, w') \<and> w_fs w' = w_fs u"
proof -
  have "files_calls (env\<lparr>ex_run := (\<lambda>c f. (None, f))\<rparr>) r = files_calls env r"
    unfolding files_calls_def fetch_calls_run run_hook_selectors by (rule refl)
  then show ?thesis
    using assms by (simp add: run_files after_files_def run_hook_def on_fs_def)
qed

lemma crew_up_to_date:
  assumes inv: "crew_inv jobs base reqs xe w c" and r: "(r, False) \<in> set (p_outcomes (c_pool c))"
    and new: "NewReq ip6 version (req_domain r) (''https://'' @ a) base hook FormatPEM pass compt = Returned (Inr r)"
    and a: "plain_authority a" and base: "base \<noteq> []"
    and env: "ex_do (xe r) = asks sv cns" "times_agree sv (xe r)"
    and store: "fresh_stamp (xe r) base (req_domain r) (req_items r) (fs_tree (w_fs w))"
      "settled (req_items r) (fs_tree (w_fs w))"
  shows "listed sv cns (req_domain r) \<and>
    (\<forall>role\<in>set pem_roles. up_to_date sv (xe r) base (req_domain r) (w_fs w) (w_fs (c_world c)) role)"
proof -
  let ?d = "req_domain r" and ?env = "(xe r)\<lparr>ex_run := (\<lambda>c f. (None, f))\<rparr>"
  obtain y u where u: "run_prog (files_calls (xe r) r) w = (Returned y, u)"
    "same_part base ?d (w_fs u) (w_fs (c_world c))" "orderly (xe r)" "case y of Inl err \<Rightarrow> False | Inr its \<Rightarrow> False \<longrightarrow> has_hook r"
    using outcome_alone(2) [OF inv r] by blast
  then obtain its where "y = Inr its" by (cases y) auto
  then obtain w' where w': "Execute ?env r w = (Returned None, w')" "w_fs w' = w_fs u"
    using files_without_hook u(1) by blast
  have ok: "plain ?d \<and> links_inside base ?d (fs_tree (w_fs (c_world c)))"
    using inv outcome_alone(1) [OF inv r] by (simp add: crew_inv_def parts.tracks_def)
  have "orderly ?env" "ex_do ?env = asks sv cns" "times_agree sv ?env"
    "fresh_stamp ?env base ?d (req_items r) (fs_tree (w_fs w))"
    using env u(3) store(1) by (simp_all add: orderly_def times_agree_def fresh_stamp_def stamp_of_def)
  from execute_up_to_date [OF new a base this store(2) w'(1)]
  have alone: "listed sv cns ?d" "\<forall>role\<in>set pem_roles. up_to_date sv ?env base ?d (w_fs w) (w_fs u) role"
    unfolding w'(2) by simp_all
  have "up_to_date sv (xe r) base ?d (w_fs w) (w_fs (c_world c)) role" if "role \<in> set pem_roles" for role
  proof -
    have "of_domain base ?d (path_below base [?d, current_file role])"
      unfolding of_domain_def in_domain_def using current_plain by blast
    then have read: "read_name (fs_tree (w_fs u)) (path_below base [?d, current_file role]) =
        read_name (fs_tree (w_fs (c_world c))) (path_below base [?d, current_file role])"
      using ok by (intro read_name_part [OF same_part_sym [OF u(2)]]) auto
    have newer: "not_newer ?env = not_newer (xe r)" by (simp add: fun_eq_iff not_newer_def)
    show ?thesis using bspec [OF alone(2) that] unfolding up_to_date_def Let_def read newer .
  qed
  then show ?thesis using alone(1) by blast
qed

section \<open>A client and its server\<close>

definition together_start :: "(client_flags \<times> uniq_strings \<times> pool) startup" where
  "together_start = client_start example_client (example_fs ((''/s'', Directory 493 1) # client_tree))
     \<lparr>log_debug = False, log_lines = []\<rparr>
     [''cert-proxy-client'', ''-auto=0'', ''-certbase=/s'', ''-connect=h'', ''example.org'']"

lemma together_started:
  "case together_start of
     Go_on (opt, CNs, pool) \<Rightarrow> co_jobs opt = 4 \<and> co_shared_hook opt = [] \<and> co_format opt = FormatPEM \<and>
       co_connect opt = ''https://'' @ ''h'' \<and> co_certbase opt = ''/s'' \<and> CNs = {''example.org''} \<and>
       pool = start_pool 1 [wired_req]
   | _ \<Rightarrow> False"
  by code_simp

lemma wired_ready: "crew_ready ''/s'' [wired_req] (\<lambda>_. wired) example_world"
proof -
  have d: "req_domain wired_req = ''example.org''" by code_simp
  have "plain (req_domain wired_req)" "items_placed ''/s'' (req_domain wired_req) (req_items wired_req)" by code_simp+
  then show ?thesis using wired_orderly example_org_links by (simp add: crew_ready_def d)
qed

lemma wired_end:
  "\<exists>c. (crew_step (\<lambda>_. wired))\<^sup>*\<^sup>* (start_crew (\<lambda>_. wired) (start_pool 1 [wired_req]) example_world) c \<and>
     p_waiter (c_pool c) = WaitDone 0"
proof -
  obtain c n where c: "(crew_step (\<lambda>_. wired))\<^sup>*\<^sup>* (start_crew (\<lambda>_. wired) (start_pool 1 [wired_req]) example_world) c"
    "p_waiter (c_pool c) = WaitDone n"
    using crew.reaches_final [OF crew_start [OF wired_ready]] by blast
  note inv = crew_reached [OF wired_ready c(1)]
  then have pinv: "pool_inv 1 [wired_req] (c_pool c)" by (simp add: crew_inv_def)
  have "\<not> has_hook wired_req" by code_simp
  moreover have "fst (Execute wired wired_req example_world) = Returned None" using wired_execute by auto
  ultimately have "\<not> failed" if "(wired_req, failed) \<in> set (p_outcomes (c_pool c))" for failed
    using executed_as_alone [OF inv that] by simp
  moreover have "r = wired_req" if "(r, failed) \<in> set (p_outcomes (c_pool c))" for r failed
    using outcome_alone(1) [OF inv that] by simp
  ultimately have "filter snd (p_outcomes (c_pool c)) = []" unfolding filter_empty_conv by (metis prod.collapse)
  then have "n = 0" using end_of_run(1) [OF pinv c(2)] by simp
  then show ?thesis using c by blast
qed

section \<open>Properties\<close>



end
