(* ===== verification/Spec2Isabelle.thy ===== *)
theory Spec2Isabelle
  imports Lists ManPages ServerErrors Bundle ServerInit ClientInit Endpoint Hook Collision Gen Together
begin

text \<open>
  A verification library for cert-proxy, a server that hands X509 certificates and keys to
  authorized clients over HTTPS, and a client that fetches and installs them.

  \<^bold>\<open>The program.\<close>  The server (\<open>cmd/cert-proxy-server\<close>) holds one directory per domain and one
  authorization file per client.  A request goes through \<open>newMux\<close> to a chain of handlers
  (\<open>authn\<close>, \<open>authz\<close>, \<open>serve\<close>); certificates and chains are public, keys and bundles need a client
  certificate whose file lists the domain.  The client (\<open>cmd/cert-proxy-client\<close>) collects domains
  (arguments, a file, the server's \<open>/v1/list\<close>), builds one request per domain, and lets a pool of
  workers execute them: fetch all files, write them under dated names, switch the current names,
  run a hook.  Both programs carry their manual pages (\<open>man\<close>), which a generator prepares.

  \<^bold>\<open>How the code is modelled.\<close>  Go strings are byte lists; an \<open>error\<close> is a value of \<open>go_error\<close> and
  a fallible function returns \<open>go_error + 'a\<close> or \<open>go_error option\<close>; a call that may panic returns
  an \<open>outcome\<close>; a step of a program's start returns a \<open>startup\<close>, which goes on, exits, ends in
  \<open>log.Fatal\<close> or panics.  The file system is the record \<open>fs\<close>: a tree of inodes, the system calls
  that fail, and the list of all trees so far, so that what a reader beside the program or a run
  after a crash can see is a statement about that list.  Definitions have the names of the
  functions they model; parts of a function are named after what they do.

  \<^bold>\<open>Theories.\<close>
  \<^item> \<open>Prelude\<close> (strings, errors), \<open>GoPath\<close> (\<open>path\<close>, \<open>filepath\<close>), \<open>GoUrl\<close> (\<open>net/url\<close>), \<open>GoFs\<close> (\<open>os\<close>),
    \<open>GoFlag\<close> (\<open>flag\<close>, program starts), \<open>Http\<close> and \<open>Routing\<close> (\<open>net/http\<close>): what the
    sources use of the standard library.
  \<^item> \<open>Validate\<close>, \<open>Lists\<close> (\<open>internal/list\<close>): validation of names, the two list types behind the
    interface \<open>item_list\<close>, and the reader of list files; exactness, round trip, order.
  \<^item> \<open>Redact\<close>, \<open>Shared\<close> (\<open>internal/shared\<close>, \<open>client secret\<close>): redaction of passwords, directories,
    TLS configurations, password sources.
  \<^item> \<open>ManPages\<close> (\<open>man/man.go\<close>, \<open>terminal.go\<close>) and \<open>Gen\<close> (\<open>man/gen.go\<close>): looking pages up and showing
    them; the generator never leaves a truncated page.
  \<^item> \<open>Server\<close> (\<open>main.go\<close>, \<open>auth.go\<close>, \<open>cnlist.go\<close>, \<open>serve.go\<close>, \<open>pkcs12.go\<close>, \<open>version.go\<close>), with
    \<open>ServerProps\<close> (authorization, confinement to the store, every request answered),
    \<open>ServerErrors\<close> (what error responses reveal), \<open>Bundle\<close> (PKCS12) and \<open>ServerInit\<close> (\<open>init.go\<close>,
    the start of \<open>main\<close>).
  \<^item> \<open>CertReq\<close>, \<open>Store\<close>, \<open>Publish\<close>, \<open>Execute\<close> (\<open>client cert.go\<close>): requests, \<open>writeFile\<close> and
    \<open>replaceSymlink\<close>, switching the current names behind the interface \<open>publisher\<close> (interpreted
    for links and for renaming), \<open>Execute\<close>; \<open>ExecuteProps\<close> and \<open>Atomic\<close> show what readers of the
    store see during and after a run, \<open>Frame\<close> that runs for different domains have no name in
    common, \<open>Hook\<close> what the hook gets, \<open>Collision\<close> what happens when a
    dated name is taken, \<open>Endpoint\<close> and \<open>Requests\<close> which URLs are built.
  \<^item> \<open>Worker\<close>, \<open>WorkerProps\<close> (\<open>worker.go\<close>): the pool as a step relation over all interleavings,
    with its invariant, the account of the requests, mutual exclusion of hooks and termination; the
    general part, runs under an invariant and a measure, is the locale of \<open>Steps\<close>.
  \<^item> \<open>Calls\<close>, \<open>ExecCalls\<close>, \<open>Parts\<close>, \<open>Confined\<close>: \<open>Execute\<close> once more as a tree of single system calls,
    equal to the function when they are made in a row; the part of the file system a domain's
    calls depend on; the locale \<open>apart_programs\<close>, on programs that keep to parts of their own,
    interpreted on these.  \<open>Crew\<close>, \<open>CrewProps\<close>: the pool whose workers make these calls on one
    shared file system in any interleaving; each domain ends up as after a run alone.
  \<^item> \<open>ClientInit\<close>, \<open>ClientMain\<close>, \<open>ClientProps\<close> (\<open>init.go\<close>, \<open>out.go\<close>, \<open>umask_*.go\<close>, \<open>const_*.go\<close>,
    \<open>main.go\<close>): options, start, end and exit code of the client.
  \<^item> \<open>System\<close>, \<open>SystemExample\<close> and this theory: client and server put together; the client's
    requests are what the server receives, its replies what the client gets; \<open>Conditional\<close> says
    when a file is transferred, \<open>Together\<close> what exit code 0 of the whole client means: from the
    command line over the concurrent downloads to the files in the store.

  \<^bold>\<open>Parameters.\<close>  Not defined but passed in: PEM, key and certificate parsing and the PKCS12
  encoder (\<open>crypto\<close>), the key pair loader and the test whether a file holds a certificate, the
  TLS listener, the HTTP transport (\<open>ex_do\<close>, \<open>cm_do\<close>; in this theory it is the server model), the
  hook processes, the clock, the order in which Go visits a map, the random names of temporary
  files, go-md2man, gzip and the man program, number and duration parsing of \<open>flag\<close>, and the
  validity test for IPv6 addresses in URLs.

  \<^bold>\<open>Bounds.\<close>  Following symbolic links gives up after 40, as the kernel does.  \<open>parseCertificates\<close>
  is a partial function, since its loop ends only if the PEM decoder uses up its input; under that
  law it returns (\<open>Bundle\<close>).  A run of the pool has at most \<open>6 r + n + 6\<close> steps for \<open>r\<close> requests
  and \<open>n\<close> workers, and with the files those of the calls its requests would make alone.  \<open>os.CreateTemp\<close> tries 10000 names.

  \<^bold>\<open>Not modelled.\<close>  The TLS handshake and connection handling; partial responses of the server
  that break a connection (in \<open>System\<close> a reply is whole or an error); range requests; cancellation
  of contexts, which the client never does; the text of \<open>flag.Usage\<close>; \<open>log.SetFlags\<close>, which only
  drops time stamps; \<open>NewDisplayer\<close> and \<open>runViewer\<close>, which connect a record of functions to the
  process; tests, CA scripts, demo, packaging and service files.
\<close>

section \<open>Requests and routes\<close>

lemma upper_PKCS12: "to_upper ''PKCS12'' = ''PKCS12''" "to_upper [] = []"
  by code_simp+

lemma item_private:
  "NewReq ip6 version d remote base hook format pass compt = Returned (Inr req) \<Longrightarrow> base \<noteq> [] \<Longrightarrow>
     i \<in> set (req_items req) \<Longrightarrow> ci_private i = key_item (ci_role i)"
  using NewReq_Inr [of ip6 version d remote base hook format pass compt req]
  by (auto simp: items_placed_def item_placed_def list_all_iff)

lemma item_query:
  assumes "domain_name d"
  shows "format_ext (to_upper (values_get (url_query (cq_url (item_request version a [] d pass compt r))) ''format'')) =
      Inr (if r = RoleBUNDLE then ''.p12'' else ''.pem'')"
    and "values_get (url_query (cq_url (item_request version a [] d pass compt RoleBUNDLE))) ''pass'' = pass"
    and "values_get (url_query (cq_url (item_request version a [] d pass compt RoleBUNDLE))) ''pkcs12-compat'' = compt"
proof -
  let ?q = "\<lambda>r. url_query (cq_url (item_request version a [] d pass compt r))"
  note url = item_request_simps [OF assms base_path_Nil, where version = version and a = a
      and pass = pass and compt = compt]
  have decoded: "values_get (?q RoleBUNDLE) ''format'' = ''PKCS12''" "values_get (?q RoleBUNDLE) ''pass'' = pass"
    "values_get (?q RoleBUNDLE) ''pkcs12-compat'' = compt"
    by (simp_all add: values_get_def url(4) bundle_query_values map_add_def)
  have "values_get (?q r) ''format'' = []" if "r \<noteq> RoleBUNDLE"
    using url(3) [OF that] by (simp add: values_get_def)
  then show "format_ext (to_upper (values_get (?q r) ''format'')) = Inr (if r = RoleBUNDLE then ''.p12'' else ''.pem'')"
    using decoded(1) upper_PKCS12 by (cases "r = RoleBUNDLE") (simp_all add: format_ext_def)
  show "values_get (?q RoleBUNDLE) ''pass'' = pass" "values_get (?q RoleBUNDLE) ''pkcs12-compat'' = compt"
    by (fact decoded)+
qed

text \<open>C2. The client's requests and the server's routes fit together: every item of a request
  reaches the route of its role, with the authorization handler in front exactly when the item
  is private, and the server reads back from the URL the role, the domain, the format and, for
  a bundle, the password and the compatibility level that the client put into it, whatever
  characters they hold.\<close>

theorem requests_reach_their_route:
  assumes "NewReq ip6 version d (''https://'' @ a) base hook format pass compt = Returned (Inr req)"
    and "plain_authority a" and "base \<noteq> []" and "i \<in> set (req_items req)"
  shows "let rq = received cns (ci_remote i) in
    mux_route newMux rq = Dispatch (if ci_private i then [Authz, Serve] else [Serve]) \<and>
    role_domain (u_path (rq_url rq)) = Some (stem (ci_role i), d) \<and>
    format_ext (to_upper (values_get (url_query (rq_url rq)) ''format'')) =
      Inr (if ci_role i = RoleBUNDLE then ''.p12'' else ''.pem'') \<and>
    (ci_role i = RoleBUNDLE \<longrightarrow> values_get (url_query (rq_url rq)) ''pass'' = pass \<and>
       values_get (url_query (rq_url rq)) ''pkcs12-compat'' = compt)"
proof -
  have new: "NewReq ip6 version d (''https://'' @ a @ []) base hook format pass compt = Returned (Inr req)"
    using assms(1) by simp
  note item = item_remote [OF new assms(2) base_path_Nil assms(3,4)]
  note url = item_request_simps [OF item(2) base_path_Nil, where version = version and a = a and pass = pass and compt = compt]
  have "mux_route newMux (received cns (ci_remote i)) = Dispatch (role_handlers (ci_role i))"
    using url(2) item(1) by (intro route_endpoint [OF item(2)]) (simp add: received_simps)
  moreover have "role_domain (endpoint_path [] (ci_role i) d) = Some (stem (ci_role i), d)"
    using endpoint_split [OF domain_name_plain [OF item(2)], of "ci_role i"]
    by (simp add: role_domain_def endpoint_stem)
  ultimately show ?thesis
    using item_query [OF item(2), where version = version and a = a and pass = pass and compt = compt] item(1) url(1) item_private [OF assms(1,3,4)]
    by (auto simp: Let_def received_simps role_handlers_def)
qed

definition bundle_req :: "(go_error + cert_req) outcome" where
  "bundle_req = NewReq (\<lambda>_. False) ''v1'' ''a.example'' (''https://'' @ ''h'') ''/s'' [] FormatPKCS12 ''x&y'' []"

lemma bundle_req_ok: "case bundle_req of Returned (Inr req) \<Rightarrow> map ci_role (req_items req) = [RoleBUNDLE] | _ \<Rightarrow> False"
  by code_simp

theorem requests_reach_their_route_witness:
  "\<exists>req i. bundle_req = Returned (Inr req) \<and> i \<in> set (req_items req) \<and>
     values_get (url_query (rq_url (received [''client''] (ci_remote i)))) ''pass'' = ''x&y''"
proof -
  obtain req where req: "bundle_req = Returned (Inr req)" "map ci_role (req_items req) = [RoleBUNDLE]"
    using bundle_req_ok by (auto split: outcome.splits sum.splits)
  then obtain i where i: "i \<in> set (req_items req)" "ci_role i = RoleBUNDLE" by (cases "req_items req") auto
  have "(''/s'' :: string) \<noteq> []" by simp
  from requests_reach_their_route [OF req(1) [unfolded bundle_req_def] conjunct1 [OF plain_example] this i(1)]
  show ?thesis using req(1) i by (auto simp: Let_def)
qed

section \<open>The list of domains\<close>

text \<open>C22. The list a client gets is its own authorization file: when all entries of the file are
  valid domains the client receives exactly these, in the order the server writes them.  One
  entry that is not a valid domain, although the server itself accepts it in the file, makes
  the client reject the whole list.\<close>

theorem listed_domains_reach_the_client:
  assumes "plain_authority a" and "cnList sv cn = Inr allowed" and "set (sv_range sv allowed) = allowed"
  shows "((\<forall>d\<in>allowed. ValidateDomain d = None) \<longrightarrow>
      fst (fetchCNs ip6 version (asks sv (cn # chain)) (''https://'' @ a)) = Inr (sv_range sv allowed)) \<and>
    ((\<exists>d\<in>allowed. trim_space d \<noteq> [] \<and> ValidateDomain (trim_space d) \<noteq> None) \<longrightarrow>
      (\<exists>e. fst (fetchCNs ip6 version (asks sv (cn # chain)) (''https://'' @ a)) = Inl e \<and> errors_is_invalid_name e))"
proof -
  let ?ds = "sv_range sv allowed"
  note fetched = fetched_list [OF assms, of ip6 version chain]
  have "read_domains ?ds [] = Inr ?ds" if "\<forall>d\<in>allowed. ValidateDomain d = None"
  proof -
    have "\<forall>d\<in>set ?ds. trim_space d = d \<and> d \<noteq> []"
      using that assms(3) by (auto simp: ValidateDomain_None trim_space_domain domain_name_def)
    then have "map trim_space ?ds = ?ds \<and> filter (\<lambda>l. l \<noteq> []) ?ds = ?ds"
      by (simp add: map_idI filter_id_conv)
    then show ?thesis using that assms(3) \<open>\<forall>d\<in>set ?ds. trim_space d = d \<and> d \<noteq> []\<close>
      by (simp add: read_domains_Inr)
  qed
  moreover have "\<exists>e. read_domains ?ds [] = Inl e \<and> errors_is_invalid_name e"
    if "\<exists>d\<in>allowed. trim_space d \<noteq> [] \<and> ValidateDomain (trim_space d) \<noteq> None"
  proof (cases "read_domains ?ds []")
    case (Inl e)
    then show ?thesis using read_domains_Inl by blast
  next
    case (Inr ds)
    then show ?thesis using that assms(3) by (auto simp: read_domains_Inr)
  qed
  ultimately show ?thesis unfolding fetched by blast
qed

theorem listed_domains_reach_the_client_witness:
  "fst (fetchCNs (\<lambda>_. False) ''v1'' (asks example_server [''client'']) (''https://'' @ ''h'')) = Inr [''example.org'']"
proof -
  have "ValidateDomain ''example.org'' = None" by code_simp
  then show ?thesis
    using listed_domains_reach_the_client [OF plain_h example_allowed, of "\<lambda>_. False" "''v1''" "[]"]
    by (simp add: example_listed)
qed

section \<open>Authorization\<close>



section \<open>End to end\<close>

text \<open>When the client runs against the server and \<open>Execute\<close> succeeds, the client was listed
  for the domain, and each of its files reads afterwards, under its current name, exactly as
  the file of the same name in the domain's directory on the server, with mode 0600 for the
  private key and 0644 otherwise; a file for which the server sent nothing reads as before.\<close>

theorem client_installs_the_servers_files:
  assumes new: "NewReq ip6 version d (''https://'' @ a) base hook FormatPEM pass compt = Returned (Inr req)"
    and a: "plain_authority a" and base: "base \<noteq> []"
    and env: "orderly env" "ex_do env = asks sv cns"
    and store: "fresh_stamp env base d (req_items req) (fs_tree (w_fs w))"
      "settled (req_items req) (fs_tree (w_fs w))"
    and fetch: "fetch_items env (req_items req) w = (Inr its, w1)"
    and run: "Execute env req w = (Returned None, w')"
  shows "(\<exists>cn chain allowed. cns = cn # chain \<and> cnList sv cn = Inr allowed \<and> d \<in> allowed) \<and>
    map ci_role its = [RoleCRT, RoleKEY, RoleCHAIN, RoleFULLCHAIN] \<and>
    list_all (\<lambda>j. if ci_data j = [] then
        read_name (fs_tree (w_fs w')) (ci_local j) = read_name (fs_tree (w_fs w)) (ci_local j)
      else (\<exists>h. os_open (sv_fs sv) (path_below (dir_or_dot (sv_certbase sv)) [d, current_file (ci_role j)]) = Inr h \<and>
        read_name (fs_tree (w_fs w')) (ci_local j) =
          Some (if ci_role j = RoleKEY then 384 else 420, fst (file_reader (sv_fs sv) h)))) its"
proof -
  note built = NewReq_Inr [OF new base]
  have roles: "map ci_role (req_items req) = [RoleCRT, RoleKEY, RoleCHAIN, RoleFULLCHAIN]"
    using built by (simp add: ROLES_def)
  have same: "list_all2 same_item (req_items req) its" using fetch_items_effect [OF fetch] by simp
  have its_roles: "map ci_role its = map ci_role (req_items req)"
    using same by (induction rule: list_all2_induct) (auto simp: same_item_def)
  have placed: "items_placed base d its" using placed_same [OF _ same] built by blast
  have reply: "list_all2 (\<lambda>i j. \<exists>resp. asks sv cns (ci_remote (with_ims env (w_fs w) i)) = Inr resp \<and>
      (rp_code resp = 200 \<and> rp_body resp = (ci_data j, None) \<or> rp_code resp = 304 \<and> ci_data j = ci_data i))
      (req_items req) its"
    using fetch_items_replies [OF fetch] env(2) by simp
  note item = fetched_item [OF new a base]
  have key: "\<exists>cn chain allowed. cns = cn # chain \<and> cnList sv cn = Inr allowed \<and> d \<in> allowed"
  proof -
    obtain k where k: "k < length (req_items req)" "ci_role (req_items req ! k) = RoleKEY"
      using roles by (metis length_map lessI nth_Cons_0 nth_Cons_Suc nth_map One_nat_def
          length_Cons zero_less_Suc Suc_less_eq)
    then show ?thesis using item(1) reply unfolding list_all2_conv_all_nth key_item_def
      by (metis nth_mem)
  qed
  have read: "list_all (\<lambda>j. read_name (fs_tree (w_fs w')) (ci_local j) =
    (if ci_data j = [] then read_name (fs_tree (w_fs w)) (ci_local j)
     else Some (if ci_private j then 384 else 420, ci_data j))) its"
    using built by (intro run_installs [OF _ _ env(1) store fetch run]) (auto dest: domain_name_plain)
  have "list_all (\<lambda>j. if ci_data j = [] then
        read_name (fs_tree (w_fs w')) (ci_local j) = read_name (fs_tree (w_fs w)) (ci_local j)
      else (\<exists>h. os_open (sv_fs sv) (path_below (dir_or_dot (sv_certbase sv)) [d, current_file (ci_role j)]) = Inr h \<and>
        read_name (fs_tree (w_fs w')) (ci_local j) =
          Some (if ci_role j = RoleKEY then 384 else 420, fst (file_reader (sv_fs sv) h)))) its"
  proof (rule list_all_length [THEN iffD2], intro allI impI)
    fix k
    assume k: "k < length its"
    let ?i = "req_items req ! k" and ?j = "its ! k"
    have ki: "k < length (req_items req)" using k same by (simp add: list_all2_lengthD)
    have role: "ci_role ?j = ci_role ?i" using its_roles ki k by (metis nth_map)
    have "ci_role ?j \<in> set (map ci_role its)" using k by simp
    then have "ci_role ?j \<noteq> RoleBUNDLE" unfolding its_roles roles by auto
    then have priv: "ci_private ?j = (ci_role ?j = RoleKEY)"
      using placed k by (auto simp: items_placed_def item_placed_def list_all_length key_item_def)
    have "\<exists>h. ci_data ?j = fst (file_reader (sv_fs sv) h) \<and>
        os_open (sv_fs sv) (path_below (dir_or_dot (sv_certbase sv)) [d, current_file (ci_role ?j)]) = Inr h"
      if "ci_data ?j \<noteq> []"
      using item(2) [OF nth_mem [OF ki]] reply ki that role unfolding list_all2_conv_all_nth by metis
    then show "if ci_data ?j = [] then
        read_name (fs_tree (w_fs w')) (ci_local ?j) = read_name (fs_tree (w_fs w)) (ci_local ?j)
      else (\<exists>h. os_open (sv_fs sv) (path_below (dir_or_dot (sv_certbase sv)) [d, current_file (ci_role ?j)]) = Inr h \<and>
        read_name (fs_tree (w_fs w')) (ci_local ?j) =
          Some (if ci_role ?j = RoleKEY then 384 else 420, fst (file_reader (sv_fs sv) h)))"
      using read k priv by (auto simp: list_all_length)
  qed
  with key its_roles roles show ?thesis by simp
qed

theorem client_installs_the_servers_files_witness:
  "\<exists>w'. Execute wired wired_req example_world = (Returned None, w') \<and>
     map ci_role wired_items = [RoleCRT, RoleKEY, RoleCHAIN, RoleFULLCHAIN]"
proof -
  obtain w1 w' where f: "fetch_items wired (req_items wired_req) example_world = (Inr wired_items, w1)"
    and x: "Execute wired wired_req example_world = (Returned None, w')"
    using wired_fetch wired_execute by blast
  have "(''/s'' :: string) \<noteq> []" "ex_do wired = asks full_server [''client'']" by (simp_all add: wired_def)
  note c = client_installs_the_servers_files [OF wired_new plain_h this(1) wired_orderly this(2) wired_fresh
      wired_hyps(2) f x]
  show ?thesis by (rule exI [of _ w'], rule conjI, rule x, rule conjunct1 [OF conjunct2 [OF c]])
qed

section \<open>Bundles\<close>

text \<open>C7. A client that gets a bundle from the server is listed for the domain, and the bundle is the
  file \<open>bundle.p12\<close> stored for the domain or, when there is none, one made from the domain's
  files for exactly the password and the compatibility level the client asked for.\<close>

theorem client_gets_its_bundle:
  assumes new: "NewReq ip6 version d (''https://'' @ a) base hook FormatPKCS12 pass compt = Returned (Inr req)"
    and a: "plain_authority a" and base: "base \<noteq> []" and i: "i \<in> set (req_items req)"
    and ask: "asks sv cns (ci_remote (with_ims env f i)) = Inr resp" and code: "rp_code resp = 200"
  shows "(\<exists>cn chain allowed. cns = cn # chain \<and> cnList sv cn = Inr allowed \<and> d \<in> allowed) \<and>
    (case http_dir_open (sv_fs sv) (sv_certbase sv) (path_join [d, ''bundle.p12'']) of
       Inr h \<Rightarrow> rp_body resp = (fst (file_reader (sv_fs sv) h), None)
     | Inl e \<Rightarrow> os_is_not_exist e \<and>
        (\<exists>pfx t. createPKCS12 sv d pass compt = Some (Inr (pfx, t)) \<and> rp_body resp = (pfx, None)))"
proof -
  have new': "NewReq ip6 version d (''https://'' @ a @ []) base hook FormatPKCS12 pass compt = Returned (Inr req)"
    using new by simp
  note item = item_remote [OF new' a base_path_Nil base i]
  have r: "ci_role i = RoleBUNDLE" using item(3) by (simp add: ROLES_def FormatPEM_def FormatPKCS12_def)
  let ?q = "ci_remote (with_ims env f i)"
  have q: "cq_url ?q = cq_url (item_request version a [] d pass compt RoleBUNDLE)"
    using with_ims_url item(1) r by simp
  note url = item_request_simps [OF item(2) base_path_Nil, where version = version and a = a and pass = pass and compt = compt]
  note query = item_query [OF item(2), where version = version and a = a and pass = pass and compt = compt]
  have "rp_code resp < 400" using code by simp
  note served = asks_serve [OF item(2) _ _ ask this, unfolded q, OF url(1,2)]
  then obtain s0 s where s: "serve sv (received cns ?q) s0 = (s, HOk)" "fresh s0" "resp = reply_of (h_resp s)"
    by blast
  have "u_path (rq_url (received cns ?q)) = endpoint_path [] RoleBUNDLE d"
    "format_ext (to_upper (values_get (url_query (rq_url (received cns ?q))) ''format'')) = Inr ''.p12''"
    using url(1) query(1) [of RoleBUNDLE] by (simp_all add: received_simps q)
  from serve_bundle_item [OF item(2) this s(1,2)] obtain s1 where
    "serve_bundle sv (received cns ?q) ''bundle'' d ''.p12'' s1 = (s, HOk)" "fresh s1" by blast
  note made = served_bundle_reply [OF this, unfolded q query(2,3)]
  have "key_item RoleBUNDLE" by (simp add: key_item_def)
  then show ?thesis using made code served unfolding s(3) by blast
qed

definition own_bundle_req :: cert_req where
  "own_bundle_req = (case NewReq (\<lambda>_. False) ''v1'' ''example.org'' (''https://'' @ ''h'') ''/s'' [] FormatPKCS12 ''x&y'' [] of
     Returned (Inr req) \<Rightarrow> req | _ \<Rightarrow> \<lparr>req_domain = [], req_items = [], req_hook = [], req_env = []\<rparr>)"

definition bundle_server :: "(string, string) server" where
  "bundle_server = example_server\<lparr>sv_fs := (sv_fs example_server)\<lparr>fs_tree :=
     (''/c/example.org/bundle.p12'', RegFile 384 30 ''stored'') # server_tree\<rparr>\<rparr>"

lemma own_bundle_new:
  "case NewReq (\<lambda>_. False) ''v1'' ''example.org'' (''https://'' @ ''h'') ''/s'' [] FormatPKCS12 ''x&y'' [] of
     Returned (Inr req) \<Rightarrow> req_items req \<noteq> [] | _ \<Rightarrow> False"
  by code_simp

lemma own_bundle_reply:
  "case asks bundle_server [''client''] (ci_remote (hd (req_items own_bundle_req))) of
     Inr resp \<Rightarrow> rp_code resp = 200 | Inl e \<Rightarrow> False"
  by code_simp

lemma bundle_opened:
  "http_dir_open (sv_fs bundle_server) (sv_certbase bundle_server) (path_join [''example.org'', ''bundle.p12'']) =
     Inr (''/c/example.org/bundle.p12'', RegFile 384 30 ''stored'')"
  by code_simp

theorem client_gets_its_bundle_witness:
  "\<exists>resp. asks bundle_server [''client''] (ci_remote (hd (req_items own_bundle_req))) = Inr resp \<and>
     rp_body resp = (''stored'', None)"
proof -
  let ?i = "hd (req_items own_bundle_req)"
  have new: "NewReq (\<lambda>_. False) ''v1'' ''example.org'' (''https://'' @ ''h'') ''/s'' [] FormatPKCS12 ''x&y'' [] =
      Returned (Inr own_bundle_req)" and i: "?i \<in> set (req_items own_bundle_req)"
    using own_bundle_new by (auto simp: own_bundle_req_def split: outcome.splits sum.splits)
  obtain resp where resp: "asks bundle_server [''client''] (ci_remote ?i) = Inr resp" "rp_code resp = 200"
    using own_bundle_reply by (auto split: sum.splits)
  have forced: "with_ims wired (w_fs example_world) ?i = ?i" by (simp add: with_ims_def wired_def)
  have ask: "asks bundle_server [''client''] (ci_remote (with_ims wired (w_fs example_world) ?i)) = Inr resp"
    using resp(1) by (simp only: forced)
  have "(''/s'' :: string) \<noteq> []" by simp
  from client_gets_its_bundle [OF new plain_h this i ask resp(2)] have
    "rp_body resp = (fst (file_reader (sv_fs bundle_server) (''/c/example.org/bundle.p12'', RegFile 384 30 ''stored'')), None)"
    unfolding bundle_opened by simp
  then have "rp_body resp = (''stored'', None)"
    by (simp add: bundle_server_def example_server_def)
  then show ?thesis using resp(1) by blast
qed

end
